(* ===== verification/Prelude.thy ===== *)
theory Prelude
  imports
    Main
    "HOL-Library.Word"
    "HOL-Library.Char_ord"
    "HOL-Library.List_Lexorder"
    "HOL-Library.Product_Lexorder"
begin

text \<open>
  Shared vocabulary of the development.

  \<^item> \<open>Result<T, E>\<close> is a sum \<open>'e + 'a\<close>; the \<open>?\<close> operator is \<open>and_then\<close>, \<open>map_err\<close> renames an
    error. A method on \<open>&mut self\<close> returns the object after the call together with its result, so
    that what the call wrote before an early return is part of the model.
  \<^item> \<open>u64\<close> and \<open>u32\<close> are words; \<open>checked_add\<close> is the standard library's.
  \<^item> UUID newtypes of \<open>shared_kernel/domain/identifiers.rs\<close> are 128-bit words, nil is 0.
  \<^item> A \<open>DateTime<Utc>\<close> is its number of nanoseconds since the epoch.
  \<^item> A Rust string is the list of its UTF-8 bytes.
  \<^item> A \<open>BTreeMap\<close> is the list of its entries in key order.
  \<^item> \<open>serde_json\<close>, \<open>sha2\<close> and \<open>uuid\<close> are third-party crates: they are the fields of the record
    \<open>externals\<close>, an argument of every definition that calls them.
\<close>

section \<open>Results\<close>

type_synonym ('e, 'a) result = "'e + 'a"

type_synonym ('s, 'e, 'a) mutation = "'s \<times> ('e + 'a)"

fun and_then :: "('e, 'a) result \<Rightarrow> ('a \<Rightarrow> ('e, 'b) result) \<Rightarrow> ('e, 'b) result" where
  "and_then (Inl e) f = Inl e"
| "and_then (Inr a) f = f a"

fun map_err :: "('e \<Rightarrow> 'f) \<Rightarrow> ('e, 'a) result \<Rightarrow> ('f, 'a) result" where
  "map_err g (Inl e) = Inl (g e)"
| "map_err g (Inr a) = Inr a"

definition ensure :: "bool \<Rightarrow> 'e \<Rightarrow> ('e, unit) result" where
  "ensure b e = (if b then Inr () else Inl e)"

definition ok_or :: "'e \<Rightarrow> 'a option \<Rightarrow> ('e, 'a) result" where
  "ok_or e x = (case x of None \<Rightarrow> Inl e | Some a \<Rightarrow> Inr a)"

fun is_ok :: "('e, 'a) result \<Rightarrow> bool" where
  "is_ok (Inl e) = False"
| "is_ok (Inr a) = True"

text \<open>The loop \<open>for x in xs { check(x)?; }\<close>.\<close>

fun try_for_each :: "('a \<Rightarrow> ('e, unit) result) \<Rightarrow> 'a list \<Rightarrow> ('e, unit) result" where
  "try_for_each f [] = Inr ()"
| "try_for_each f (x # xs) = and_then (f x) (\<lambda>_. try_for_each f xs)"

text \<open>The loop that pushes \<open>f(x)?\<close> on a vector for each \<open>x\<close>.\<close>

fun try_map :: "('a \<Rightarrow> ('e, 'b) result) \<Rightarrow> 'a list \<Rightarrow> ('e, 'b list) result" where
  "try_map f [] = Inr []"
| "try_map f (x # xs) = and_then (f x) (\<lambda>y. and_then (try_map f xs) (\<lambda>ys. Inr (y # ys)))"

text \<open>\<open>Iterator::try_fold\<close>, and the loop that updates a state and returns at the first error.\<close>

fun try_fold :: "('s \<Rightarrow> 'a \<Rightarrow> ('e, 's) result) \<Rightarrow> 's \<Rightarrow> 'a list \<Rightarrow> ('e, 's) result" where
  "try_fold f s [] = Inr s"
| "try_fold f s (x # xs) = and_then (f s x) (\<lambda>s. try_fold f s xs)"

lemma and_then_Inr_iff [simp]:
  "and_then r f = Inr b \<longleftrightarrow> (\<exists>a. r = Inr a \<and> f a = Inr b)"
  by (cases r) auto

lemma and_then_Inl_iff:
  "and_then r f = Inl e \<longleftrightarrow> r = Inl e \<or> (\<exists>a. r = Inr a \<and> f a = Inl e)"
  by (cases r) auto

lemma map_err_Inr_iff [simp]: "map_err g r = Inr a \<longleftrightarrow> r = Inr a"
  by (cases r) auto

lemma map_err_Inl_iff: "map_err g r = Inl e \<longleftrightarrow> (\<exists>e'. r = Inl e' \<and> e = g e')"
  by (cases r) auto

lemma ensure_Inr_iff [simp]: "ensure b e = Inr u \<longleftrightarrow> b"
  by (simp add: ensure_def)

lemma ensure_Inl_iff [simp]: "ensure b e = Inl e' \<longleftrightarrow> \<not> b \<and> e' = e"
  by (auto simp: ensure_def)

lemma ok_or_Inr_iff [simp]: "ok_or e x = Inr a \<longleftrightarrow> x = Some a"
  by (simp add: ok_or_def split: option.split)

lemma ok_or_Inl_iff: "ok_or e x = Inl e' \<longleftrightarrow> x = None \<and> e' = e"
  by (auto simp: ok_or_def split: option.split)

lemma is_ok_iff: "is_ok r \<longleftrightarrow> (\<exists>a. r = Inr a)"
  by (cases r) auto

lemma is_ok_unit_iff: "is_ok r \<longleftrightarrow> r = Inr ()"
  by (cases r) auto

lemma try_for_each_ok_iff [simp]:
  "try_for_each f xs = Inr u \<longleftrightarrow> (\<forall>x\<in>set xs. f x = Inr ())"
  by (induction xs) auto

lemma try_map_ok_iff: "try_map f xs = Inr ys \<longleftrightarrow> list_all2 (\<lambda>x y. f x = Inr y) xs ys"
  by (induction xs arbitrary: ys) (auto simp: list_all2_Cons1)

lemma try_fold_append:
  "try_fold f s (xs @ ys) = and_then (try_fold f s xs) (\<lambda>s. try_fold f s ys)"
proof (induction xs arbitrary: s)
  case (Cons x xs)
  show ?case by (cases "f s x") (simp_all add: Cons.IH)
qed simp

lemma map_sort_key_commute:
  assumes "\<And>x. f (g x) = f x"
  shows "map g (sort_key f xs) = sort_key f (map g xs)"
proof -
  have "map g (insort_key f x ys) = insort_key f (g x) (map g ys)" for x ys
    by (induction ys) (simp_all add: assms)
  then show ?thesis
    by (induction xs) simp_all
qed

lemma try_fold_map: "(\<And>s x. f s (g x) = f s x) \<Longrightarrow> try_fold f s (map g xs) = try_fold f s xs"
proof (induction xs arbitrary: s)
  case (Cons x xs)
  then show ?case by (cases "f s x") simp_all
qed simp

lemma try_fold_invariant:
  "try_fold f s xs = Inr t \<Longrightarrow> I s \<Longrightarrow>
   (\<And>s x s'. I s \<Longrightarrow> x \<in> set xs \<Longrightarrow> f s x = Inr s' \<Longrightarrow> I s') \<Longrightarrow> I t"
proof (induction xs arbitrary: s)
  case (Cons x xs)
  obtain u where u: "f s x = Inr u" "try_fold f u xs = Inr t"
    using Cons.prems(1) by auto
  have "I u" by (rule Cons.prems(3) [OF Cons.prems(2) _ u(1)]) simp
  then show ?case
    by (rule Cons.IH [OF u(2)]) (blast intro: Cons.prems(3) list.set_intros(2))
qed simp

lemma try_fold_split:
  assumes "try_fold f s (xs @ a # ys) = Inr t"
  obtains s0 s1 where "try_fold f s xs = Inr s0" and "f s0 a = Inr s1" and "try_fold f s1 ys = Inr t"
  using assms by (auto simp: try_fold_append)

section \<open>Machine integers\<close>

type_synonym u64 = "64 word"
type_synonym u32 = "32 word"
type_synonym u16 = "16 word"

definition checked_add :: "'a::len word \<Rightarrow> 'a word \<Rightarrow> 'a word option" where
  "checked_add a b = (if unat a + unat b < 2 ^ LENGTH('a) then Some (a + b) else None)"

lemma checked_add_Some:
  "checked_add a b = Some c \<longleftrightarrow> unat a + unat b < 2 ^ LENGTH('a) \<and> c = a + b"
  for a b c :: "'a::len word"
  by (auto simp: checked_add_def)

lemma checked_add_unat: "checked_add a b = Some c \<Longrightarrow> unat c = unat a + unat b"
  by (auto simp: checked_add_def unat_word_ariths split: if_splits)

lemma checked_inc_unat: "checked_add a 1 = Some c \<Longrightarrow> unat c = Suc (unat a)"
  for a :: "'a::len word"
  by (drule checked_add_unat) simp

lemma checked_inc_less: "checked_add a 1 = Some c \<Longrightarrow> a < c"
  by (drule checked_inc_unat) (simp add: word_less_nat_alt)

lemma checked_inc_le: "checked_add a 1 = Some c \<Longrightarrow> a \<le> c"
  by (drule checked_inc_less) simp

lemma checked_inc_pos: "checked_add a 1 = Some c \<Longrightarrow> c \<noteq> 0"
  by (drule checked_inc_less) auto

lemma checked_inc_neq: "checked_add a 1 = Some c \<Longrightarrow> c \<noteq> a"
  by (drule checked_inc_less) auto

lemma checked_add_None_iff: "checked_add a 1 = None \<longleftrightarrow> a = - 1"
  for a :: "'a::len word"
proof -
  have le: "unat a < 2 ^ LENGTH('a)" and max: "unat (- 1 :: 'a word) = 2 ^ LENGTH('a) - 1"
    by (simp_all add: unsigned_less unsigned_minus_1_eq_mask mask_eq_exp_minus_1)
  have "checked_add a 1 = None \<longleftrightarrow> \<not> unat a + 1 < 2 ^ LENGTH('a)"
    by (simp add: checked_add_def)
  also have "\<dots> \<longleftrightarrow> unat a = 2 ^ LENGTH('a) - 1"
    using le by linarith
  also have "\<dots> \<longleftrightarrow> a = - 1"
    by (simp only: word_unat_eq_iff max)
  finally show ?thesis .
qed

lemmas checked_inc_facts = checked_inc_less checked_inc_le checked_inc_pos checked_inc_neq

section \<open>Identifiers and timestamps\<close>

type_synonym uuid = "128 word"

abbreviation is_nil :: "uuid \<Rightarrow> bool" where
  "is_nil u \<equiv> u = 0"

type_synonym timestamp = int

definition canonical_timestamp :: "timestamp \<Rightarrow> timestamp" where
  "canonical_timestamp t = t - t mod 1000"

text \<open>\<open>DateTime::timestamp_millis\<close>.\<close>

definition timestamp_millis :: "timestamp \<Rightarrow> int" where
  "timestamp_millis t = t div 1000000"

lemma canonical_timestamp_idem [simp]:
  "canonical_timestamp (canonical_timestamp t) = canonical_timestamp t"
  by (simp add: canonical_timestamp_def)

lemma canonical_timestamp_le: "canonical_timestamp t \<le> t"
  by (simp add: canonical_timestamp_def)

lemma canonical_timestamp_mono: "s \<le> t \<Longrightarrow> canonical_timestamp s \<le> canonical_timestamp t"
proof -
  assume "s \<le> t"
  then have "1000 * (s div 1000) \<le> 1000 * (t div 1000)"
    by (simp add: zdiv_mono1)
  then show ?thesis
    by (simp add: canonical_timestamp_def minus_mod_eq_mult_div)
qed

lemma timestamp_millis_canonical [simp]:
  "timestamp_millis (canonical_timestamp t) = timestamp_millis t"
proof -
  have "t - t mod 1000 = 1000 * (t div 1000)"
    by (simp add: minus_mod_eq_mult_div)
  then have "timestamp_millis (canonical_timestamp t) = (1000 * (t div 1000)) div 1000000"
    by (simp add: canonical_timestamp_def timestamp_millis_def)
  also have "\<dots> = t div 1000 div 1000"
    using div_mult_mult1 [of 1000 "t div 1000" 1000] by simp
  also have "\<dots> = t div 1000000"
    using zdiv_zmult2_eq [of 1000 t 1000] by simp
  finally show ?thesis
    by (simp add: timestamp_millis_def)
qed

section \<open>Strings\<close>

text \<open>\<open>str::contains([..])\<close> over a set of characters.\<close>

definition contains_any :: "string \<Rightarrow> string \<Rightarrow> bool" where
  "contains_any s cs \<longleftrightarrow> list_ex (\<lambda>c. c \<in> set cs) s"

definition strip_prefix :: "string \<Rightarrow> string \<Rightarrow> string option" where
  "strip_prefix p s = (if take (length p) s = p then Some (drop (length p) s) else None)"

text \<open>\<open>str::split\<close> on one character: one more segment than there are separators.\<close>

fun split_on :: "char \<Rightarrow> string \<Rightarrow> string list" where
  "split_on c [] = [[]]"
| "split_on c (x # s) =
     (if x = c then [] # split_on c s
      else case split_on c s of [] \<Rightarrow> [[x]] | t # ts \<Rightarrow> (x # t) # ts)"

definition ascii_digit :: "char \<Rightarrow> bool" where
  "ascii_digit c \<longleftrightarrow> CHR ''0'' \<le> c \<and> c \<le> CHR ''9''"

definition ascii_lowercase :: "char \<Rightarrow> bool" where
  "ascii_lowercase c \<longleftrightarrow> CHR ''a'' \<le> c \<and> c \<le> CHR ''z''"

definition lower_hex :: "char \<Rightarrow> bool" where
  "lower_hex c \<longleftrightarrow> ascii_digit c \<or> CHR ''a'' \<le> c \<and> c \<le> CHR ''f''"

definition ascii_hexdigit :: "char \<Rightarrow> bool" where
  "ascii_hexdigit c \<longleftrightarrow> lower_hex c \<or> CHR ''A'' \<le> c \<and> c \<le> CHR ''F''"

text \<open>
  \<open>char::is_whitespace\<close> on the UTF-8 encoding: the Unicode White\_Space characters have one, two or
  three bytes.
\<close>

definition ws1 :: "char \<Rightarrow> bool" where
  "ws1 c \<longleftrightarrow> CHR 0x09 \<le> c \<and> c \<le> CHR 0x0D \<or> c = CHR 0x20"

definition ws2 :: "char \<Rightarrow> char \<Rightarrow> bool" where
  "ws2 c d \<longleftrightarrow> c = CHR 0xC2 \<and> (d = CHR 0x85 \<or> d = CHR 0xA0)"

definition ws3 :: "char \<Rightarrow> char \<Rightarrow> char \<Rightarrow> bool" where
  "ws3 c d e \<longleftrightarrow>
     c = CHR 0xE1 \<and> d = CHR 0x9A \<and> e = CHR 0x80 \<or>
     c = CHR 0xE2 \<and> d = CHR 0x80 \<and>
       (CHR 0x80 \<le> e \<and> e \<le> CHR 0x8A \<or> e = CHR 0xA8 \<or> e = CHR 0xA9 \<or> e = CHR 0xAF) \<or>
     c = CHR 0xE2 \<and> d = CHR 0x81 \<and> e = CHR 0x9F \<or>
     c = CHR 0xE3 \<and> d = CHR 0x80 \<and> e = CHR 0x80"

text \<open>\<open>s.trim().is_empty()\<close>: the string is made of whitespace characters only.\<close>

fun is_blank :: "string \<Rightarrow> bool" where
  "is_blank [] = True"
| "is_blank [c] = ws1 c"
| "is_blank [c, d] = (ws1 c \<and> ws1 d \<or> ws2 c d)"
| "is_blank (c # d # e # s) =
     (if ws1 c then is_blank (d # e # s)
      else if ws2 c d then is_blank (e # s)
      else ws3 c d e \<and> is_blank s)"

definition starts_with_ws :: "string \<Rightarrow> bool" where
  "starts_with_ws s =
     (case s of [] \<Rightarrow> False | c # t \<Rightarrow> ws1 c \<or>
       (case t of [] \<Rightarrow> False | d # u \<Rightarrow> ws2 c d \<or>
         (case u of [] \<Rightarrow> False | e # _ \<Rightarrow> ws3 c d e)))"

definition ends_with_ws :: "string \<Rightarrow> bool" where
  "ends_with_ws s =
     (case rev s of [] \<Rightarrow> False | c # t \<Rightarrow> ws1 c \<or>
       (case t of [] \<Rightarrow> False | d # u \<Rightarrow> ws2 d c \<or>
         (case u of [] \<Rightarrow> False | e # _ \<Rightarrow> ws3 e d c)))"

text \<open>\<open>s.trim() == s\<close>.\<close>

definition is_trimmed :: "string \<Rightarrow> bool" where
  "is_trimmed s \<longleftrightarrow> \<not> starts_with_ws s \<and> \<not> ends_with_ws s"

text \<open>The formatting of an unsigned integer in decimal.\<close>

fun decimal :: "nat \<Rightarrow> string" where
  "decimal n =
     (if n < 10 then [char_of (48 + n)] else decimal (n div 10) @ [char_of (48 + n mod 10)])"

declare decimal.simps [simp del]

text \<open>
  \<open>Sha256Digest::parse\<close>, \<open>is_sha256_digest\<close> and the private \<open>validate_sha256\<close> functions of the
  control plane all accept \<open>sha256:\<close> followed by 64 lowercase hexadecimal digits.
\<close>

definition is_sha256_digest :: "string \<Rightarrow> bool" where
  "is_sha256_digest v =
     (case strip_prefix ''sha256:'' v of
        None \<Rightarrow> False
      | Some hex \<Rightarrow> length hex = 64 \<and> list_all lower_hex hex)"

lemma is_sha256_digestI:
  "length hex = 64 \<Longrightarrow> list_all lower_hex hex \<Longrightarrow> is_sha256_digest (''sha256:'' @ hex)"
  by (simp add: is_sha256_digest_def strip_prefix_def)

lemma is_sha256_digest_nonempty: "is_sha256_digest v \<Longrightarrow> v \<noteq> []"
  by (auto simp: is_sha256_digest_def strip_prefix_def)

end
