(* ===== verification/Ordered_Map.thy ===== *)
theory Ordered_Map
  imports Prelude "HOL-Library.Multiset"
begin

text \<open>
  The \<open>BTreeMap\<close> interface the repositories use: lookup, insertion and iteration over the values in
  key order. The locale states what a client may rely on; the lemmas about totals over the values
  are proved once there. The interpretation at the end is the map as the list of its entries in
  key order, which is what the repository models store.
\<close>

section \<open>The interface\<close>

locale ordered_map =
  fixes get :: "'m \<Rightarrow> 'k \<Rightarrow> 'v option"
    and put :: "'k \<Rightarrow> 'v \<Rightarrow> 'm \<Rightarrow> 'm"
    and vals :: "'m \<Rightarrow> 'v list"
    and invar :: "'m \<Rightarrow> bool"
  assumes get_put: "invar m \<Longrightarrow> get (put k v m) = (get m)(k \<mapsto> v)"
    and invar_put: "invar m \<Longrightarrow> invar (put k v m)"
    and vals_get: "invar m \<Longrightarrow> v \<in> set (vals m) \<longleftrightarrow> (\<exists>k. get m k = Some v)"
    and vals_put_new: "invar m \<Longrightarrow> get m k = None \<Longrightarrow>
      mset (vals (put k v m)) = add_mset v (mset (vals m))"
    and vals_put_old: "invar m \<Longrightarrow> get m k = Some w \<Longrightarrow>
      add_mset w (mset (vals (put k v m))) = add_mset v (mset (vals m))"
begin

lemma set_vals_put_new:
  assumes "invar m" and "get m k = None"
  shows "set (vals (put k v m)) = insert v (set (vals m))"
proof -
  have "set_mset (mset (vals (put k v m))) = set_mset (add_mset v (mset (vals m)))"
    using vals_put_new [OF assms] by simp
  then show ?thesis
    by simp
qed

lemma vals_putD:
  assumes "invar m" and "x \<in> set (vals (put k v m))"
  shows "x = v \<or> (\<exists>k'. k' \<noteq> k \<and> get m k' = Some x)"
proof -
  obtain k' where k': "get (put k v m) k' = Some x"
    using assms vals_get [OF invar_put [OF assms(1)]] by blast
  then show ?thesis
    using get_put [OF assms(1)] by (cases "k' = k") auto
qed

lemma total_put_new:
  fixes f :: "'v \<Rightarrow> nat"
  assumes "invar m" and "get m k = None"
  shows "sum_list (map f (vals (put k v m))) = f v + sum_list (map f (vals m))"
proof -
  have "sum_mset (image_mset f (mset (vals (put k v m)))) =
      sum_mset (image_mset f (add_mset v (mset (vals m))))"
    using vals_put_new [OF assms] by simp
  then show ?thesis
    by (simp flip: sum_mset_sum_list)
qed

lemma total_put_old:
  fixes f :: "'v \<Rightarrow> nat"
  assumes "invar m" and "get m k = Some w"
  shows "f w + sum_list (map f (vals (put k v m))) = f v + sum_list (map f (vals m))"
proof -
  have "sum_mset (image_mset f (add_mset w (mset (vals (put k v m))))) =
      sum_mset (image_mset f (add_mset v (mset (vals m))))"
    using vals_put_old [OF assms] by simp
  then show ?thesis
    by (simp flip: sum_mset_sum_list)
qed

lemma total_put_old_le:
  fixes f :: "'v \<Rightarrow> nat"
  assumes "invar m" and "get m k = Some w" and "f v \<le> f w"
  shows "sum_list (map f (vals (put k v m))) \<le> sum_list (map f (vals m))"
  using total_put_old [OF assms(1,2), of f v] assms(3) by linarith

end

section \<open>Entries in key order\<close>

type_synonym ('k, 'v) btree_map = "('k \<times> 'v) list"

definition btree_get :: "('k, 'v) btree_map \<Rightarrow> 'k \<Rightarrow> 'v option" where
  "btree_get m k = map_of m k"

fun btree_insert :: "'k::linorder \<Rightarrow> 'v \<Rightarrow> ('k, 'v) btree_map \<Rightarrow> ('k, 'v) btree_map" where
  "btree_insert k v [] = [(k, v)]"
| "btree_insert k v ((k', v') # m) =
     (if k < k' then (k, v) # (k', v') # m
      else if k = k' then (k, v) # m
      else (k', v') # btree_insert k v m)"

definition btree_values :: "('k, 'v) btree_map \<Rightarrow> 'v list" where
  "btree_values m = map snd m"

definition btree_wf :: "('k::linorder, 'v) btree_map \<Rightarrow> bool" where
  "btree_wf m \<longleftrightarrow> sorted_wrt (<) (map fst m)"

lemma btree_wf_Nil [simp]: "btree_wf []"
  by (simp add: btree_wf_def)

lemma btree_get_Nil [simp]: "btree_get [] k = None"
  by (simp add: btree_get_def)

lemma btree_values_Nil [simp]: "btree_values [] = []"
  by (simp add: btree_values_def)

lemma btree_wf_Cons:
  "btree_wf ((k, v) # m) \<longleftrightarrow> (\<forall>k'\<in>set (map fst m). k < k') \<and> btree_wf m"
  by (simp add: btree_wf_def)

lemma map_of_btree_insert: "btree_wf m \<Longrightarrow> map_of (btree_insert k v m) = (map_of m)(k \<mapsto> v)"
  by (induction k v m rule: btree_insert.induct) (auto simp: btree_wf_Cons fun_eq_iff)

lemma keys_btree_insert: "fst ` set (btree_insert k v m) = insert k (fst ` set m)"
  by (induction k v m rule: btree_insert.induct) auto

lemma btree_wf_insert: "btree_wf m \<Longrightarrow> btree_wf (btree_insert k v m)"
proof (induction k v m rule: btree_insert.induct)
  case (2 k v k' v' m)
  have "\<forall>x\<in>fst ` set (btree_insert k v m). k' < x" if "\<not> k < k'" "k \<noteq> k'"
    using 2 that by (auto simp: keys_btree_insert btree_wf_Cons)
  with 2 show ?case
    by (auto simp: btree_wf_Cons dest: less_trans)
qed (simp add: btree_wf_Cons)

lemma btree_wf_distinct: "btree_wf m \<Longrightarrow> distinct (map fst m)"
  by (simp add: btree_wf_def strict_sorted_iff)

lemma btree_get_insert: "btree_get (btree_insert k v m) j = (if j = k then Some v else btree_get m j)"
  by (induction k v m rule: btree_insert.induct) (auto simp: btree_get_def)

lemma btree_insert_same:
  assumes "btree_wf m" and "btree_get m k = Some v"
  shows "btree_insert k v m = m"
  using assms
proof (induction k v m rule: btree_insert.induct)
  case (2 k v k' v' m)
  have "map_of m k = None" if "k < k'"
    using 2(2) that by (force simp: btree_wf_Cons map_of_eq_None_iff dest: less_trans)
  with 2 show ?case
    by (auto simp: btree_wf_Cons btree_get_def split: if_splits)
qed simp

lemma btree_replace_map:
  assumes "btree_wf m" and "btree_get m k = Some v" and "f (k, v') = f (k, v)"
  shows "map f (btree_insert k v' m) = map f m"
  using assms
proof (induction k v' m rule: btree_insert.induct)
  case (2 k v' k' w m)
  have "map_of m k = None" if "k < k'"
    using 2(2) that by (force simp: btree_wf_Cons map_of_eq_None_iff dest: less_trans)
  with 2 show ?case
    by (auto simp: btree_wf_Cons btree_get_def split: if_splits)
qed simp

lemma btree_values_insert_new:
  "map_of m k = None \<Longrightarrow> mset (btree_values (btree_insert k v m)) = add_mset v (mset (btree_values m))"
  by (induction k v m rule: btree_insert.induct) (auto simp: btree_values_def split: if_splits)

lemma btree_values_insert_old:
  "btree_wf m \<Longrightarrow> map_of m k = Some w \<Longrightarrow>
   add_mset w (mset (btree_values (btree_insert k v m))) = add_mset v (mset (btree_values m))"
proof (induction k v m rule: btree_insert.induct)
  case (2 k v k' v' m)
  have gap: "map_of m k = None" if "k < k'"
    using 2(2) that by (force simp: btree_wf_Cons map_of_eq_None_iff dest: less_trans)
  from 2 gap show ?case
    by (auto simp: btree_wf_Cons btree_values_def add_mset_commute split: if_splits)
qed simp

interpretation btree: ordered_map btree_get btree_insert btree_values btree_wf
proof unfold_locales
  fix m :: "('a \<times> 'b) list" and k :: 'a and v w :: 'b
  assume wf: "btree_wf m"
  show "btree_get (btree_insert k v m) = (btree_get m)(k \<mapsto> v)"
    using map_of_btree_insert [OF wf, of k v] by (simp add: btree_get_def fun_eq_iff)
  show "btree_wf (btree_insert k v m)"
    by (rule btree_wf_insert [OF wf])
  show "v \<in> set (btree_values m) \<longleftrightarrow> (\<exists>k. btree_get m k = Some v)"
    using btree_wf_distinct [OF wf]
    by (force simp: btree_get_def btree_values_def)
  show "mset (btree_values (btree_insert k v m)) = add_mset v (mset (btree_values m))"
    if "btree_get m k = None"
    using that by (simp add: btree_get_def btree_values_insert_new)
  show "add_mset w (mset (btree_values (btree_insert k v m))) = add_mset v (mset (btree_values m))"
    if "btree_get m k = Some w"
    using that wf by (simp add: btree_get_def btree_values_insert_old)
qed

end
