(* ===== verification/Externals.thy ===== *)
theory Externals
  imports Prelude
begin

text \<open>
  The third-party crates the modelled code calls, as parameters. \<open>serde_json::to_vec\<close> encodes a
  document, \<open>sha2::Sha256\<close> formatted with \<open>{:x}\<close> gives hexadecimal digits, \<open>Uuid::new_v5\<close> derives
  an identifier from a namespace and a name, and \<open>Uuid\<close>'s \<open>Display\<close> prints one. A document is the
  tree that \<open>serde\<close>'s derived \<open>Serialize\<close> hands to the encoder, with the field names of the source
  struct after its \<open>rename_all\<close> attribute.
\<close>

datatype json =
    JNull
  | JNum nat
  | JStr string
  | JUuid uuid
  | JTime timestamp
  | JArr "json list"
  | JObj "(string \<times> json) list"

record externals =
  ext_to_vec :: "json \<Rightarrow> string option"
  ext_sha256_hex :: "string \<Rightarrow> string"
  ext_uuid_v5 :: "uuid \<Rightarrow> string \<Rightarrow> uuid"
  ext_uuid_display :: "uuid \<Rightarrow> string"

text \<open>\<open>format!("sha256:{:x}", Sha256::digest(serde_json::to_vec(document)?))\<close>.\<close>

definition sha256_of_json :: "externals \<Rightarrow> json \<Rightarrow> string option" where
  "sha256_of_json X d = map_option (\<lambda>b. ''sha256:'' @ ext_sha256_hex X b) (ext_to_vec X d)"

text \<open>
  What the code relies on. Encoding a derived document whose maps have string keys succeeds, a
  SHA-256 digest prints as 64 lowercase hexadecimal digits, a version 5 UUID is never nil (its
  version bits are set) and a UUID prints as 36 hexadecimal digits and hyphens.
\<close>

definition hash_laws :: "externals \<Rightarrow> bool" where
  "hash_laws X \<longleftrightarrow>
     (\<forall>d. ext_to_vec X d \<noteq> None) \<and>
     (\<forall>b. length (ext_sha256_hex X b) = 64 \<and> list_all lower_hex (ext_sha256_hex X b))"

definition uuid_laws :: "externals \<Rightarrow> bool" where
  "uuid_laws X \<longleftrightarrow>
     (\<forall>n s. ext_uuid_v5 X n s \<noteq> 0) \<and>
     (\<forall>u. length (ext_uuid_display X u) = 36 \<and>
          list_all (\<lambda>c. lower_hex c \<or> c = CHR ''-'') (ext_uuid_display X u))"

lemma sha256_of_json_Some:
  assumes "hash_laws X"
  obtains h where "sha256_of_json X d = Some h" and "is_sha256_digest h"
proof -
  from assms obtain b where "ext_to_vec X d = Some b"
    by (auto simp: hash_laws_def)
  with assms show ?thesis
    by (intro that [of "''sha256:'' @ ext_sha256_hex X b"])
      (simp_all add: sha256_of_json_def hash_laws_def is_sha256_digest_def strip_prefix_def)
qed

lemma sha256_of_json_digest:
  "hash_laws X \<Longrightarrow> sha256_of_json X d = Some h \<Longrightarrow> is_sha256_digest h"
  by (metis option.inject sha256_of_json_Some)

lemma sha256_of_json_not_None [simp]: "hash_laws X \<Longrightarrow> sha256_of_json X d \<noteq> None"
  by (metis option.distinct(1) sha256_of_json_Some)

text \<open>An instance of the parameters, used by the witnesses.\<close>

definition sample_externals :: externals where
  "sample_externals = \<lparr>
     ext_to_vec = (\<lambda>d. Some ''doc''),
     ext_sha256_hex = (\<lambda>b. replicate 64 (CHR ''a'')),
     ext_uuid_v5 = (\<lambda>n s. 2 * (n + of_nat (sum_list (map of_char s))) + 1),
     ext_uuid_display = (\<lambda>u. replicate 36 (CHR ''0'')) \<rparr>"

lemma sample_hash_laws [simp]: "hash_laws sample_externals"
  by (simp add: hash_laws_def sample_externals_def list_all_iff lower_hex_def)

lemma sample_uuid_laws [simp]: "uuid_laws sample_externals"
proof -
  have "2 * x + 2 * y + 1 \<noteq> (0 :: uuid)" for x y
  proof
    assume "2 * x + 2 * y + 1 = 0"
    moreover have "odd (2 * x + 2 * y + 1)" by simp
    ultimately show False by (metis dvd_0_right)
  qed
  then show ?thesis
    by (simp add: uuid_laws_def sample_externals_def list_all_iff lower_hex_def ascii_digit_def)
qed

end
