(* ===== verification/Resource.thy ===== *)
theory Resource
  imports Externals "HOL-Library.Multiset"
begin

text \<open>
  The hard resource vocabulary shared by the control plane and the node agent:
  \<open>crates/contracts/src/resource.rs\<close> (kinds, allocations, slot requests, bindings and evidence) and
  \<open>crates/contracts/src/node/inventory.rs\<close> (what a node reports it has). The lemmas show that the
  validation loops accept exactly the bounded, strictly sorted slot lists, and that containment of
  allocations is a partial order that respects kinds.
\<close>

section \<open>Kinds, units and allocations\<close>

datatype resource_kind = Cpu | Memory | EphemeralStorage | HostPort | Accelerator | Volume

datatype resource_unit = MilliCpu | Byte | Port | Count

datatype resource_allocation =
    Scalar u64 resource_unit
  | Range u64 u64 resource_unit

datatype resource_error =
    UnsupportedKind string
  | AllocationKindMismatch
  | SlotFencingInvalid
  | SlotEvidenceInvalid
  | SlotSetUnbounded
  | SlotsNotCanonical
  | StableIdInvalid
  | UnsupportedSchema string
  | NilUuid string
  | DigestScheme string
  | DigestDigits string
  | InventoryGenerationOrTime
  | InventoryDigestMismatch
  | EncodingFailed

text \<open>\<open>#[derive(PartialOrd, Ord)]\<close> on the enum: the order of the declaration.\<close>

fun resource_kind_rank :: "resource_kind \<Rightarrow> nat" where
  "resource_kind_rank Cpu = 0"
| "resource_kind_rank Memory = 1"
| "resource_kind_rank EphemeralStorage = 2"
| "resource_kind_rank HostPort = 3"
| "resource_kind_rank Accelerator = 4"
| "resource_kind_rank Volume = 5"

lemma resource_kind_rank_inj: "resource_kind_rank a = resource_kind_rank b \<longleftrightarrow> a = b"
  by (cases a; cases b) simp_all

instantiation resource_kind :: linorder
begin

definition less_eq_resource_kind :: "resource_kind \<Rightarrow> resource_kind \<Rightarrow> bool" where
  "less_eq_resource_kind a b \<longleftrightarrow> resource_kind_rank a \<le> resource_kind_rank b"

definition less_resource_kind :: "resource_kind \<Rightarrow> resource_kind \<Rightarrow> bool" where
  "less_resource_kind a b \<longleftrightarrow> resource_kind_rank a < resource_kind_rank b"

instance
  by standard (auto simp: less_eq_resource_kind_def less_resource_kind_def resource_kind_rank_inj)

end

fun resource_kind_as_str :: "resource_kind \<Rightarrow> string" where
  "resource_kind_as_str Cpu = ''cpu''"
| "resource_kind_as_str Memory = ''memory''"
| "resource_kind_as_str EphemeralStorage = ''ephemeral_storage''"
| "resource_kind_as_str HostPort = ''host_port''"
| "resource_kind_as_str Accelerator = ''accelerator''"
| "resource_kind_as_str Volume = ''volume''"

definition resource_kind_parse :: "string \<Rightarrow> (resource_error, resource_kind) result" where
  "resource_kind_parse v =
     (if v = ''cpu'' then Inr Cpu
      else if v = ''memory'' then Inr Memory
      else if v = ''ephemeral_storage'' then Inr EphemeralStorage
      else if v = ''host_port'' then Inr HostPort
      else if v = ''accelerator'' then Inr Accelerator
      else if v = ''volume'' then Inr Volume
      else Inl (UnsupportedKind v))"

definition is_shared_capacity :: "resource_kind \<Rightarrow> bool" where
  "is_shared_capacity k \<longleftrightarrow> k \<in> {Cpu, Memory, EphemeralStorage}"

fun resource_unit_as_str :: "resource_unit \<Rightarrow> string" where
  "resource_unit_as_str MilliCpu = ''milli_cpu''"
| "resource_unit_as_str Byte = ''byte''"
| "resource_unit_as_str Port = ''port''"
| "resource_unit_as_str Count = ''count''"

definition allocation_validate_for ::
    "resource_allocation \<Rightarrow> resource_kind \<Rightarrow> (resource_error, unit) result" where
  "allocation_validate_for a k =
     ensure
       (case a of
          Scalar amount u \<Rightarrow>
            (k = Cpu \<and> u = MilliCpu \<or>
             (k = Memory \<or> k = EphemeralStorage) \<and> u = Byte \<or>
             (k = Accelerator \<or> k = Volume) \<and> u = Count) \<and> amount > 0
        | Range start end_inclusive u \<Rightarrow>
            k = HostPort \<and> u = Port \<and>
            start > 0 \<and> start \<le> end_inclusive \<and> end_inclusive \<le> 65535)
       AllocationKindMismatch"

fun allocation_contains :: "resource_allocation \<Rightarrow> resource_allocation \<Rightarrow> bool" where
  "allocation_contains (Scalar capacity cu) (Scalar requested ru) \<longleftrightarrow>
     cu = ru \<and> capacity \<ge> requested"
| "allocation_contains (Range cs ce cu) (Range rs re ru) \<longleftrightarrow>
     cu = ru \<and> cs \<le> rs \<and> ce \<ge> re"
| "allocation_contains _ _ \<longleftrightarrow> False"

fun scalar_amount :: "resource_allocation \<Rightarrow> u64 option" where
  "scalar_amount (Scalar amount u) = Some amount"
| "scalar_amount (Range s e u) = None"

section \<open>Slot requests, bindings and evidence\<close>

record slot_request =
  sr_kind :: resource_kind
  sr_stable_resource_id :: string
  sr_allocation :: resource_allocation

record slot_binding =
  sb_kind :: resource_kind
  sb_stable_resource_id :: string
  sb_allocation :: resource_allocation
  sb_slot_generation :: u64
  sb_fence_token :: uuid

record slot_evidence =
  se_kind :: resource_kind
  se_stable_resource_id :: string
  se_slot_generation :: u64
  se_fence_token :: uuid

type_synonym slot_id = "resource_kind \<times> string"

definition sr_key :: "slot_request \<Rightarrow> slot_id" where
  "sr_key s = (sr_kind s, sr_stable_resource_id s)"

definition sb_key :: "slot_binding \<Rightarrow> slot_id" where
  "sb_key s = (sb_kind s, sb_stable_resource_id s)"

definition se_key :: "slot_evidence \<Rightarrow> slot_id" where
  "se_key s = (se_kind s, se_stable_resource_id s)"

definition validate_stable_resource_id :: "string \<Rightarrow> (resource_error, unit) result" where
  "validate_stable_resource_id v =
     (if v = [] \<or> length v > 255
         \<or> contains_any v [CHR 0x00, CHR 0x0D, CHR 0x0A, CHR 0x09]
         \<or> \<not> is_trimmed v
      then Inl StableIdInvalid else Inr ())"

definition slot_request_validate :: "slot_request \<Rightarrow> (resource_error, unit) result" where
  "slot_request_validate s =
     and_then (validate_stable_resource_id (sr_stable_resource_id s)) (\<lambda>_.
     allocation_validate_for (sr_allocation s) (sr_kind s))"

definition slot_request_new ::
    "resource_kind \<Rightarrow> string \<Rightarrow> resource_allocation \<Rightarrow> (resource_error, slot_request) result" where
  "slot_request_new k i a =
     (let request = \<lparr>sr_kind = k, sr_stable_resource_id = i, sr_allocation = a\<rparr>
      in and_then (slot_request_validate request) (\<lambda>_. Inr request))"

definition slot_binding_validate :: "slot_binding \<Rightarrow> (resource_error, unit) result" where
  "slot_binding_validate s =
     and_then (validate_stable_resource_id (sb_stable_resource_id s)) (\<lambda>_.
     and_then (allocation_validate_for (sb_allocation s) (sb_kind s)) (\<lambda>_.
     if sb_slot_generation s = 0 \<or> is_nil (sb_fence_token s) then Inl SlotFencingInvalid
     else Inr ()))"

definition slot_binding_evidence :: "slot_binding \<Rightarrow> slot_evidence" where
  "slot_binding_evidence s =
     \<lparr>se_kind = sb_kind s,
      se_stable_resource_id = sb_stable_resource_id s,
      se_slot_generation = sb_slot_generation s,
      se_fence_token = sb_fence_token s\<rparr>"

definition slot_evidence_validate :: "slot_evidence \<Rightarrow> (resource_error, unit) result" where
  "slot_evidence_validate s =
     and_then (validate_stable_resource_id (se_stable_resource_id s)) (\<lambda>_.
     if se_slot_generation s = 0 \<or> is_nil (se_fence_token s) then Inl SlotEvidenceInvalid
     else Inr ())"

text \<open>
  The loop shared by the four slot validators of the contracts crate: every slot validates and its
  key is greater than the previous one.
\<close>

fun validate_sorted_from ::
    "('a \<Rightarrow> (resource_error, unit) result) \<Rightarrow> ('a \<Rightarrow> slot_id) \<Rightarrow> slot_id option \<Rightarrow> 'a list
      \<Rightarrow> (resource_error, unit) result" where
  "validate_sorted_from v key previous [] = Inr ()"
| "validate_sorted_from v key previous (s # ss) =
     and_then (v s) (\<lambda>_.
       if (case previous of None \<Rightarrow> False | Some candidate \<Rightarrow> candidate \<ge> key s)
       then Inl SlotsNotCanonical
       else validate_sorted_from v key (Some (key s)) ss)"

definition validate_slot_set ::
    "('a \<Rightarrow> (resource_error, unit) result) \<Rightarrow> ('a \<Rightarrow> slot_id) \<Rightarrow> 'a list
      \<Rightarrow> (resource_error, unit) result" where
  "validate_slot_set v key ss =
     (if ss = [] \<or> length ss > 256 then Inl SlotSetUnbounded
      else validate_sorted_from v key None ss)"

definition validate_slot_requests :: "slot_request list \<Rightarrow> (resource_error, unit) result" where
  "validate_slot_requests ss = validate_slot_set slot_request_validate sr_key ss"

definition validate_slot_bindings :: "slot_binding list \<Rightarrow> (resource_error, unit) result" where
  "validate_slot_bindings ss = validate_slot_set slot_binding_validate sb_key ss"

definition validate_slot_evidence :: "slot_evidence list \<Rightarrow> (resource_error, unit) result" where
  "validate_slot_evidence ss = validate_slot_set slot_evidence_validate se_key ss"

section \<open>Node inventory\<close>

record node_slot =
  ns_kind :: resource_kind
  ns_stable_resource_id :: string
  ns_allocation :: resource_allocation

definition ns_key :: "node_slot \<Rightarrow> slot_id" where
  "ns_key s = (ns_kind s, ns_stable_resource_id s)"

record inventory =
  inv_schema :: string
  inv_node_id :: uuid
  inv_agent_instance_id :: uuid
  inv_generation :: u64
  inv_observed_at :: timestamp
  inv_slots :: "node_slot list"
  inv_digest :: string

definition node_slot_validate :: "node_slot \<Rightarrow> (resource_error, unit) result" where
  "node_slot_validate s =
     and_then (validate_stable_resource_id (ns_stable_resource_id s)) (\<lambda>_.
     allocation_validate_for (ns_allocation s) (ns_kind s))"

definition node_slot_new ::
    "resource_kind \<Rightarrow> string \<Rightarrow> resource_allocation \<Rightarrow> (resource_error, node_slot) result" where
  "node_slot_new k i a =
     (let slot = \<lparr>ns_kind = k, ns_stable_resource_id = i, ns_allocation = a\<rparr>
      in and_then (node_slot_validate slot) (\<lambda>_. Inr slot))"

definition validate_inventory_slots :: "node_slot list \<Rightarrow> (resource_error, unit) result" where
  "validate_inventory_slots ss = validate_slot_set node_slot_validate ns_key ss"

text \<open>\<open>validate_uuid\<close>, \<open>validate_sha256\<close> of \<open>contracts/src/node/mod.rs\<close>.\<close>

definition validate_uuid :: "string \<Rightarrow> uuid \<Rightarrow> (resource_error, unit) result" where
  "validate_uuid label u = (if is_nil u then Inl (NilUuid label) else Inr ())"

definition contract_validate_sha256 :: "string \<Rightarrow> string \<Rightarrow> (resource_error, unit) result" where
  "contract_validate_sha256 label v =
     (case strip_prefix ''sha256:'' v of
        None \<Rightarrow> Inl (DigestScheme label)
      | Some hex \<Rightarrow>
          if length hex \<noteq> 64 \<or> \<not> list_all ascii_hexdigit hex then Inl (DigestDigits label)
          else Inr ())"

fun allocation_json :: "resource_allocation \<Rightarrow> json" where
  "allocation_json (Scalar amount u) =
     JObj [(''shape'', JStr ''scalar''), (''amount'', JNum (unat amount)),
           (''unit'', JStr (resource_unit_as_str u))]"
| "allocation_json (Range s e u) =
     JObj [(''shape'', JStr ''range''), (''start'', JNum (unat s)),
           (''end_inclusive'', JNum (unat e)), (''unit'', JStr (resource_unit_as_str u))]"

definition node_slot_json :: "node_slot \<Rightarrow> json" where
  "node_slot_json s =
     JObj [(''kind'', JStr (resource_kind_as_str (ns_kind s))),
           (''stable_resource_id'', JStr (ns_stable_resource_id s)),
           (''allocation'', allocation_json (ns_allocation s))]"

definition inventory_schema :: string where
  "inventory_schema = ''a3s.cloud.node-resource-inventory.v1''"

definition inventory_content :: "node_slot list \<Rightarrow> json" where
  "inventory_content ss =
     JObj [(''schema'', JStr ''a3s.cloud.node-resource-inventory-content.v1''),
           (''slots'', JArr (map node_slot_json ss))]"

definition inventory_calculate_digest ::
    "externals \<Rightarrow> node_slot list \<Rightarrow> (resource_error, string) result" where
  "inventory_calculate_digest X ss = ok_or EncodingFailed (sha256_of_json X (inventory_content ss))"

definition inventory_validate :: "externals \<Rightarrow> inventory \<Rightarrow> (resource_error, unit) result" where
  "inventory_validate X i =
     (if inv_schema i \<noteq> inventory_schema then Inl (UnsupportedSchema (inv_schema i))
      else
      and_then (validate_uuid ''node_id'' (inv_node_id i)) (\<lambda>_.
      and_then (validate_uuid ''agent_instance_id'' (inv_agent_instance_id i)) (\<lambda>_.
      if inv_generation i = 0 \<or> timestamp_millis (inv_observed_at i) \<le> 0
      then Inl InventoryGenerationOrTime
      else
      and_then (validate_inventory_slots (inv_slots i)) (\<lambda>_.
      and_then (contract_validate_sha256 ''node inventory digest'' (inv_digest i)) (\<lambda>_.
      and_then (inventory_calculate_digest X (inv_slots i)) (\<lambda>expected.
      if inv_digest i \<noteq> expected then Inl InventoryDigestMismatch else Inr ()))))))"

definition inventory_new ::
    "externals \<Rightarrow> uuid \<Rightarrow> uuid \<Rightarrow> u64 \<Rightarrow> timestamp \<Rightarrow> node_slot list
      \<Rightarrow> (resource_error, inventory) result" where
  "inventory_new X node_id agent_instance_id generation observed_at slots =
     (let slots = sort_key ns_key slots in
      and_then (inventory_calculate_digest X slots) (\<lambda>digest.
      let i = \<lparr>inv_schema = inventory_schema, inv_node_id = node_id,
               inv_agent_instance_id = agent_instance_id, inv_generation = generation,
               inv_observed_at = observed_at, inv_slots = slots, inv_digest = digest\<rparr>
      in and_then (inventory_validate X i) (\<lambda>_. Inr i)))"

text \<open>\<open>slots.iter().find(|slot| slot.kind == .. && slot.stable_resource_id == ..)\<close>.\<close>

definition inventory_find :: "inventory \<Rightarrow> slot_id \<Rightarrow> node_slot option" where
  "inventory_find i k = find (\<lambda>s. ns_key s = k) (inv_slots i)"

section \<open>Lemmas\<close>

lemma slot_kind_key [simp]: "fst (sr_key s) = sr_kind s" "fst (sb_key b) = sb_kind b"
    "fst (se_key e) = se_kind e" "fst (ns_key n) = ns_kind n"
  by (simp_all add: sr_key_def sb_key_def se_key_def ns_key_def)

lemma se_key_evidence [simp]: "se_key (slot_binding_evidence b) = sb_key b"
  by (simp add: se_key_def sb_key_def slot_binding_evidence_def)

lemma validate_sorted_from_ok:
  "validate_sorted_from v key previous ss = Inr u \<longleftrightarrow>
     (\<forall>s\<in>set ss. v s = Inr ()) \<and> sorted_wrt (<) (map key ss) \<and>
     (case previous of None \<Rightarrow> True | Some p \<Rightarrow> \<forall>s\<in>set ss. p < key s)"
proof (induction v key previous ss rule: validate_sorted_from.induct)
  case (2 v key previous s ss)
  show ?case
  proof (cases "v s = Inr () \<and> (case previous of None \<Rightarrow> True | Some p \<Rightarrow> p < key s)")
    case True
    then have "validate_sorted_from v key previous (s # ss) = validate_sorted_from v key (Some (key s)) ss"
      by (cases previous) auto
    moreover have "\<not> (case previous of None \<Rightarrow> False | Some candidate \<Rightarrow> candidate \<ge> key s)"
      using True by (cases previous) auto
    ultimately show ?thesis
      using 2 True by (cases previous) (auto dest: less_trans)
  next
    case False
    then show ?thesis
      by (cases previous; cases "v s") auto
  qed
qed (auto split: option.split)

lemma validate_slot_set_ok:
  "validate_slot_set v key ss = Inr u \<longleftrightarrow>
     ss \<noteq> [] \<and> length ss \<le> 256 \<and> (\<forall>s\<in>set ss. v s = Inr ()) \<and> sorted_wrt (<) (map key ss)"
  by (auto simp: validate_slot_set_def validate_sorted_from_ok)

lemmas slot_validation_ok =
  validate_slot_requests_def validate_slot_bindings_def validate_slot_evidence_def
  validate_inventory_slots_def validate_slot_set_ok

lemma slot_binding_evidence_valid:
  "slot_binding_validate b = Inr () \<Longrightarrow> slot_evidence_validate (slot_binding_evidence b) = Inr ()"
  by (auto simp: slot_binding_validate_def slot_evidence_validate_def slot_binding_evidence_def
      split: if_splits)

text \<open>The evidence of a valid slot set is valid: release and binding receipts can name it.\<close>

lemma slot_evidence_of_bindings_valid:
  assumes "validate_slot_bindings ss = Inr ()"
  shows "validate_slot_evidence (map slot_binding_evidence ss) = Inr ()"
proof -
  have "map se_key (map slot_binding_evidence ss) = map sb_key ss"
    by simp
  with assms show ?thesis
    by (auto simp: slot_validation_ok slot_binding_evidence_valid comp_def)
qed

lemma slot_set_distinct: "validate_slot_set v key ss = Inr u \<Longrightarrow> distinct (map key ss)"
  by (simp add: validate_slot_set_ok strict_sorted_iff)

lemma shared_slot_scalar:
  "allocation_validate_for a k = Inr () \<Longrightarrow> is_shared_capacity k \<Longrightarrow>
   \<exists>n. scalar_amount a = Some n \<and> n > 0"
  by (cases a) (auto simp: allocation_validate_for_def is_shared_capacity_def)

lemma inventory_find_Some:
  "inventory_find i k = Some s \<Longrightarrow> s \<in> set (inv_slots i) \<and> ns_key s = k"
  by (auto simp: inventory_find_def find_Some_iff)

lemma inventory_find_valid:
  assumes "inventory_validate X i = Inr ()" and "s \<in> set (inv_slots i)"
  shows "inventory_find i (ns_key s) = Some s"
proof -
  have d: "distinct (map ns_key (inv_slots i))"
    using assms(1) by (auto simp: inventory_validate_def validate_inventory_slots_def
        dest: slot_set_distinct split: if_splits)
  obtain s' where s': "inventory_find i (ns_key s) = Some s'"
    using assms(2) by (cases "inventory_find i (ns_key s)") (auto simp: inventory_find_def find_None_iff)
  then have "s' \<in> set (inv_slots i)" and "ns_key s' = ns_key s"
    by (auto dest: inventory_find_Some)
  with d assms(2) s' show ?thesis
    by (auto simp: distinct_map dest: inj_onD)
qed

lemma sort_key_Nil_iff [simp]: "sort_key key xs = [] \<longleftrightarrow> xs = []"
  by (metis length_0_conv length_sort)

lemma sorted_sort_key_iff:
  fixes key :: "'a \<Rightarrow> 'b::linorder"
  shows "sorted_wrt (<) (map key (sort_key key xs)) \<longleftrightarrow> distinct (map key xs)"
proof -
  have "mset (map key (sort_key key xs)) = mset (map key xs)"
    by (simp only: mset_map mset_sort)
  then have "distinct (map key (sort_key key xs)) \<longleftrightarrow> distinct (map key xs)"
    by (rule mset_eq_imp_distinct_iff)
  then show ?thesis
    by (simp add: strict_sorted_iff)
qed

lemma contract_accepts_digest:
  assumes "is_sha256_digest h"
  shows "contract_validate_sha256 label h = Inr ()"
proof -
  obtain hex where "strip_prefix ''sha256:'' h = Some hex" and "length hex = 64"
      and lower: "list_all lower_hex hex"
    using assms by (auto simp: is_sha256_digest_def split: option.splits)
  moreover have "list_all ascii_hexdigit hex"
    using lower by (rule list.pred_mono_strong) (simp add: ascii_hexdigit_def)
  ultimately show ?thesis
    by (simp add: contract_validate_sha256_def)
qed

lemma inventory_validate_parts:
  assumes "inventory_validate X i = Inr ()"
  shows "inv_node_id i \<noteq> 0" and "inv_generation i \<noteq> 0"
    and "validate_inventory_slots (inv_slots i) = Inr ()"
    and "inventory_calculate_digest X (inv_slots i) = Inr (inv_digest i)"
  using assms by (auto simp: inventory_validate_def validate_uuid_def split: if_splits)

lemma inventory_digest_format:
  assumes "hash_laws X" and "inventory_validate X i = Inr ()"
  shows "is_sha256_digest (inv_digest i)"
  using inventory_validate_parts(4) [OF assms(2)] sha256_of_json_digest [OF assms(1)]
  by (simp add: inventory_calculate_digest_def)

section \<open>Properties\<close>

text \<open>
  The four slot validators of the contracts crate accept exactly the bounded, non-empty lists
  whose slots validate one by one and whose (kind, stable resource id) keys strictly increase, so
  an accepted list never names a slot twice.
\<close>

lemma slot_validators_accept_canonical_sets:
  "(validate_slot_requests rs = Inr () \<longleftrightarrow>
      rs \<noteq> [] \<and> length rs \<le> 256 \<and> list_all (\<lambda>s. slot_request_validate s = Inr ()) rs \<and>
      sorted_wrt (<) (map sr_key rs)) \<and>
   (validate_slot_bindings bs = Inr () \<longleftrightarrow>
      bs \<noteq> [] \<and> length bs \<le> 256 \<and> list_all (\<lambda>s. slot_binding_validate s = Inr ()) bs \<and>
      sorted_wrt (<) (map sb_key bs)) \<and>
   (validate_slot_evidence es = Inr () \<longleftrightarrow>
      es \<noteq> [] \<and> length es \<le> 256 \<and> list_all (\<lambda>s. slot_evidence_validate s = Inr ()) es \<and>
      sorted_wrt (<) (map se_key es)) \<and>
   (validate_inventory_slots ns = Inr () \<longleftrightarrow>
      ns \<noteq> [] \<and> length ns \<le> 256 \<and> list_all (\<lambda>s. node_slot_validate s = Inr ()) ns \<and>
      sorted_wrt (<) (map ns_key ns))"
  by (simp only: slot_validation_ok list_all_iff HOL.simp_thms)

text \<open>
  C17. Building an inventory succeeds exactly when its identities, generation and time are set, it
  has between 1 and 256 valid slots, and no two slots share a key; the inventory it returns then
  validates, holds the given slots in canonical order, and finds every one of them by its key.
\<close>

theorem inventory_new_correct:
  assumes "hash_laws X"
  shows "(is_ok (inventory_new X node agent g at slots) \<longleftrightarrow>
       node \<noteq> 0 \<and> agent \<noteq> 0 \<and> g \<noteq> 0 \<and> timestamp_millis at > 0 \<and> slots \<noteq> [] \<and> length slots \<le> 256 \<and>
       (\<forall>s\<in>set slots. node_slot_validate s = Inr ()) \<and> distinct (map ns_key slots)) \<and>
     (\<forall>i. inventory_new X node agent g at slots = Inr i \<longrightarrow>
       inventory_validate X i = Inr () \<and> inv_slots i = sort_key ns_key slots \<and>
       (\<forall>s\<in>set slots. inventory_find i (ns_key s) = Some s))"
proof -
  obtain h where h: "sha256_of_json X (inventory_content (sort_key ns_key slots)) = Some h"
      and digest: "is_sha256_digest h"
    using sha256_of_json_Some [OF assms] by blast
  let ?i = "\<lparr>inv_schema = inventory_schema, inv_node_id = node, inv_agent_instance_id = agent,
      inv_generation = g, inv_observed_at = at, inv_slots = sort_key ns_key slots, inv_digest = h\<rparr>"
  have new: "inventory_new X node agent g at slots = and_then (inventory_validate X ?i) (\<lambda>_. Inr ?i)"
    using h by (simp add: inventory_new_def inventory_calculate_digest_def ok_or_def Let_def)
  have "inventory_validate X ?i = Inr () \<longleftrightarrow>
      node \<noteq> 0 \<and> agent \<noteq> 0 \<and> g \<noteq> 0 \<and> timestamp_millis at > 0 \<and> slots \<noteq> [] \<and> length slots \<le> 256 \<and>
      (\<forall>s\<in>set slots. node_slot_validate s = Inr ()) \<and> distinct (map ns_key slots)"
    using h contract_accepts_digest [OF digest]
    by (auto simp: inventory_validate_def validate_uuid_def inventory_calculate_digest_def
        slot_validation_ok sorted_sort_key_iff ok_or_def)
  moreover have "inventory_find ?i (ns_key s) = Some s"
    if "inventory_validate X ?i = Inr ()" and "s \<in> set slots" for s
    using inventory_find_valid [OF that(1), of s] that(2) by simp
  ultimately show ?thesis
    by (simp add: new is_ok_unit_iff) (auto simp: is_ok_iff)
qed

definition sample_slots :: "node_slot list" where
  "sample_slots =
     [\<lparr>ns_kind = Memory, ns_stable_resource_id = ''memory/system'', ns_allocation = Scalar 1024 Byte\<rparr>,
      \<lparr>ns_kind = Cpu, ns_stable_resource_id = ''cpu/shared'', ns_allocation = Scalar 2000 MilliCpu\<rparr>,
      \<lparr>ns_kind = Accelerator, ns_stable_resource_id = ''gpu/0'', ns_allocation = Scalar 1 Count\<rparr>]"

lemma sample_slots_valid: "\<forall>s\<in>set sample_slots. node_slot_validate s = Inr ()"
  by (simp add: sample_slots_def node_slot_validate_def validate_stable_resource_id_def
      allocation_validate_for_def contains_any_def is_trimmed_def starts_with_ws_def
      ends_with_ws_def ws1_def ws2_def ws3_def)

theorem inventory_new_correct_witness:
  "is_ok (inventory_new sample_externals 1 2 1 5000000 sample_slots)"
proof -
  have "distinct (map ns_key sample_slots)" and "sample_slots \<noteq> []" and "length sample_slots \<le> 256"
    by (simp_all add: sample_slots_def ns_key_def)
  moreover have "timestamp_millis 5000000 > 0"
    by (simp add: timestamp_millis_def)
  ultimately show ?thesis
    using sample_slots_valid
      inventory_new_correct [OF sample_hash_laws, of 1 2 1 5000000 sample_slots] by simp
qed

end
