(* ===== verification/Aggregate.thy ===== *)
theory Aggregate
  imports Prelude
begin

text \<open>
  The contract every persisted aggregate of the control plane keeps: a step (one successful call of
  one of its methods) never changes the identity of the aggregate and never moves its
  \<open>updated_at\<close> back. Most aggregates also count their changes in \<open>aggregate_version\<close>, and those the
  repositories protect by optimistic concurrency count every change that is visible. The three
  locales are that contract in three strengths; what it gives for runs of any length is proved
  here once, and each component interprets the strongest one its methods satisfy.
\<close>

locale aggregate =
  fixes step :: "'s \<Rightarrow> 's \<Rightarrow> bool"
    and identity :: "'s \<Rightarrow> 'i"
    and stamp :: "'s \<Rightarrow> timestamp"
    and invar :: "'s \<Rightarrow> bool"
  assumes step_identity: "step s t \<Longrightarrow> identity t = identity s"
    and step_stamp: "step s t \<Longrightarrow> stamp s \<le> stamp t"
    and step_invar: "invar s \<Longrightarrow> step s t \<Longrightarrow> invar t"
begin

lemma run_identity: "step\<^sup>*\<^sup>* s t \<Longrightarrow> identity t = identity s"
  by (induction rule: rtranclp_induct) (auto dest: step_identity)

lemma run_stamp: "step\<^sup>*\<^sup>* s t \<Longrightarrow> stamp s \<le> stamp t"
  by (induction rule: rtranclp_induct) (auto dest: step_stamp)

lemma run_invar: "step\<^sup>*\<^sup>* s t \<Longrightarrow> invar s \<Longrightarrow> invar t"
  by (induction rule: rtranclp_induct) (auto intro: step_invar)

text \<open>A predicate that single steps keep where the invariant holds is kept by every run.\<close>

lemma run_induct_invar:
  assumes "step\<^sup>*\<^sup>* s t" and "invar s" and "P s"
    and "\<And>u v. invar u \<Longrightarrow> P u \<Longrightarrow> step u v \<Longrightarrow> P v"
  shows "P t"
proof -
  have "invar t \<and> P t"
    using assms(1)
  proof (induction rule: rtranclp_induct)
    case base
    show ?case using assms(2,3) by simp
  next
    case (step u v)
    then show ?case using assms(4) step_invar by blast
  qed
  then show ?thesis ..
qed

end

locale versioned_aggregate = aggregate +
  fixes version :: "'s \<Rightarrow> u64"
  assumes step_version: "step s t \<Longrightarrow> version s \<le> version t"
begin

lemma run_version: "step\<^sup>*\<^sup>* s t \<Longrightarrow> version s \<le> version t"
  by (induction rule: rtranclp_induct) (auto dest: step_version)

end

locale optimistic_aggregate = versioned_aggregate +
  assumes step_counts: "step s t \<Longrightarrow> t \<noteq> s \<Longrightarrow> version s < version t"
begin

text \<open>
  Two states of the same run with the same version are the same state: this is what makes a
  comparison of versions a sound check for concurrent change.
\<close>

lemma run_same_version: "step\<^sup>*\<^sup>* s t \<Longrightarrow> version t = version s \<Longrightarrow> t = s"
proof (induction rule: rtranclp_induct)
  case (step u v)
  have "version s \<le> version u"
    by (rule run_version [OF step.hyps(1)])
  moreover have "version u \<le> version v"
    by (rule step_version [OF step.hyps(2)])
  ultimately have "version u = version s" and "version v = version u"
    using step.prems by auto
  with step show ?case
    using step_counts [OF step.hyps(2)] by auto
qed simp

end

end
