(* ===== verification/Workload.thy ===== *)
theory Workload
  imports Aggregate
begin

text \<open>
  The Workload aggregate, \<open>workloads/domain/entities/workload.rs\<close>: a named desired state with the
  revision that is active, and the three methods that change it. \<open>aggregate_version += 1\<close> is the
  wrapping addition of a release build.
\<close>

datatype workload_desired_state = Running | Stopped

datatype workload_error =
    UnsupportedDesiredState string
  | StoppedCannotActivate
  | ActivationTimeRegressed
  | StopRequestTimeRegressed
  | RunningCannotCompleteStop
  | StopCompletionTimeRegressed

record workload =
  wl_id :: uuid
  wl_organization_id :: uuid
  wl_project_id :: uuid
  wl_environment_id :: uuid
  wl_name :: string
  wl_desired_state :: workload_desired_state
  wl_active_revision_id :: "uuid option"
  wl_aggregate_version :: u64
  wl_created_at :: timestamp
  wl_updated_at :: timestamp

fun desired_state_as_str :: "workload_desired_state \<Rightarrow> string" where
  "desired_state_as_str Running = ''running''"
| "desired_state_as_str Stopped = ''stopped''"

definition desired_state_parse :: "string \<Rightarrow> (workload_error, workload_desired_state) result" where
  "desired_state_parse v =
     (if v = ''running'' then Inr Running
      else if v = ''stopped'' then Inr Stopped
      else Inl (UnsupportedDesiredState v))"

definition workload_create ::
    "uuid \<Rightarrow> uuid \<Rightarrow> uuid \<Rightarrow> uuid \<Rightarrow> string \<Rightarrow> timestamp \<Rightarrow> workload" where
  "workload_create i organization project environment name created_at =
     (let created_at = canonical_timestamp created_at in
      \<lparr>wl_id = i, wl_organization_id = organization, wl_project_id = project,
       wl_environment_id = environment, wl_name = name, wl_desired_state = Running,
       wl_active_revision_id = None, wl_aggregate_version = 1,
       wl_created_at = created_at, wl_updated_at = created_at\<rparr>)"

definition workload_activate ::
    "workload \<Rightarrow> uuid \<Rightarrow> timestamp \<Rightarrow> (workload, workload_error, unit) mutation" where
  "workload_activate self revision_id activated_at =
     (let activated_at = canonical_timestamp activated_at in
      if wl_desired_state self \<noteq> Running then (self, Inl StoppedCannotActivate)
      else if activated_at < wl_updated_at self then (self, Inl ActivationTimeRegressed)
      else
        let self =
          (if wl_active_revision_id self \<noteq> Some revision_id
           then self\<lparr>wl_active_revision_id := Some revision_id,
                     wl_aggregate_version := wl_aggregate_version self + 1\<rparr>
           else self)
        in (self\<lparr>wl_updated_at := activated_at\<rparr>, Inr ()))"

definition workload_request_stop ::
    "workload \<Rightarrow> timestamp \<Rightarrow> (workload, workload_error, unit) mutation" where
  "workload_request_stop self requested_at =
     (let requested_at = canonical_timestamp requested_at in
      if requested_at < wl_updated_at self then (self, Inl StopRequestTimeRegressed)
      else if wl_desired_state self = Stopped then (self, Inr ())
      else (self\<lparr>wl_desired_state := Stopped,
                 wl_aggregate_version := wl_aggregate_version self + 1,
                 wl_updated_at := requested_at\<rparr>, Inr ()))"

definition workload_complete_stop ::
    "workload \<Rightarrow> timestamp \<Rightarrow> (workload, workload_error, unit) mutation" where
  "workload_complete_stop self stopped_at =
     (let stopped_at = canonical_timestamp stopped_at in
      if wl_desired_state self \<noteq> Stopped then (self, Inl RunningCannotCompleteStop)
      else if stopped_at < wl_updated_at self then (self, Inl StopCompletionTimeRegressed)
      else if wl_active_revision_id self = None then (self, Inr ())
      else (self\<lparr>wl_active_revision_id := None,
                 wl_aggregate_version := wl_aggregate_version self + 1,
                 wl_updated_at := stopped_at\<rparr>, Inr ()))"

lemmas workload_ops = workload_activate_def workload_request_stop_def workload_complete_stop_def

inductive workload_step :: "workload \<Rightarrow> workload \<Rightarrow> bool" where
  activate: "workload_activate s r at = (t, Inr ()) \<Longrightarrow> workload_step s t"
| request_stop: "workload_request_stop s at = (t, Inr ()) \<Longrightarrow> workload_step s t"
| complete_stop: "workload_complete_stop s at = (t, Inr ()) \<Longrightarrow> workload_step s t"

definition workload_identity :: "workload \<Rightarrow> uuid \<times> uuid \<times> uuid \<times> uuid \<times> string \<times> timestamp" where
  "workload_identity w = (wl_id w, wl_organization_id w, wl_project_id w, wl_environment_id w,
     wl_name w, wl_created_at w)"

text \<open>Times are canonical and never before creation.\<close>

definition workload_inv :: "workload \<Rightarrow> bool" where
  "workload_inv w \<longleftrightarrow>
     wl_created_at w \<le> wl_updated_at w \<and>
     canonical_timestamp (wl_created_at w) = wl_created_at w \<and>
     canonical_timestamp (wl_updated_at w) = wl_updated_at w"

interpretation workload: aggregate workload_step workload_identity wl_updated_at workload_inv
proof unfold_locales
  fix s t
  assume step: "workload_step s t"
  show "workload_identity t = workload_identity s"
    using step by cases (auto simp: workload_ops workload_identity_def Let_def split: if_splits)
  show "wl_updated_at s \<le> wl_updated_at t"
    using step by cases (auto simp: workload_ops Let_def split: if_splits)
  show "workload_inv t" if "workload_inv s"
    using step that by cases (auto simp: workload_ops workload_inv_def Let_def split: if_splits)
qed

text \<open>
  A stop is sticky: no method sets the desired state back to running, and from then on the active
  revision can only be cleared.
\<close>

lemma workload_step_stopped:
  assumes "workload_step s t" and "wl_desired_state s = Stopped"
  shows "wl_desired_state t = Stopped \<and>
    (wl_active_revision_id t = wl_active_revision_id s \<or> wl_active_revision_id t = None)"
  using assms by cases (auto simp: workload_ops Let_def split: if_splits)

lemma workload_run_stopped:
  "workload_step\<^sup>*\<^sup>* s t \<Longrightarrow> wl_desired_state s = Stopped \<Longrightarrow>
   wl_desired_state t = Stopped \<and>
   (wl_active_revision_id t = wl_active_revision_id s \<or> wl_active_revision_id t = None)"
  by (induction rule: rtranclp_induct) (auto dest: workload_step_stopped)

section \<open>Properties\<close>

text \<open>
  C16. Once a stop has been requested no later sequence of method calls makes the workload run again
  or activates a revision: the revision stays the one that was active or is cleared, and
  completing the stop at any time that does not go back clears it.
\<close>

theorem workload_stop_is_final:
  assumes "workload_request_stop w at = (s, Inr ())" and "workload_step\<^sup>*\<^sup>* s t"
  shows "wl_desired_state t = Stopped \<and>
    wl_active_revision_id t \<in> {wl_active_revision_id w, None} \<and>
    (wl_updated_at t \<le> canonical_timestamp later \<longrightarrow>
      (\<exists>u. workload_complete_stop t later = (u, Inr ()) \<and> wl_active_revision_id u = None))"
proof -
  have s: "wl_desired_state s = Stopped" "wl_active_revision_id s = wl_active_revision_id w"
    using assms(1) by (auto simp: workload_request_stop_def Let_def split: if_splits)
  with workload_run_stopped [OF assms(2)] show ?thesis
    by (auto simp: workload_complete_stop_def Let_def)
qed

definition sample_workload :: workload where
  "sample_workload = workload_create 1 2 3 4 ''api'' 5000"

theorem workload_stop_is_final_witness:
  "wl_desired_state (fst (workload_request_stop (fst (workload_activate sample_workload 9 6000)) 7000))
     = Stopped"
proof -
  let ?w = "fst (workload_activate sample_workload 9 6000)"
  let ?s = "fst (workload_request_stop ?w 7000)"
  have "workload_request_stop ?w 7000 = (?s, Inr ())"
    by (simp add: sample_workload_def workload_create_def workload_ops canonical_timestamp_def Let_def)
  from workload_stop_is_final [OF this rtranclp.rtrancl_refl] show ?thesis
    by simp
qed

end
