(* ===== verification/Deployment.thy ===== *)
theory Deployment
  imports Aggregate
begin

text \<open>
  The Deployment aggregate, \<open>workloads/domain/entities/deployment.rs\<close>: the status machine that takes
  one revision of a workload from the queue to a node, with its retirement, failure, cancellation
  and cleanup paths. Every method is a definition; \<open>deployment_step\<close> is one successful call.
\<close>

datatype deployment_status =
    Queued | Resolving | Scheduled | Applying | Verifying | Retiring
  | Cancelling | CleanupPending | Active | Failed | Orphaned | Cancelled

datatype deployment_error =
    UnsupportedStatus string
  | DeploymentTimeRegressed
  | CannotTransition deployment_status deployment_status
  | ScheduledCannotChangeNode
  | DispatchedCannotChangeCommand
  | DispatchBeforeScheduling
  | ActivationChangedRetirement
  | RetirementRequiresActivation
  | RetirementBeforeCleanup
  | TerminalCannotFail
  | FailureInvalid
  | FailureReasonChanged
  | TerminalCannotCancel
  | VerifiedCannotCancel
  | ActivatedCannotCancel
  | CleanupCommandChanged
  | CleanupRequiresCancellation
  | CleanupRequiresRuntimeChild
  | NoPendingCleanup

fun deployment_status_as_str :: "deployment_status \<Rightarrow> string" where
  "deployment_status_as_str Queued = ''queued''"
| "deployment_status_as_str Resolving = ''resolving''"
| "deployment_status_as_str Scheduled = ''scheduled''"
| "deployment_status_as_str Applying = ''applying''"
| "deployment_status_as_str Verifying = ''verifying''"
| "deployment_status_as_str Retiring = ''retiring''"
| "deployment_status_as_str Cancelling = ''cancelling''"
| "deployment_status_as_str CleanupPending = ''cleanup_pending''"
| "deployment_status_as_str Active = ''active''"
| "deployment_status_as_str Failed = ''failed''"
| "deployment_status_as_str Orphaned = ''orphaned''"
| "deployment_status_as_str Cancelled = ''cancelled''"

definition deployment_status_parse :: "string \<Rightarrow> (deployment_error, deployment_status) result" where
  "deployment_status_parse v =
     (if v = ''queued'' then Inr Queued
      else if v = ''resolving'' then Inr Resolving
      else if v = ''scheduled'' then Inr Scheduled
      else if v = ''applying'' then Inr Applying
      else if v = ''verifying'' then Inr Verifying
      else if v = ''retiring'' then Inr Retiring
      else if v = ''cancelling'' then Inr Cancelling
      else if v = ''cleanup_pending'' then Inr CleanupPending
      else if v = ''active'' then Inr Active
      else if v = ''failed'' then Inr Failed
      else if v = ''orphaned'' then Inr Orphaned
      else if v = ''cancelled'' then Inr Cancelled
      else Inl (UnsupportedStatus v))"

definition status_is_terminal :: "deployment_status \<Rightarrow> bool" where
  "status_is_terminal s \<longleftrightarrow> s \<in> {Active, Failed, Orphaned, Cancelled}"

record deployment =
  dep_id :: uuid
  dep_organization_id :: uuid
  dep_workload_id :: uuid
  dep_revision_id :: uuid
  dep_operation_id :: uuid
  dep_node_id :: "uuid option"
  dep_command_id :: "uuid option"
  dep_cleanup_command_id :: "uuid option"
  dep_retirement_command_id :: "uuid option"
  dep_status :: deployment_status
  dep_failure :: "string option"
  dep_aggregate_version :: u64
  dep_requested_at :: timestamp
  dep_updated_at :: timestamp
  dep_activated_at :: "timestamp option"
  dep_cancellation_requested_at :: "timestamp option"
  dep_cancelled_at :: "timestamp option"

type_synonym deployment_mutation = "(deployment, deployment_error, unit) mutation"

definition deployment_create ::
    "uuid \<Rightarrow> uuid \<Rightarrow> uuid \<Rightarrow> uuid \<Rightarrow> uuid \<Rightarrow> timestamp \<Rightarrow> deployment" where
  "deployment_create i organization workload revision operation requested_at =
     (let requested_at = canonical_timestamp requested_at in
      \<lparr>dep_id = i, dep_organization_id = organization, dep_workload_id = workload,
       dep_revision_id = revision, dep_operation_id = operation, dep_node_id = None,
       dep_command_id = None, dep_cleanup_command_id = None, dep_retirement_command_id = None,
       dep_status = Queued, dep_failure = None, dep_aggregate_version = 1,
       dep_requested_at = requested_at, dep_updated_at = requested_at,
       dep_activated_at = None, dep_cancellation_requested_at = None, dep_cancelled_at = None\<rparr>)"

definition deployment_canonical_time ::
    "deployment \<Rightarrow> timestamp \<Rightarrow> (deployment_error, timestamp) result" where
  "deployment_canonical_time self at =
     (let at = canonical_timestamp at in
      if at < dep_updated_at self then Inl DeploymentTimeRegressed else Inr at)"

definition deployment_transition ::
    "deployment \<Rightarrow> deployment_status \<Rightarrow> deployment_status \<Rightarrow> timestamp \<Rightarrow> deployment_mutation" where
  "deployment_transition self expected next at =
     (case deployment_canonical_time self at of
        Inl e \<Rightarrow> (self, Inl e)
      | Inr at \<Rightarrow>
          if dep_status self = next then (self, Inr ())
          else if dep_status self \<noteq> expected then (self, Inl (CannotTransition (dep_status self) next))
          else (self\<lparr>dep_status := next,
                     dep_aggregate_version := dep_aggregate_version self + 1,
                     dep_updated_at := at\<rparr>, Inr ()))"

definition deployment_resolve :: "deployment \<Rightarrow> timestamp \<Rightarrow> deployment_mutation" where
  "deployment_resolve self at = deployment_transition self Queued Resolving at"

definition deployment_schedule :: "deployment \<Rightarrow> uuid \<Rightarrow> timestamp \<Rightarrow> deployment_mutation" where
  "deployment_schedule self node_id at =
     (if dep_status self = Scheduled then
        (self, if dep_node_id self = Some node_id
               then and_then (deployment_canonical_time self at) (\<lambda>_. Inr ())
               else Inl ScheduledCannotChangeNode)
      else
        (case deployment_transition self Resolving Scheduled at of
           (self, Inl e) \<Rightarrow> (self, Inl e)
         | (self, Inr _) \<Rightarrow> (self\<lparr>dep_node_id := Some node_id\<rparr>, Inr ())))"

definition deployment_dispatch :: "deployment \<Rightarrow> uuid \<Rightarrow> timestamp \<Rightarrow> deployment_mutation" where
  "deployment_dispatch self command_id at =
     (if dep_status self = Applying then
        (self, if dep_command_id self = Some command_id
               then and_then (deployment_canonical_time self at) (\<lambda>_. Inr ())
               else Inl DispatchedCannotChangeCommand)
      else if dep_node_id self = None then (self, Inl DispatchBeforeScheduling)
      else
        (case deployment_transition self Scheduled Applying at of
           (self, Inl e) \<Rightarrow> (self, Inl e)
         | (self, Inr _) \<Rightarrow> (self\<lparr>dep_command_id := Some command_id\<rparr>, Inr ())))"

definition deployment_verify :: "deployment \<Rightarrow> timestamp \<Rightarrow> deployment_mutation" where
  "deployment_verify self at = deployment_transition self Applying Verifying at"

definition deployment_activate :: "deployment \<Rightarrow> bool \<Rightarrow> timestamp \<Rightarrow> deployment_mutation" where
  "deployment_activate self retirement_required at =
     (case deployment_canonical_time self at of
        Inl e \<Rightarrow> (self, Inl e)
      | Inr at \<Rightarrow>
          if dep_status self \<in> {Retiring, Active} then
            (let state_matches =
               (case dep_status self of
                  Retiring \<Rightarrow> retirement_required
                | Active \<Rightarrow> retirement_required = (dep_retirement_command_id self \<noteq> None)
                | _ \<Rightarrow> False)
             in (self, if state_matches then Inr () else Inl ActivationChangedRetirement))
          else
            (case deployment_transition self Verifying
                    (if retirement_required then Retiring else Active) at of
               (self, Inl e) \<Rightarrow> (self, Inl e)
             | (self, Inr _) \<Rightarrow> (self\<lparr>dep_activated_at := Some at\<rparr>, Inr ())))"

definition deployment_dispatch_retirement ::
    "deployment \<Rightarrow> uuid \<Rightarrow> timestamp \<Rightarrow> deployment_mutation" where
  "deployment_dispatch_retirement self command_id at =
     (case deployment_canonical_time self at of
        Inl e \<Rightarrow> (self, Inl e)
      | Inr at \<Rightarrow>
          if dep_status self \<noteq> Retiring then (self, Inl RetirementRequiresActivation)
          else
            let self =
              (if dep_retirement_command_id self \<noteq> Some command_id
               then self\<lparr>dep_retirement_command_id := Some command_id,
                         dep_aggregate_version := dep_aggregate_version self + 1\<rparr>
               else self)
            in (self\<lparr>dep_updated_at := at\<rparr>, Inr ()))"

definition deployment_complete_retirement ::
    "deployment \<Rightarrow> timestamp \<Rightarrow> deployment_mutation" where
  "deployment_complete_retirement self at =
     (if dep_status self = Active
      then (self, and_then (deployment_canonical_time self at) (\<lambda>_. Inr ()))
      else if dep_retirement_command_id self = None then (self, Inl RetirementBeforeCleanup)
      else deployment_transition self Retiring Active at)"

definition deployment_fail :: "deployment \<Rightarrow> string \<Rightarrow> timestamp \<Rightarrow> deployment_mutation" where
  "deployment_fail self reason at =
     (if dep_status self \<in> {Active, Cancelled} then (self, Inl TerminalCannotFail)
      else if is_blank reason \<or> length reason > 16 * 1024
              \<or> contains_any reason [CHR 0x00, CHR 0x0D, CHR 0x0A]
      then (self, Inl FailureInvalid)
      else
        (case deployment_canonical_time self at of
           Inl e \<Rightarrow> (self, Inl e)
         | Inr at \<Rightarrow>
             if dep_status self \<in> {Failed, Orphaned} then
               (self, if dep_failure self = Some reason then Inr () else Inl FailureReasonChanged)
             else
               (self\<lparr>dep_status :=
                       (if dep_activated_at self \<noteq> None
                           \<or> dep_retirement_command_id self \<noteq> None
                           \<or> dep_cleanup_command_id self \<noteq> None
                           \<or> dep_command_id self \<noteq> None
                              \<and> dep_status self \<in> {Cancelling, CleanupPending}
                        then Orphaned else Failed),
                     dep_failure := Some reason,
                     dep_aggregate_version := dep_aggregate_version self + 1,
                     dep_updated_at := at\<rparr>, Inr ())))"

definition deployment_request_cancellation ::
    "deployment \<Rightarrow> timestamp \<Rightarrow> deployment_mutation" where
  "deployment_request_cancellation self at =
     (case deployment_canonical_time self at of
        Inl e \<Rightarrow> (self, Inl e)
      | Inr at \<Rightarrow>
          if dep_status self \<in> {Cancelling, CleanupPending} then (self, Inr ())
          else if status_is_terminal (dep_status self) then (self, Inl TerminalCannotCancel)
          else if dep_status self = Verifying then (self, Inl VerifiedCannotCancel)
          else if dep_activated_at self \<noteq> None then (self, Inl ActivatedCannotCancel)
          else (self\<lparr>dep_status := Cancelling,
                     dep_cancellation_requested_at := Some at,
                     dep_aggregate_version := dep_aggregate_version self + 1,
                     dep_updated_at := at\<rparr>, Inr ()))"

definition deployment_cancel :: "deployment \<Rightarrow> timestamp \<Rightarrow> deployment_mutation" where
  "deployment_cancel self at =
     (case deployment_canonical_time self at of
        Inl e \<Rightarrow> (self, Inl e)
      | Inr at \<Rightarrow>
          if dep_status self = Cancelled then (self, Inr ())
          else
            (case (if dep_status self \<notin> {Cancelling, CleanupPending}
                   then deployment_request_cancellation self at else (self, Inr ())) of
               (self, Inl e) \<Rightarrow> (self, Inl e)
             | (self, Inr _) \<Rightarrow>
                 (self\<lparr>dep_status := Cancelled,
                       dep_cancelled_at := Some at,
                       dep_aggregate_version := dep_aggregate_version self + 1,
                       dep_updated_at := at\<rparr>, Inr ())))"

definition deployment_begin_cleanup ::
    "deployment \<Rightarrow> uuid \<Rightarrow> timestamp \<Rightarrow> deployment_mutation" where
  "deployment_begin_cleanup self command_id at =
     (case deployment_canonical_time self at of
        Inl e \<Rightarrow> (self, Inl e)
      | Inr at \<Rightarrow>
          if dep_status self = CleanupPending then
            (self, if dep_cleanup_command_id self = Some command_id then Inr ()
                   else Inl CleanupCommandChanged)
          else if dep_status self \<noteq> Cancelling then (self, Inl CleanupRequiresCancellation)
          else if dep_node_id self = None \<or> dep_command_id self = None
          then (self, Inl CleanupRequiresRuntimeChild)
          else (self\<lparr>dep_status := CleanupPending,
                     dep_cleanup_command_id := Some command_id,
                     dep_aggregate_version := dep_aggregate_version self + 1,
                     dep_updated_at := at\<rparr>, Inr ()))"

definition deployment_retry_cleanup ::
    "deployment \<Rightarrow> uuid \<Rightarrow> timestamp \<Rightarrow> deployment_mutation" where
  "deployment_retry_cleanup self command_id at =
     (case deployment_canonical_time self at of
        Inl e \<Rightarrow> (self, Inl e)
      | Inr at \<Rightarrow>
          if dep_status self \<noteq> CleanupPending \<or> dep_cleanup_command_id self = None
          then (self, Inl NoPendingCleanup)
          else
            let self =
              (if dep_cleanup_command_id self \<noteq> Some command_id
               then self\<lparr>dep_cleanup_command_id := Some command_id,
                         dep_aggregate_version := dep_aggregate_version self + 1\<rparr>
               else self)
            in (self\<lparr>dep_updated_at := at\<rparr>, Inr ()))"

section \<open>The step relation\<close>

text \<open>Every call of a mutating method, with its result.\<close>

inductive deployment_call :: "deployment \<Rightarrow> deployment \<Rightarrow> (deployment_error, unit) result \<Rightarrow> bool" where
  resolve: "deployment_resolve s at = (t, r) \<Longrightarrow> deployment_call s t r"
| schedule: "deployment_schedule s n at = (t, r) \<Longrightarrow> deployment_call s t r"
| dispatch: "deployment_dispatch s c at = (t, r) \<Longrightarrow> deployment_call s t r"
| verify: "deployment_verify s at = (t, r) \<Longrightarrow> deployment_call s t r"
| activate: "deployment_activate s b at = (t, r) \<Longrightarrow> deployment_call s t r"
| dispatch_retirement: "deployment_dispatch_retirement s c at = (t, r) \<Longrightarrow> deployment_call s t r"
| complete_retirement: "deployment_complete_retirement s at = (t, r) \<Longrightarrow> deployment_call s t r"
| fail: "deployment_fail s reason at = (t, r) \<Longrightarrow> deployment_call s t r"
| cancel: "deployment_cancel s at = (t, r) \<Longrightarrow> deployment_call s t r"
| request_cancellation: "deployment_request_cancellation s at = (t, r) \<Longrightarrow> deployment_call s t r"
| begin_cleanup: "deployment_begin_cleanup s c at = (t, r) \<Longrightarrow> deployment_call s t r"
| retry_cleanup: "deployment_retry_cleanup s c at = (t, r) \<Longrightarrow> deployment_call s t r"

definition deployment_step :: "deployment \<Rightarrow> deployment \<Rightarrow> bool" where
  "deployment_step s t \<longleftrightarrow> deployment_call s t (Inr ())"

lemmas deployment_ops =
  deployment_resolve_def deployment_schedule_def deployment_dispatch_def deployment_verify_def
  deployment_activate_def deployment_dispatch_retirement_def deployment_complete_retirement_def
  deployment_fail_def deployment_cancel_def deployment_request_cancellation_def
  deployment_begin_cleanup_def deployment_retry_cleanup_def deployment_transition_def
  deployment_canonical_time_def status_is_terminal_def

definition deployment_identity :: "deployment \<Rightarrow> uuid \<times> uuid \<times> uuid \<times> uuid \<times> uuid \<times> timestamp" where
  "deployment_identity d = (dep_id d, dep_organization_id d, dep_workload_id d, dep_revision_id d,
     dep_operation_id d, dep_requested_at d)"

section \<open>Invariant\<close>

definition scheduled_statuses :: "deployment_status set" where
  "scheduled_statuses = {Scheduled, Applying, Verifying, Retiring, CleanupPending, Active}"

definition dispatched_statuses :: "deployment_status set" where
  "dispatched_statuses = {Applying, Verifying, Retiring, CleanupPending, Active}"

text \<open>What the optional fields say about the status, in every state a deployment can reach.\<close>

definition deployment_inv :: "deployment \<Rightarrow> bool" where
  "deployment_inv d \<longleftrightarrow>
     dep_requested_at d \<le> dep_updated_at d \<and>
     (dep_status d \<in> {Queued, Resolving} \<longrightarrow> dep_node_id d = None) \<and>
     (dep_status d \<in> scheduled_statuses \<longrightarrow> dep_node_id d \<noteq> None) \<and>
     (dep_status d \<in> dispatched_statuses \<longrightarrow> dep_command_id d \<noteq> None) \<and>
     (dep_node_id d = None \<longrightarrow> dep_command_id d = None) \<and>
     (dep_status d \<in> {Queued, Resolving, Scheduled} \<longrightarrow> dep_command_id d = None) \<and>
     (dep_status d \<in> {Retiring, Active} \<longrightarrow> dep_activated_at d \<noteq> None) \<and>
     (dep_activated_at d \<noteq> None \<longrightarrow> dep_status d \<in> {Retiring, Active, Orphaned}) \<and>
     (dep_activated_at d = None \<longrightarrow> dep_retirement_command_id d = None) \<and>
     (dep_status d = CleanupPending \<longrightarrow> dep_cleanup_command_id d \<noteq> None) \<and>
     (dep_cleanup_command_id d \<noteq> None \<longrightarrow> dep_status d \<in> {CleanupPending, Cancelled, Orphaned}) \<and>
     (dep_failure d \<noteq> None \<longleftrightarrow> dep_status d \<in> {Failed, Orphaned}) \<and>
     (dep_status d = Cancelled \<longleftrightarrow> dep_cancelled_at d \<noteq> None) \<and>
     (dep_status d \<in> {Cancelling, CleanupPending, Cancelled} \<longrightarrow>
        dep_cancellation_requested_at d \<noteq> None) \<and>
     (dep_cancellation_requested_at d \<noteq> None \<longrightarrow>
        dep_status d \<in> {Cancelling, CleanupPending, Cancelled, Failed, Orphaned})"

text \<open>The edges of the status machine.\<close>

fun deployment_edge :: "deployment_status \<Rightarrow> deployment_status \<Rightarrow> bool" where
  "deployment_edge Queued t \<longleftrightarrow> t \<in> {Resolving, Cancelling, Cancelled, Failed}"
| "deployment_edge Resolving t \<longleftrightarrow> t \<in> {Scheduled, Cancelling, Cancelled, Failed}"
| "deployment_edge Scheduled t \<longleftrightarrow> t \<in> {Applying, Cancelling, Cancelled, Failed}"
| "deployment_edge Applying t \<longleftrightarrow> t \<in> {Verifying, Cancelling, Cancelled, Failed}"
| "deployment_edge Verifying t \<longleftrightarrow> t \<in> {Retiring, Active, Failed}"
| "deployment_edge Retiring t \<longleftrightarrow> t \<in> {Active, Orphaned}"
| "deployment_edge Cancelling t \<longleftrightarrow> t \<in> {CleanupPending, Cancelled, Failed, Orphaned}"
| "deployment_edge CleanupPending t \<longleftrightarrow> t \<in> {Cancelled, Orphaned}"
| "deployment_edge _ t \<longleftrightarrow> False"

fun deployment_rank :: "deployment_status \<Rightarrow> nat" where
  "deployment_rank Queued = 0"
| "deployment_rank Resolving = 1"
| "deployment_rank Scheduled = 2"
| "deployment_rank Applying = 3"
| "deployment_rank Verifying = 4"
| "deployment_rank Retiring = 5"
| "deployment_rank Cancelling = 5"
| "deployment_rank CleanupPending = 6"
| "deployment_rank _ = 7"

lemma deployment_edge_rank: "deployment_edge a b \<Longrightarrow> deployment_rank a < deployment_rank b"
  by (cases a) auto

lemma deployment_call_identity: "deployment_call s t r \<Longrightarrow> deployment_identity t = deployment_identity s"
  by (induction rule: deployment_call.induct)
    (auto simp: deployment_ops deployment_identity_def Let_def split: if_splits sum.splits prod.splits)

lemma deployment_call_stamp: "deployment_call s t r \<Longrightarrow> dep_updated_at s \<le> dep_updated_at t"
  by (induction rule: deployment_call.induct)
    (auto simp: deployment_ops Let_def split: if_splits sum.splits prod.splits)

lemma deployment_call_error: "deployment_call s t (Inl e) \<Longrightarrow> t = s"
  by (induction s t "Inl e :: (deployment_error, unit) result" rule: deployment_call.induct)
    (auto simp: deployment_ops Let_def split: if_splits sum.splits prod.splits)


text \<open>
  The writes the methods make, one rule per assignment block of the source with the guards that
  hold when it is reached. Every call leaves the deployment alone or makes one of them.
\<close>

definition deployment_move :: "deployment \<Rightarrow> deployment_status \<Rightarrow> timestamp \<Rightarrow> deployment" where
  "deployment_move s next at =
     s\<lparr>dep_status := next, dep_aggregate_version := dep_aggregate_version s + 1, dep_updated_at := at\<rparr>"

definition leaves_runtime_orphan :: "deployment \<Rightarrow> bool" where
  "leaves_runtime_orphan s \<longleftrightarrow>
     dep_activated_at s \<noteq> None \<or> dep_retirement_command_id s \<noteq> None \<or>
     dep_cleanup_command_id s \<noteq> None \<or>
     dep_command_id s \<noteq> None \<and> dep_status s \<in> {Cancelling, CleanupPending}"

inductive deployment_change :: "deployment \<Rightarrow> deployment \<Rightarrow> bool" where
  resolved: "dep_status s = Queued \<Longrightarrow> dep_updated_at s \<le> at \<Longrightarrow>
    deployment_change s (deployment_move s Resolving at)"
| scheduled: "dep_status s = Resolving \<Longrightarrow> dep_updated_at s \<le> at \<Longrightarrow>
    deployment_change s ((deployment_move s Scheduled at)\<lparr>dep_node_id := Some n\<rparr>)"
| dispatched: "dep_status s = Scheduled \<Longrightarrow> dep_node_id s \<noteq> None \<Longrightarrow> dep_updated_at s \<le> at \<Longrightarrow>
    deployment_change s ((deployment_move s Applying at)\<lparr>dep_command_id := Some c\<rparr>)"
| verified: "dep_status s = Applying \<Longrightarrow> dep_updated_at s \<le> at \<Longrightarrow>
    deployment_change s (deployment_move s Verifying at)"
| activated: "dep_status s = Verifying \<Longrightarrow> dep_updated_at s \<le> at \<Longrightarrow> next \<in> {Retiring, Active} \<Longrightarrow>
    deployment_change s ((deployment_move s next at)\<lparr>dep_activated_at := Some at\<rparr>)"
| retirement_sent: "dep_status s = Retiring \<Longrightarrow> dep_updated_at s \<le> at \<Longrightarrow>
    deployment_change s
      (s\<lparr>dep_retirement_command_id := Some c, dep_aggregate_version := dep_aggregate_version s + 1,
         dep_updated_at := at\<rparr>)"
| touched: "dep_status s \<in> {Retiring, CleanupPending} \<Longrightarrow> dep_updated_at s \<le> at \<Longrightarrow>
    deployment_change s (s\<lparr>dep_updated_at := at\<rparr>)"
| retired: "dep_status s = Retiring \<Longrightarrow> dep_retirement_command_id s \<noteq> None \<Longrightarrow>
    dep_updated_at s \<le> at \<Longrightarrow> deployment_change s (deployment_move s Active at)"
| failed: "\<not> status_is_terminal (dep_status s) \<Longrightarrow> dep_updated_at s \<le> at \<Longrightarrow>
    next = (if leaves_runtime_orphan s then Orphaned else Failed) \<Longrightarrow>
    deployment_change s
      (s\<lparr>dep_status := next, dep_failure := Some reason,
         dep_aggregate_version := dep_aggregate_version s + 1, dep_updated_at := at\<rparr>)"
| cancelling: "dep_status s \<in> {Queued, Resolving, Scheduled, Applying, Retiring} \<Longrightarrow>
    dep_activated_at s = None \<Longrightarrow> dep_updated_at s \<le> at \<Longrightarrow>
    deployment_change s
      (s\<lparr>dep_status := Cancelling, dep_cancellation_requested_at := Some at,
         dep_aggregate_version := dep_aggregate_version s + 1, dep_updated_at := at\<rparr>)"
| cancelled: "dep_status s \<in> {Cancelling, CleanupPending} \<Longrightarrow> dep_updated_at s \<le> at \<Longrightarrow>
    deployment_change s
      (s\<lparr>dep_status := Cancelled, dep_cancelled_at := Some at,
         dep_aggregate_version := dep_aggregate_version s + 1, dep_updated_at := at\<rparr>)"
| cancelled_at_once: "dep_status s \<in> {Queued, Resolving, Scheduled, Applying, Retiring} \<Longrightarrow>
    dep_activated_at s = None \<Longrightarrow> dep_updated_at s \<le> at \<Longrightarrow>
    deployment_change s
      (s\<lparr>dep_cancellation_requested_at := Some at, dep_status := Cancelled, dep_cancelled_at := Some at,
         dep_aggregate_version := dep_aggregate_version s + 1 + 1, dep_updated_at := at\<rparr>)"
| cleaning: "dep_status s = Cancelling \<Longrightarrow> dep_node_id s \<noteq> None \<Longrightarrow> dep_command_id s \<noteq> None \<Longrightarrow>
    dep_updated_at s \<le> at \<Longrightarrow>
    deployment_change s
      (s\<lparr>dep_status := CleanupPending, dep_cleanup_command_id := Some c,
         dep_aggregate_version := dep_aggregate_version s + 1, dep_updated_at := at\<rparr>)"
| cleanup_resent: "dep_status s = CleanupPending \<Longrightarrow> dep_updated_at s \<le> at \<Longrightarrow>
    deployment_change s
      (s\<lparr>dep_cleanup_command_id := Some c, dep_aggregate_version := dep_aggregate_version s + 1,
         dep_updated_at := at\<rparr>)"

text \<open>The method bodies, as choices of one such write.\<close>

lemma canonical_time_Inr:
  "deployment_canonical_time s at = Inr a \<longleftrightarrow> a = canonical_timestamp at \<and> dep_updated_at s \<le> a"
  by (auto simp: deployment_canonical_time_def Let_def)

lemma transition_cases:
  assumes "deployment_transition s e n at = (t, r)"
  shows "t = s \<or> dep_status s = e \<and> dep_updated_at s \<le> canonical_timestamp at \<and>
    t = deployment_move s n (canonical_timestamp at)"
  using assms
  by (simp add: deployment_transition_def deployment_move_def canonical_time_Inr
      split: if_split_asm sum.split_asm)

lemma resolve_change: "deployment_resolve s at = (t, r) \<Longrightarrow> t = s \<or> deployment_change s t"
  unfolding deployment_resolve_def
  by (drule transition_cases) (auto intro: deployment_change.resolved)

lemma verify_change: "deployment_verify s at = (t, r) \<Longrightarrow> t = s \<or> deployment_change s t"
  unfolding deployment_verify_def
  by (drule transition_cases) (auto intro: deployment_change.verified)

lemma schedule_change: "deployment_schedule s n at = (t, r) \<Longrightarrow> t = s \<or> deployment_change s t"
  by (auto simp: deployment_schedule_def deployment_transition_def canonical_time_Inr
      deployment_move_def [symmetric] intro: deployment_change.scheduled
      split: if_splits sum.splits)

lemma dispatch_change: "deployment_dispatch s c at = (t, r) \<Longrightarrow> t = s \<or> deployment_change s t"
  by (auto simp: deployment_dispatch_def deployment_transition_def canonical_time_Inr
      deployment_move_def [symmetric] intro: deployment_change.dispatched
      split: if_splits sum.splits)

lemma activate_change: "deployment_activate s b at = (t, r) \<Longrightarrow> t = s \<or> deployment_change s t"
  by (auto simp: deployment_activate_def deployment_transition_def canonical_time_Inr
      deployment_move_def [symmetric] Let_def intro: deployment_change.activated
      split: if_splits sum.splits)

lemma dispatch_retirement_change:
  "deployment_dispatch_retirement s c at = (t, r) \<Longrightarrow> t = s \<or> deployment_change s t"
  using deployment_change.retirement_sent [of s "canonical_timestamp at" c]
    deployment_change.touched [of s "canonical_timestamp at"]
  by (auto simp: deployment_dispatch_retirement_def canonical_time_Inr Let_def
      split: if_splits sum.splits)

lemma complete_retirement_change:
  "deployment_complete_retirement s at = (t, r) \<Longrightarrow> t = s \<or> deployment_change s t"
  by (auto simp: deployment_complete_retirement_def intro: deployment_change.retired
      split: if_splits dest!: transition_cases)

lemma fail_change:
  assumes "deployment_fail s reason at = (t, r)"
  shows "t = s \<or> deployment_change s t"
proof (cases "t = s")
  case False
  have "\<not> status_is_terminal (dep_status s) \<and> dep_updated_at s \<le> canonical_timestamp at \<and>
    t = s\<lparr>dep_status := (if leaves_runtime_orphan s then Orphaned else Failed),
          dep_failure := Some reason, dep_aggregate_version := dep_aggregate_version s + 1,
          dep_updated_at := canonical_timestamp at\<rparr>"
    using assms False unfolding deployment_fail_def leaves_runtime_orphan_def [symmetric]
    by (simp add: canonical_time_Inr status_is_terminal_def split: if_split_asm sum.split_asm)
  then show ?thesis
    using deployment_change.failed [OF _ _ refl] by simp
qed simp

lemma request_cancellation_cases:
  assumes "deployment_request_cancellation s at = (t, r)"
  shows "t = s \<and> (r = Inr () \<longrightarrow> dep_status s \<in> {Cancelling, CleanupPending}) \<or>
    r = Inr () \<and> dep_status s \<in> {Queued, Resolving, Scheduled, Applying, Retiring} \<and>
    dep_activated_at s = None \<and> dep_updated_at s \<le> canonical_timestamp at \<and>
    t = s\<lparr>dep_status := Cancelling, dep_cancellation_requested_at := Some (canonical_timestamp at),
          dep_aggregate_version := dep_aggregate_version s + 1,
          dep_updated_at := canonical_timestamp at\<rparr>"
  using assms
  by (cases "dep_status s") (auto simp: deployment_request_cancellation_def canonical_time_Inr
      status_is_terminal_def split: if_split_asm sum.split_asm)

lemma request_cancellation_change:
  "deployment_request_cancellation s at = (t, r) \<Longrightarrow> t = s \<or> deployment_change s t"
  by (drule request_cancellation_cases) (blast intro: deployment_change.cancelling)

lemma cancel_change:
  assumes "deployment_cancel s at = (t, r)"
  shows "t = s \<or> deployment_change s t"
proof (cases "dep_status s \<in> {Cancelling, CleanupPending, Cancelled}")
  case True
  with assms deployment_change.cancelled [of s "canonical_timestamp at"] show ?thesis
    by (simp add: deployment_cancel_def canonical_time_Inr split: if_split_asm sum.split_asm)
next
  case False
  obtain u q where q: "deployment_request_cancellation s (canonical_timestamp at) = (u, q)"
    by fastforce
  from request_cancellation_cases [OF q] False assms q
    deployment_change.cancelled_at_once [of s "canonical_timestamp at"]
  show ?thesis
    by (cases q) (auto simp: deployment_cancel_def canonical_time_Inr split: sum.split_asm)
qed

lemma begin_cleanup_change:
  "deployment_begin_cleanup s c at = (t, r) \<Longrightarrow> t = s \<or> deployment_change s t"
  using deployment_change.cleaning [of s "canonical_timestamp at" c]
  by (simp add: deployment_begin_cleanup_def canonical_time_Inr split: if_split_asm sum.split_asm)

lemma retry_cleanup_change:
  "deployment_retry_cleanup s c at = (t, r) \<Longrightarrow> t = s \<or> deployment_change s t"
  using deployment_change.cleanup_resent [of s "canonical_timestamp at" c]
    deployment_change.touched [of s "canonical_timestamp at"]
  by (simp add: deployment_retry_cleanup_def canonical_time_Inr Let_def
      split: if_split_asm sum.split_asm)

lemmas deployment_op_change =
  resolve_change schedule_change dispatch_change verify_change activate_change
  dispatch_retirement_change complete_retirement_change fail_change cancel_change
  request_cancellation_change begin_cleanup_change retry_cleanup_change

lemma deployment_call_change: "deployment_call s t r \<Longrightarrow> t = s \<or> deployment_change s t"
  by (erule deployment_call.cases) (simp_all only: deployment_op_change)

lemmas deployment_inv_defs =
  deployment_inv_def scheduled_statuses_def dispatched_statuses_def deployment_move_def

lemma deployment_failed_inv:
  assumes "deployment_inv s" and "\<not> status_is_terminal (dep_status s)" and "dep_updated_at s \<le> at"
  shows "deployment_inv
    (s\<lparr>dep_status := (if leaves_runtime_orphan s then Orphaned else Failed), dep_failure := Some reason,
       dep_aggregate_version := v, dep_updated_at := at\<rparr>)"
  using assms
  by (cases "dep_status s")
    (auto simp: deployment_inv_defs leaves_runtime_orphan_def status_is_terminal_def)

lemma deployment_change_inv: "deployment_change s t \<Longrightarrow> deployment_inv s \<Longrightarrow> deployment_inv t"
proof (induction rule: deployment_change.induct)
  case (failed s at "next" reason)
  then show ?case by (simp add: deployment_failed_inv)
next
  case (activated s at "next")
  then show ?case by (elim insertE emptyE; simp add: deployment_inv_defs)
next
  case (touched s at)
  then show ?case by (elim insertE emptyE; simp add: deployment_inv_defs)
next
  case (cancelling s at)
  then show ?case by (elim insertE emptyE; simp add: deployment_inv_defs)
next
  case (cancelled s at)
  then show ?case by (elim insertE emptyE; simp add: deployment_inv_defs)
next
  case (cancelled_at_once s at)
  then show ?case by (elim insertE emptyE; simp add: deployment_inv_defs)
qed (simp_all add: deployment_inv_defs)

lemma deployment_change_edge:
  "deployment_change s t \<Longrightarrow> deployment_inv s \<Longrightarrow>
   dep_status t = dep_status s \<or> deployment_edge (dep_status s) (dep_status t)"
  by (erule deployment_change.cases; cases "dep_status s")
    (simp_all add: deployment_inv_defs leaves_runtime_orphan_def status_is_terminal_def, auto)

lemma deployment_change_not_terminal: "deployment_change s t \<Longrightarrow> \<not> status_is_terminal (dep_status s)"
  by (erule deployment_change.cases) (auto simp: status_is_terminal_def)

lemma deployment_call_inv: "deployment_call s t r \<Longrightarrow> deployment_inv s \<Longrightarrow> deployment_inv t"
  using deployment_call_change deployment_change_inv by blast

lemma deployment_call_edge:
  "deployment_call s t r \<Longrightarrow> deployment_inv s \<Longrightarrow>
   dep_status t = dep_status s \<or> deployment_edge (dep_status s) (dep_status t)"
  using deployment_call_change deployment_change_edge by blast

lemma deployment_call_terminal:
  "deployment_call s t r \<Longrightarrow> status_is_terminal (dep_status s) \<Longrightarrow> t = s"
  using deployment_call_change deployment_change_not_terminal by blast

lemma deployment_create_inv: "deployment_inv (deployment_create i o1 w r op at)"
  by (simp add: deployment_create_def deployment_inv_def scheduled_statuses_def dispatched_statuses_def
      Let_def)

interpretation deployment: aggregate deployment_step deployment_identity dep_updated_at deployment_inv
  by unfold_locales
    (auto simp: deployment_step_def dest: deployment_call_identity deployment_call_stamp
      intro: deployment_call_inv)

lemma deployment_run_terminal:
  "deployment_step\<^sup>*\<^sup>* s t \<Longrightarrow> status_is_terminal (dep_status s) \<Longrightarrow> t = s"
  by (induction rule: rtranclp_induct) (auto simp: deployment_step_def dest: deployment_call_terminal)

lemma deployment_run_rank:
  assumes "deployment_step\<^sup>*\<^sup>* s t" and "deployment_inv s"
  shows "dep_status t = dep_status s \<or> deployment_rank (dep_status s) < deployment_rank (dep_status t)"
  using assms(1)
proof (induction rule: rtranclp_induct)
  case (step u v)
  have "deployment_inv u"
    by (rule deployment.run_invar [OF step.hyps(1) assms(2)])
  with step.hyps(2) have "dep_status v = dep_status u \<or> deployment_edge (dep_status u) (dep_status v)"
    by (simp add: deployment_step_def deployment_call_edge)
  with step.IH show ?case
    by (auto dest: deployment_edge_rank)
qed simp

section \<open>Properties\<close>

text \<open>
  C8. Every deployment that method calls can reach from \<open>Deployment::create\<close> keeps its identity and
  satisfies the field invariant, its next call moves the status along an edge of the status machine
  or not at all, and any run that changes the status moves it strictly forward, so that no status is
  ever entered twice.
\<close>

theorem deployment_lifecycle:
  assumes "deployment_step\<^sup>*\<^sup>* (deployment_create i org w rv op at) s"
  shows "deployment_inv s \<and>
    deployment_identity s = (i, org, w, rv, op, canonical_timestamp at) \<and>
    (\<forall>t r. deployment_call s t r \<longrightarrow>
      dep_status t = dep_status s \<or> deployment_edge (dep_status s) (dep_status t)) \<and>
    (\<forall>u v. deployment_step\<^sup>*\<^sup>* s u \<and> dep_status u \<noteq> dep_status s \<and> deployment_step\<^sup>*\<^sup>* u v \<longrightarrow>
      dep_status v \<noteq> dep_status s)"
proof (intro conjI allI impI)
  show inv: "deployment_inv s"
    by (rule deployment.run_invar [OF assms deployment_create_inv])
  show "deployment_identity s = (i, org, w, rv, op, canonical_timestamp at)"
    using deployment.run_identity [OF assms]
    by (simp add: deployment_identity_def deployment_create_def Let_def)
  show "dep_status t = dep_status s \<or> deployment_edge (dep_status s) (dep_status t)"
    if "deployment_call s t r" for t r
    by (rule deployment_call_edge [OF that inv])
  show "dep_status v \<noteq> dep_status s"
    if run: "deployment_step\<^sup>*\<^sup>* s u \<and> dep_status u \<noteq> dep_status s \<and> deployment_step\<^sup>*\<^sup>* u v" for u v
  proof -
    have "deployment_inv u"
      using run inv by (blast intro: deployment.run_invar)
    with run inv deployment_run_rank [of s u] deployment_run_rank [of u v] show ?thesis by auto
  qed
qed

text \<open>
  C15. A call that returns an error leaves the deployment exactly as it was, and once a deployment is
  active, failed, orphaned or cancelled no call changes any of its fields.
\<close>

theorem deployment_errors_and_terminal_states:
  assumes "deployment_call s t r" and "r \<noteq> Inr () \<or> status_is_terminal (dep_status s)"
  shows "t = s"
proof (cases r)
  case (Inl e)
  with assms(1) show ?thesis by (simp add: deployment_call_error)
next
  case (Inr u)
  with assms show ?thesis by (auto intro: deployment_call_terminal)
qed


definition sample_deployment :: deployment where
  "sample_deployment =
     fst (deployment_dispatch (fst (deployment_schedule (fst (deployment_resolve
       (deployment_create 1 2 3 4 5 1000) 2000)) 7 3000)) 8 4000)"

lemmas sample_deployment_eval =
  sample_deployment_def deployment_create_def deployment_ops canonical_timestamp_def Let_def

lemma sample_deployment_run: "deployment_step\<^sup>*\<^sup>* (deployment_create 1 2 3 4 5 1000) sample_deployment"
proof -
  let ?a = "deployment_create 1 2 3 4 5 1000"
  let ?b = "fst (deployment_resolve ?a 2000)"
  let ?c = "fst (deployment_schedule ?b 7 3000)"
  have "deployment_resolve ?a 2000 = (?b, Inr ())" "deployment_schedule ?b 7 3000 = (?c, Inr ())"
    "deployment_dispatch ?c 8 4000 = (sample_deployment, Inr ())"
    by (simp_all add: sample_deployment_eval)
  then have "deployment_step ?a ?b" and "deployment_step ?b ?c"
    and "deployment_step ?c sample_deployment"
    unfolding deployment_step_def
    by (blast intro: deployment_call.resolve, blast intro: deployment_call.schedule,
        blast intro: deployment_call.dispatch)
  then show ?thesis
    by (rule converse_rtranclp_into_rtranclp [OF _ converse_rtranclp_into_rtranclp
          [OF _ r_into_rtranclp]])
qed

theorem deployment_lifecycle_witness:
  "deployment_inv sample_deployment \<and> dep_status sample_deployment = Applying \<and>
   deployment_edge Applying (dep_status (fst (deployment_verify sample_deployment 5000)))"
proof -
  let ?t = "fst (deployment_verify sample_deployment 5000)"
  have verify: "deployment_verify sample_deployment 5000 = (?t, Inr ())"
    and status: "dep_status sample_deployment = Applying" "dep_status ?t = Verifying"
    by (simp_all add: sample_deployment_eval)
  have "deployment_call sample_deployment ?t (Inr ())"
    by (rule deployment_call.verify [OF verify])
  with deployment_lifecycle [OF sample_deployment_run] status show ?thesis by fastforce
qed

theorem deployment_errors_and_terminal_states_witness:
  "fst (deployment_begin_cleanup sample_deployment 9 5000) = sample_deployment"
proof -
  have "deployment_begin_cleanup sample_deployment 9 5000 =
      (fst (deployment_begin_cleanup sample_deployment 9 5000), Inl CleanupRequiresCancellation)"
    by (simp add: sample_deployment_eval)
  from deployment_errors_and_terminal_states [OF deployment_call.begin_cleanup [OF this]]
  show ?thesis by simp
qed


end
