(* ===== verification/Workload_Replica.thy ===== *)
theory Workload_Replica
  imports Workload Deployment Externals
begin

text \<open>
  Replicas of a workload and the members they place on nodes,
  \<open>workloads/domain/entities/workload_replica.rs\<close>: \<open>WorkloadReplica\<close> with its retirement and evacuation
  protocol and \<open>WorkloadReplicaMember\<close> with its placement generations. Of \<open>WorkloadRevision\<close> the record
  \<open>revision\<close> holds the fields this code reads; it is extensible.

  A counter is incremented by \<open>checked_add\<close> after other fields have been written, so a method that
  reports an overflow has already changed the object: the mutation type shows that object.
\<close>

section \<open>Definitions\<close>

record revision =
  rv_id :: uuid
  rv_workload_id :: uuid
  rv_generation :: u64
  rv_created_at :: timestamp

datatype replica_lifecycle = LcDesired | LcRetiring | LcRetired

datatype replica_error =
    UnsupportedLifecycle string
  | ReplicaRevisionInconsistent
  | ReplicaOrdinalTooLarge
  | RuntimeIdentityWrongRevision
  | RuntimeMemberInconsistent
  | ReplicaAdvanceInvalid
  | ReplicaGenerationOverflowed
  | ReplicaVersionOverflowed
  | RetirementTimeRegressed
  | EvacuationRequestInvalid
  | NotEligibleForEvacuation
  | RetirementDispatchInvalid
  | FencingEvidenceInvalid
  | FencingEvidenceChanged
  | RetireBeforeRelease
  | EvacuateBeforeFencing
  | ReactivationInvalid
  | ReplicaInvalid
  | RetirementEvidenceInvalid
  | MemberWrongReplica
  | MemberOrdinalTooLarge
  | MemberPlacementInvalid
  | MemberCannotMove
  | PlacementGenerationOverflowed
  | MemberVersionOverflowed
  | MemberReleaseInvalid
  | MemberReleaseChangedNode
  | MemberInvalid

fun lifecycle_as_str :: "replica_lifecycle \<Rightarrow> string" where
  "lifecycle_as_str LcDesired = ''desired''"
| "lifecycle_as_str LcRetiring = ''retiring''"
| "lifecycle_as_str LcRetired = ''retired''"

definition lifecycle_parse :: "string \<Rightarrow> (replica_error, replica_lifecycle) result" where
  "lifecycle_parse v =
     (if v = ''desired'' then Inr LcDesired
      else if v = ''retiring'' then Inr LcRetiring
      else if v = ''retired'' then Inr LcRetired
      else Inl (UnsupportedLifecycle v))"

record replica =
  wr_id :: uuid
  wr_organization_id :: uuid
  wr_project_id :: uuid
  wr_environment_id :: uuid
  wr_workload_id :: uuid
  wr_ordinal :: u32
  wr_revision_id :: uuid
  wr_revision_generation :: u64
  wr_generation :: u64
  wr_lifecycle :: replica_lifecycle
  wr_evacuation_node_id :: "uuid option"
  wr_retirement_command_id :: "uuid option"
  wr_runtime_fenced_at :: "timestamp option"
  wr_aggregate_version :: u64
  wr_created_at :: timestamp
  wr_updated_at :: timestamp

record member =
  wm_id :: uuid
  wm_organization_id :: uuid
  wm_project_id :: uuid
  wm_environment_id :: uuid
  wm_workload_id :: uuid
  wm_replica_id :: uuid
  wm_ordinal :: u32
  wm_node_id :: "uuid option"
  wm_placement_generation :: u64
  wm_aggregate_version :: u64
  wm_created_at :: timestamp
  wm_updated_at :: timestamp

type_synonym replica_mutation = "(replica, replica_error, unit) mutation"
type_synonym member_mutation = "(member, replica_error, unit) mutation"

text \<open>\<open>MAX_WORKLOAD_REPLICAS\<close> is 100 and \<open>MAX_WORKLOAD_PLACEMENT_GROUP_MEMBERS\<close> is 256.\<close>

definition replica_deterministic_id ::
    "externals \<Rightarrow> uuid \<Rightarrow> u32 \<Rightarrow> (replica_error, uuid) result" where
  "replica_deterministic_id X workload_id ordinal =
     (if ordinal \<ge> 100 then Inl ReplicaOrdinalTooLarge
      else if ordinal = 0 then Inr workload_id
      else Inr (ext_uuid_v5 X workload_id
             (''a3s.cloud.workload-replica.v1:'' @ decimal (unat ordinal))))"

definition replica_validate :: "externals \<Rightarrow> replica \<Rightarrow> (replica_error, unit) result" where
  "replica_validate X self =
     (if is_nil (wr_id self) \<or> is_nil (wr_organization_id self) \<or> is_nil (wr_project_id self)
         \<or> is_nil (wr_environment_id self) \<or> is_nil (wr_workload_id self)
         \<or> is_nil (wr_revision_id self)
         \<or> replica_deterministic_id X (wr_workload_id self) (wr_ordinal self) \<noteq> Inr (wr_id self)
         \<or> wr_revision_generation self = 0 \<or> wr_generation self = 0
         \<or> wr_aggregate_version self = 0
         \<or> wr_updated_at self < wr_created_at self
         \<or> (case wr_evacuation_node_id self of None \<Rightarrow> False | Some n \<Rightarrow> is_nil n)
         \<or> (case wr_runtime_fenced_at self of None \<Rightarrow> False
            | Some fenced_at \<Rightarrow> fenced_at < wr_created_at self \<or> fenced_at > wr_updated_at self)
      then Inl ReplicaInvalid
      else
        let retirement_state_valid =
          (case wr_lifecycle self of
             LcDesired \<Rightarrow> wr_evacuation_node_id self = None \<and> wr_retirement_command_id self = None
               \<and> wr_runtime_fenced_at self = None
           | LcRetiring \<Rightarrow> wr_runtime_fenced_at self = None \<or> wr_retirement_command_id self \<noteq> None
           | LcRetired \<Rightarrow> wr_evacuation_node_id self = None
               \<and> (wr_retirement_command_id self \<noteq> None) = (wr_runtime_fenced_at self \<noteq> None))
        in if \<not> retirement_state_valid then Inl RetirementEvidenceInvalid else Inr ())"

definition replica_for_ordinal ::
    "externals \<Rightarrow> workload \<Rightarrow> 'a revision_scheme \<Rightarrow> u32 \<Rightarrow> (replica_error, replica) result" where
  "replica_for_ordinal X w revision ordinal =
     (if rv_workload_id revision \<noteq> wl_id w \<or> rv_generation revision = 0
      then Inl ReplicaRevisionInconsistent
      else
        and_then (replica_deterministic_id X (wl_id w) ordinal) (\<lambda>i.
        let replica =
          \<lparr>wr_id = i, wr_organization_id = wl_organization_id w, wr_project_id = wl_project_id w,
           wr_environment_id = wl_environment_id w, wr_workload_id = wl_id w, wr_ordinal = ordinal,
           wr_revision_id = rv_id revision, wr_revision_generation = rv_generation revision,
           wr_generation = rv_generation revision, wr_lifecycle = LcDesired,
           wr_evacuation_node_id = None, wr_retirement_command_id = None,
           wr_runtime_fenced_at = None, wr_aggregate_version = 1, wr_created_at = wl_created_at w,
           wr_updated_at = max (rv_created_at revision) (wl_created_at w)\<rparr>
        in and_then (replica_validate X replica) (\<lambda>_. Inr replica)))"

text \<open>\<open>WorkloadRevision::runtime_unit_id\<close>.\<close>

definition revision_runtime_unit_id :: "externals \<Rightarrow> 'a revision_scheme \<Rightarrow> string" where
  "revision_runtime_unit_id X self =
     ''workload:'' @ ext_uuid_display X (rv_workload_id self) @ '':revision:''
       @ ext_uuid_display X (rv_id self)"

definition replica_runtime_unit_id ::
    "externals \<Rightarrow> replica \<Rightarrow> 'a revision_scheme \<Rightarrow> (replica_error, string) result" where
  "replica_runtime_unit_id X self revision =
     (if rv_workload_id revision \<noteq> wr_workload_id self \<or> rv_id revision \<noteq> wr_revision_id self
         \<or> rv_generation revision \<noteq> wr_revision_generation self
      then Inl RuntimeIdentityWrongRevision
      else if wr_ordinal self = 0 then Inr (revision_runtime_unit_id X revision)
      else Inr (''workload:'' @ ext_uuid_display X (wr_workload_id self) @ '':replica:''
             @ ext_uuid_display X (wr_id self) @ '':revision:'' @ ext_uuid_display X (rv_id revision)))"

text \<open>The tail of the replica methods: count the version, then write the time.\<close>

definition replica_bump :: "replica \<Rightarrow> timestamp \<Rightarrow> replica_mutation" where
  "replica_bump self at =
     (case checked_add (wr_aggregate_version self) 1 of
        None \<Rightarrow> (self, Inl ReplicaVersionOverflowed)
      | Some v \<Rightarrow> (self\<lparr>wr_aggregate_version := v, wr_updated_at := at\<rparr>, Inr ()))"

definition replica_advance ::
    "replica \<Rightarrow> 'a revision_scheme \<Rightarrow> timestamp \<Rightarrow> replica_mutation" where
  "replica_advance self revision at =
     (let at = canonical_timestamp at in
      if rv_workload_id revision \<noteq> wr_workload_id self
         \<or> rv_generation revision \<le> wr_revision_generation self
         \<or> wr_lifecycle self \<noteq> LcDesired \<or> at < wr_updated_at self
      then (self, Inl ReplicaAdvanceInvalid)
      else
        let self = self\<lparr>wr_revision_id := rv_id revision,
                        wr_revision_generation := rv_generation revision\<rparr>
        in case checked_add (wr_generation self) 1 of
             None \<Rightarrow> (self, Inl ReplicaGenerationOverflowed)
           | Some g \<Rightarrow> replica_bump (self\<lparr>wr_generation := g\<rparr>) at)"

definition replica_request_retirement :: "replica \<Rightarrow> timestamp \<Rightarrow> replica_mutation" where
  "replica_request_retirement self at =
     (let at = canonical_timestamp at in
      if at < wr_updated_at self then (self, Inl RetirementTimeRegressed)
      else if wr_lifecycle self \<noteq> LcDesired then (self\<lparr>wr_updated_at := at\<rparr>, Inr ())
      else replica_bump
             (self\<lparr>wr_lifecycle := LcRetiring, wr_evacuation_node_id := None,
                   wr_retirement_command_id := None, wr_runtime_fenced_at := None\<rparr>) at)"

definition replica_request_evacuation ::
    "replica \<Rightarrow> member \<Rightarrow> uuid \<Rightarrow> timestamp \<Rightarrow> replica_mutation" where
  "replica_request_evacuation self member node_id at =
     (let at = canonical_timestamp at in
      if is_nil node_id \<or> wm_replica_id member \<noteq> wr_id self
         \<or> wm_workload_id member \<noteq> wr_workload_id self \<or> wm_node_id member \<noteq> Some node_id
         \<or> at < max (wr_updated_at self) (wm_updated_at member)
      then (self, Inl EvacuationRequestInvalid)
      else if wr_lifecycle self = LcRetiring \<and> wr_evacuation_node_id self = Some node_id
      then (self, Inr ())
      else if wr_lifecycle self \<noteq> LcDesired then (self, Inl NotEligibleForEvacuation)
      else replica_bump
             (self\<lparr>wr_lifecycle := LcRetiring, wr_evacuation_node_id := Some node_id,
                   wr_retirement_command_id := None, wr_runtime_fenced_at := None\<rparr>) at)"

definition replica_dispatch_retirement :: "replica \<Rightarrow> uuid \<Rightarrow> timestamp \<Rightarrow> replica_mutation" where
  "replica_dispatch_retirement self command_id at =
     (let at = canonical_timestamp at in
      if is_nil command_id \<or> wr_lifecycle self \<noteq> LcRetiring \<or> wr_runtime_fenced_at self \<noteq> None
         \<or> at < wr_updated_at self
      then (self, Inl RetirementDispatchInvalid)
      else if wr_retirement_command_id self = Some command_id then (self, Inr ())
      else replica_bump (self\<lparr>wr_retirement_command_id := Some command_id\<rparr>) at)"

definition replica_record_runtime_fenced ::
    "replica \<Rightarrow> uuid \<Rightarrow> timestamp \<Rightarrow> replica_mutation" where
  "replica_record_runtime_fenced self command_id fenced_at =
     (let fenced_at = canonical_timestamp fenced_at in
      if wr_lifecycle self \<noteq> LcRetiring \<or> wr_retirement_command_id self \<noteq> Some command_id
         \<or> fenced_at < wr_updated_at self
      then (self, Inl FencingEvidenceInvalid)
      else if wr_runtime_fenced_at self \<noteq> None then
        (self, if wr_runtime_fenced_at self = Some fenced_at then Inr ()
               else Inl FencingEvidenceChanged)
      else replica_bump (self\<lparr>wr_runtime_fenced_at := Some fenced_at\<rparr>) fenced_at)"

definition replica_complete_retirement ::
    "replica \<Rightarrow> member \<Rightarrow> timestamp \<Rightarrow> replica_mutation" where
  "replica_complete_retirement self member at =
     (let at = canonical_timestamp at in
      if wm_replica_id member \<noteq> wr_id self \<or> wm_workload_id member \<noteq> wr_workload_id self
         \<or> wm_node_id member \<noteq> None \<or> wr_lifecycle self \<noteq> LcRetiring
         \<or> wr_evacuation_node_id self \<noteq> None
         \<or> (wr_retirement_command_id self \<noteq> None) \<noteq> (wr_runtime_fenced_at self \<noteq> None)
         \<or> at < max (wr_updated_at self) (wm_updated_at member)
      then (self, Inl RetireBeforeRelease)
      else replica_bump (self\<lparr>wr_lifecycle := LcRetired\<rparr>) at)"

definition replica_complete_evacuation ::
    "replica \<Rightarrow> member \<Rightarrow> timestamp \<Rightarrow> replica_mutation" where
  "replica_complete_evacuation self member at =
     (let at = canonical_timestamp at in
      if wm_replica_id member \<noteq> wr_id self \<or> wm_workload_id member \<noteq> wr_workload_id self
         \<or> wm_node_id member \<noteq> None \<or> wr_lifecycle self \<noteq> LcRetiring
         \<or> wr_evacuation_node_id self = None \<or> wr_retirement_command_id self = None
         \<or> wr_runtime_fenced_at self = None
         \<or> at < max (wr_updated_at self) (wm_updated_at member)
      then (self, Inl EvacuateBeforeFencing)
      else
        case checked_add (wr_generation self) 1 of
          None \<Rightarrow> (self, Inl ReplicaGenerationOverflowed)
        | Some g \<Rightarrow> replica_bump
            (self\<lparr>wr_generation := g, wr_lifecycle := LcDesired, wr_evacuation_node_id := None,
                  wr_retirement_command_id := None, wr_runtime_fenced_at := None\<rparr>) at)"

definition replica_reactivate ::
    "replica \<Rightarrow> 'a revision_scheme \<Rightarrow> timestamp \<Rightarrow> replica_mutation" where
  "replica_reactivate self revision at =
     (let at = canonical_timestamp at in
      if wr_lifecycle self \<noteq> LcRetired \<or> rv_workload_id revision \<noteq> wr_workload_id self
         \<or> rv_generation revision < wr_revision_generation self \<or> at < wr_updated_at self
      then (self, Inl ReactivationInvalid)
      else
        let self = self\<lparr>wr_revision_id := rv_id revision,
                        wr_revision_generation := rv_generation revision\<rparr>
        in case checked_add (wr_generation self) 1 of
             None \<Rightarrow> (self, Inl ReplicaGenerationOverflowed)
           | Some g \<Rightarrow> replica_bump
               (self\<lparr>wr_generation := g, wr_lifecycle := LcDesired, wr_evacuation_node_id := None,
                     wr_retirement_command_id := None, wr_runtime_fenced_at := None\<rparr>) at)"

section \<open>Members\<close>

definition member_deterministic_id ::
    "externals \<Rightarrow> uuid \<Rightarrow> u32 \<Rightarrow> (replica_error, uuid) result" where
  "member_deterministic_id X replica_id ordinal =
     (if ordinal \<ge> 256 then Inl MemberOrdinalTooLarge
      else if ordinal = 0 then Inr replica_id
      else Inr (ext_uuid_v5 X replica_id
             (''a3s.cloud.workload-replica-member.v1:'' @ decimal (unat ordinal))))"

definition member_validate :: "externals \<Rightarrow> member \<Rightarrow> (replica_error, unit) result" where
  "member_validate X self =
     (if is_nil (wm_id self) \<or> is_nil (wm_organization_id self) \<or> is_nil (wm_project_id self)
         \<or> is_nil (wm_environment_id self) \<or> is_nil (wm_workload_id self)
         \<or> is_nil (wm_replica_id self)
         \<or> member_deterministic_id X (wm_replica_id self) (wm_ordinal self) \<noteq> Inr (wm_id self)
         \<or> wm_node_id self \<noteq> None \<and> wm_placement_generation self = 0
         \<or> wm_aggregate_version self = 0
         \<or> wm_updated_at self < wm_created_at self
      then Inl MemberInvalid else Inr ())"

definition member_for_ordinal ::
    "externals \<Rightarrow> workload \<Rightarrow> replica \<Rightarrow> u32 \<Rightarrow> (replica_error, member) result" where
  "member_for_ordinal X w replica ordinal =
     and_then (replica_validate X replica) (\<lambda>_.
     if wr_organization_id replica \<noteq> wl_organization_id w
        \<or> wr_project_id replica \<noteq> wl_project_id w
        \<or> wr_environment_id replica \<noteq> wl_environment_id w
        \<or> wr_workload_id replica \<noteq> wl_id w
     then Inl MemberWrongReplica
     else
       and_then (member_deterministic_id X (wr_id replica) ordinal) (\<lambda>i.
       let member =
         \<lparr>wm_id = i, wm_organization_id = wl_organization_id w, wm_project_id = wl_project_id w,
          wm_environment_id = wl_environment_id w, wm_workload_id = wl_id w,
          wm_replica_id = wr_id replica, wm_ordinal = ordinal, wm_node_id = None,
          wm_placement_generation = 0, wm_aggregate_version = 1,
          wm_created_at = wl_created_at w, wm_updated_at = wl_created_at w\<rparr>
       in and_then (member_validate X member) (\<lambda>_. Inr member)))"

definition member_for_replica ::
    "externals \<Rightarrow> workload \<Rightarrow> replica \<Rightarrow> (replica_error, member) result" where
  "member_for_replica X w replica = member_for_ordinal X w replica 0"

definition replica_runtime_unit_id_for_member ::
    "externals \<Rightarrow> replica \<Rightarrow> 'a revision_scheme \<Rightarrow> member \<Rightarrow> (replica_error, string) result" where
  "replica_runtime_unit_id_for_member X self revision member =
     and_then (member_validate X member) (\<lambda>_.
     if wm_organization_id member \<noteq> wr_organization_id self
        \<or> wm_project_id member \<noteq> wr_project_id self
        \<or> wm_environment_id member \<noteq> wr_environment_id self
        \<or> wm_replica_id member \<noteq> wr_id self \<or> wm_workload_id member \<noteq> wr_workload_id self
        \<or> member_deterministic_id X (wr_id self) (wm_ordinal member) \<noteq> Inr (wm_id member)
     then Inl RuntimeMemberInconsistent
     else
       and_then (replica_runtime_unit_id X self revision) (\<lambda>base.
       if wm_ordinal member = 0 then Inr base
       else Inr (base @ '':member:'' @ ext_uuid_display X (wm_id member))))"

definition member_place :: "member \<Rightarrow> uuid \<Rightarrow> timestamp \<Rightarrow> member_mutation" where
  "member_place self node_id at =
     (let at = canonical_timestamp at in
      if is_nil node_id \<or> at < wm_updated_at self then (self, Inl MemberPlacementInvalid)
      else
        case wm_node_id self of
          Some existing \<Rightarrow>
            if existing = node_id then (self\<lparr>wm_updated_at := at\<rparr>, Inr ())
            else (self, Inl MemberCannotMove)
        | None \<Rightarrow>
            let self = self\<lparr>wm_node_id := Some node_id\<rparr> in
            (case checked_add (wm_placement_generation self) 1 of
               None \<Rightarrow> (self, Inl PlacementGenerationOverflowed)
             | Some g \<Rightarrow>
                 let self = self\<lparr>wm_placement_generation := g\<rparr> in
                 (case checked_add (wm_aggregate_version self) 1 of
                    None \<Rightarrow> (self, Inl MemberVersionOverflowed)
                  | Some v \<Rightarrow> (self\<lparr>wm_aggregate_version := v, wm_updated_at := at\<rparr>, Inr ()))))"

definition member_release_after_fencing :: "member \<Rightarrow> uuid \<Rightarrow> timestamp \<Rightarrow> member_mutation" where
  "member_release_after_fencing self node_id at =
     (let at = canonical_timestamp at in
      if at < wm_updated_at self \<or> is_nil node_id then (self, Inl MemberReleaseInvalid)
      else
        case wm_node_id self of
          None \<Rightarrow> (self\<lparr>wm_updated_at := at\<rparr>, Inr ())
        | Some existing \<Rightarrow>
            if existing \<noteq> node_id then (self, Inl MemberReleaseChangedNode)
            else
              let self = self\<lparr>wm_node_id := None\<rparr> in
              (case checked_add (wm_aggregate_version self) 1 of
                 None \<Rightarrow> (self, Inl MemberVersionOverflowed)
               | Some v \<Rightarrow> (self\<lparr>wm_aggregate_version := v, wm_updated_at := at\<rparr>, Inr ())))"

section \<open>Step relations\<close>

text \<open>
  One successful call. The revisions handed to \<open>advance\<close> and \<open>reactivate\<close> are stored revisions, whose
  identifiers are not nil.
\<close>

inductive replica_step :: "replica \<Rightarrow> replica \<Rightarrow> bool" where
  advance: "rv_id r \<noteq> 0 \<Longrightarrow> replica_advance s (r :: revision) at = (t, Inr ()) \<Longrightarrow> replica_step s t"
| request_retirement: "replica_request_retirement s at = (t, Inr ()) \<Longrightarrow> replica_step s t"
| request_evacuation: "replica_request_evacuation s m n at = (t, Inr ()) \<Longrightarrow> replica_step s t"
| dispatch_retirement: "replica_dispatch_retirement s c at = (t, Inr ()) \<Longrightarrow> replica_step s t"
| record_runtime_fenced: "replica_record_runtime_fenced s c at = (t, Inr ()) \<Longrightarrow> replica_step s t"
| complete_retirement: "replica_complete_retirement s m at = (t, Inr ()) \<Longrightarrow> replica_step s t"
| complete_evacuation: "replica_complete_evacuation s m at = (t, Inr ()) \<Longrightarrow> replica_step s t"
| reactivate: "rv_id r \<noteq> 0 \<Longrightarrow> replica_reactivate s (r :: revision) at = (t, Inr ()) \<Longrightarrow> replica_step s t"

inductive member_step :: "member \<Rightarrow> member \<Rightarrow> bool" where
  place: "member_place s n at = (t, Inr ()) \<Longrightarrow> member_step s t"
| release_after_fencing: "member_release_after_fencing s n at = (t, Inr ()) \<Longrightarrow> member_step s t"

section \<open>Step lemmas\<close>

lemma replica_bump_Inr:
  "replica_bump s at = (t, Inr u) \<longleftrightarrow>
   (\<exists>v. checked_add (wr_aggregate_version s) 1 = Some v \<and>
        t = s\<lparr>wr_aggregate_version := v, wr_updated_at := at\<rparr>)"
  by (auto simp: replica_bump_def split: option.split)

lemmas replica_op_defs =
  replica_advance_def replica_request_retirement_def replica_request_evacuation_def
  replica_dispatch_retirement_def replica_record_runtime_fenced_def replica_complete_retirement_def
  replica_complete_evacuation_def replica_reactivate_def replica_bump_Inr Let_def

lemmas member_op_defs = member_place_def member_release_after_fencing_def Let_def

lemmas outcome_splits = if_split_asm option.split_asm

definition replica_identity ::
    "replica \<Rightarrow> uuid \<times> uuid \<times> uuid \<times> uuid \<times> uuid \<times> u32 \<times> timestamp" where
  "replica_identity s = (wr_id s, wr_organization_id s, wr_project_id s, wr_environment_id s,
     wr_workload_id s, wr_ordinal s, wr_created_at s)"

definition member_identity ::
    "member \<Rightarrow> uuid \<times> uuid \<times> uuid \<times> uuid \<times> uuid \<times> uuid \<times> u32 \<times> timestamp" where
  "member_identity s = (wm_id s, wm_organization_id s, wm_project_id s, wm_environment_id s,
     wm_workload_id s, wm_replica_id s, wm_ordinal s, wm_created_at s)"

lemma replica_step_identity: "replica_step s t \<Longrightarrow> replica_identity t = replica_identity s"
  by (erule replica_step.cases)
    (auto simp: replica_op_defs replica_identity_def split: outcome_splits)

lemma replica_step_stamp: "replica_step s t \<Longrightarrow> wr_updated_at s \<le> wr_updated_at t"
  by (erule replica_step.cases) (auto simp: replica_op_defs split: outcome_splits)

lemma replica_step_version: "replica_step s t \<Longrightarrow> wr_aggregate_version s \<le> wr_aggregate_version t"
  by (erule replica_step.cases)
    (auto simp: replica_op_defs intro: checked_inc_le split: outcome_splits)

lemma replica_step_generation:
  "replica_step s t \<Longrightarrow> wr_generation s \<le> wr_generation t \<and>
     (wr_lifecycle s \<noteq> LcDesired \<longrightarrow> wr_lifecycle t = LcDesired \<longrightarrow> wr_generation s < wr_generation t)"
  by (erule replica_step.cases)
    (auto simp: replica_op_defs intro: checked_inc_le checked_inc_less split: outcome_splits)

text \<open>\<open>replica_validate\<close> as a conjunction, for the preservation proof.\<close>

lemma replica_validate_ok:
  "replica_validate X s = Inr u \<longleftrightarrow>
     wr_id s \<noteq> 0 \<and> wr_organization_id s \<noteq> 0 \<and> wr_project_id s \<noteq> 0 \<and> wr_environment_id s \<noteq> 0 \<and>
     wr_workload_id s \<noteq> 0 \<and> wr_revision_id s \<noteq> 0 \<and>
     replica_deterministic_id X (wr_workload_id s) (wr_ordinal s) = Inr (wr_id s) \<and>
     wr_revision_generation s \<noteq> 0 \<and> wr_generation s \<noteq> 0 \<and> wr_aggregate_version s \<noteq> 0 \<and>
     wr_created_at s \<le> wr_updated_at s \<and> wr_evacuation_node_id s \<noteq> Some 0 \<and>
     (\<forall>f. wr_runtime_fenced_at s = Some f \<longrightarrow> wr_created_at s \<le> f \<and> f \<le> wr_updated_at s) \<and>
     (case wr_lifecycle s of
        LcDesired \<Rightarrow> wr_evacuation_node_id s = None \<and> wr_retirement_command_id s = None
          \<and> wr_runtime_fenced_at s = None
      | LcRetiring \<Rightarrow> wr_retirement_command_id s = None \<longrightarrow> wr_runtime_fenced_at s = None
      | LcRetired \<Rightarrow> wr_evacuation_node_id s = None
          \<and> (wr_retirement_command_id s = None \<longleftrightarrow> wr_runtime_fenced_at s = None))"
  by (cases "wr_lifecycle s"; cases "wr_evacuation_node_id s"; cases "wr_runtime_fenced_at s";
      cases "wr_retirement_command_id s") (auto simp: replica_validate_def Let_def not_less)

lemma replica_step_valid:
  assumes "replica_step s t" and "replica_validate X s = Inr ()"
  shows "replica_validate X t = Inr ()"
  using assms(1)
proof cases
  case (advance r at)
  with assms(2) show ?thesis
    by (auto simp: replica_op_defs replica_validate_ok dest: checked_inc_pos split: outcome_splits)
next
  case (request_retirement at)
  with assms(2) show ?thesis
    by (cases "wr_lifecycle s")
      (auto simp: replica_op_defs replica_validate_ok dest: checked_inc_pos split: outcome_splits)
next
  case (request_evacuation m n at)
  with assms(2) show ?thesis
    by (cases "wr_lifecycle s")
      (auto simp: replica_op_defs replica_validate_ok dest: checked_inc_pos split: outcome_splits)
next
  case (dispatch_retirement c at)
  with assms(2) show ?thesis
    by (auto simp: replica_op_defs replica_validate_ok dest: checked_inc_pos split: outcome_splits)
next
  case (record_runtime_fenced c at)
  with assms(2) show ?thesis
    by (auto simp: replica_op_defs replica_validate_ok dest: checked_inc_pos split: outcome_splits)
next
  case (complete_retirement m at)
  with assms(2) show ?thesis
    by (auto simp: replica_op_defs replica_validate_ok dest: checked_inc_pos split: outcome_splits)
next
  case (complete_evacuation m at)
  with assms(2) show ?thesis
    by (auto simp: replica_op_defs replica_validate_ok dest: checked_inc_pos split: outcome_splits)
next
  case (reactivate r at)
  with assms(2) show ?thesis
    by (auto simp: replica_op_defs replica_validate_ok word_greater_zero_iff dest: checked_inc_pos split: outcome_splits)
qed

interpretation replica: versioned_aggregate replica_step replica_identity wr_updated_at
  "\<lambda>s. replica_validate X s = Inr ()" wr_aggregate_version for X
  by unfold_locales
    (auto intro: replica_step_identity replica_step_stamp replica_step_valid replica_step_version)

lemma replica_run_generation: "replica_step\<^sup>*\<^sup>* s t \<Longrightarrow> wr_generation s \<le> wr_generation t"
  by (induction rule: rtranclp_induct) (auto dest: replica_step_generation)

text \<open>A replica that is not desired is desired again only in a later generation.\<close>

lemma replica_run_returns:
  "replica_step\<^sup>*\<^sup>* s t \<Longrightarrow> wr_lifecycle s \<noteq> LcDesired \<Longrightarrow> wr_lifecycle t = LcDesired \<Longrightarrow>
   wr_generation s < wr_generation t"
proof (induction rule: rtranclp_induct)
  case (step u v)
  show ?case
  proof (cases "wr_lifecycle u = LcDesired")
    case True
    with step replica_step_generation [OF step.hyps(2)] show ?thesis by auto
  next
    case False
    with step replica_step_generation [OF step.hyps(2)] replica_run_generation [OF step.hyps(1)]
    show ?thesis by auto
  qed
qed simp

lemma member_step_identity: "member_step s t \<Longrightarrow> member_identity t = member_identity s"
  by (erule member_step.cases)
    (auto simp: member_op_defs member_identity_def split: outcome_splits)

lemma member_step_stamp: "member_step s t \<Longrightarrow> wm_updated_at s \<le> wm_updated_at t"
  by (erule member_step.cases) (auto simp: member_op_defs split: outcome_splits)

lemma member_step_version: "member_step s t \<Longrightarrow> wm_aggregate_version s \<le> wm_aggregate_version t"
  by (erule member_step.cases)
    (auto simp: member_op_defs intro: checked_inc_le split: outcome_splits)

lemma member_step_valid:
  assumes "member_step s t" and "member_validate X s = Inr ()"
  shows "member_validate X t = Inr ()"
  using assms
  by cases (auto simp: member_op_defs member_validate_def dest: checked_inc_pos split: outcome_splits)

interpretation member: versioned_aggregate member_step member_identity wm_updated_at
  "\<lambda>s. member_validate X s = Inr ()" wm_aggregate_version for X
  by unfold_locales
    (auto intro: member_step_identity member_step_stamp member_step_valid member_step_version)

lemma member_step_generation:
  "member_step s t \<Longrightarrow> wm_placement_generation s \<le> wm_placement_generation t \<and>
     (wm_node_id t \<noteq> None \<longrightarrow> wm_node_id t = wm_node_id s \<or>
        wm_placement_generation s < wm_placement_generation t)"
  by (erule member_step.cases)
    (auto simp: member_op_defs intro: checked_inc_le checked_inc_less split: outcome_splits)

lemma member_run_generation:
  "member_step\<^sup>*\<^sup>* s t \<Longrightarrow> wm_placement_generation s \<le> wm_placement_generation t \<and>
     (wm_node_id t \<noteq> None \<longrightarrow> wm_node_id t = wm_node_id s \<or>
        wm_placement_generation s < wm_placement_generation t)"
proof (induction rule: rtranclp_induct)
  case (step u v)
  note IH = step.IH and one = member_step_generation [OF step.hyps(2)]
  have le: "wm_placement_generation s \<le> wm_placement_generation v"
    using IH one by (blast intro: order_trans)
  show ?case
  proof (cases "wm_node_id v = None \<or> wm_node_id v = wm_node_id u")
    case True
    with IH one le show ?thesis by (auto intro: less_le_trans)
  next
    case False
    with IH one le show ?thesis by (auto intro: le_less_trans)
  qed
qed simp

section \<open>Properties\<close>

text \<open>
  C22. A replica built for a workload and one of its revisions stays valid under every sequence of
  calls: \<open>validate\<close> accepts each state it reaches, and its identity, its ordinal and its creation time
  never change.
\<close>

theorem replica_stays_valid:
  assumes "replica_for_ordinal X w (rv :: revision) ordinal = Inr s" and "replica_step\<^sup>*\<^sup>* s t"
  shows "replica_validate X t = Inr () \<and> replica_identity t = replica_identity s \<and>
    wr_updated_at s \<le> wr_updated_at t \<and> wr_aggregate_version s \<le> wr_aggregate_version t"
proof -
  have "replica_validate X s = Inr ()"
    using assms(1) by (auto simp: replica_for_ordinal_def Let_def split: if_split_asm)
  then show ?thesis
    using replica.run_invar [OF assms(2)] replica.run_identity [OF assms(2)]
      replica.run_stamp [OF assms(2)] replica.run_version [OF assms(2)] by simp
qed

text \<open>
  C23. Fencing by generation: once a replica has left the desired state, it can be desired again only
  with a strictly greater generation, and a step that ends an evacuation has both a dispatched
  retirement command and Runtime fencing evidence behind it.
\<close>

theorem replica_generation_fences:
  assumes "replica_step\<^sup>*\<^sup>* s u" and "wr_lifecycle u \<noteq> LcDesired" and "replica_step\<^sup>*\<^sup>* u t"
    and "wr_lifecycle t = LcDesired"
  shows "wr_generation s < wr_generation t \<and>
    (\<forall>v. wr_lifecycle u = LcRetiring \<and> replica_step u v \<and> wr_lifecycle v = LcDesired \<longrightarrow>
      wr_retirement_command_id u \<noteq> None \<and> wr_runtime_fenced_at u \<noteq> None)"
proof (intro conjI allI impI)
  show "wr_generation s < wr_generation t"
    using replica_run_generation [OF assms(1)] replica_run_returns [OF assms(3,2,4)] by simp
  fix v
  assume "wr_lifecycle u = LcRetiring \<and> replica_step u v \<and> wr_lifecycle v = LcDesired"
  then have step: "replica_step u v" and "wr_lifecycle u = LcRetiring" "wr_lifecycle v = LcDesired"
    by auto
  then have "wr_retirement_command_id u \<noteq> None \<and> wr_runtime_fenced_at u \<noteq> None"
    using step by cases (auto simp: replica_op_defs split: outcome_splits)
  then show "wr_retirement_command_id u \<noteq> None" "wr_runtime_fenced_at u \<noteq> None" by auto
qed

text \<open>
  C24. A member never moves silently: over any run of placements and releases, two placements with
  the same placement generation are on the same node, and a call of \<open>place\<close> for another node than
  the current one is refused and changes nothing.
\<close>

theorem member_placement_is_fenced:
  assumes "member_step\<^sup>*\<^sup>* s t" and "wm_node_id s = Some a" and "wm_node_id t = Some b"
  shows "(wm_placement_generation t = wm_placement_generation s \<longrightarrow> b = a) \<and>
    (c \<noteq> b \<longrightarrow> fst (member_place t c at) = t \<and> snd (member_place t c at) \<noteq> Inr ())"
  using member_run_generation [OF assms(1)] assms(2,3)
  by (auto simp: member_place_def Let_def)

definition sample_revision :: revision where
  "sample_revision = \<lparr>rv_id = 11, rv_workload_id = 1, rv_generation = 1, rv_created_at = 5000\<rparr>"

definition sample_replica :: replica where
  "sample_replica =
     \<lparr>wr_id = 1, wr_organization_id = 2, wr_project_id = 3, wr_environment_id = 4, wr_workload_id = 1,
      wr_ordinal = 0, wr_revision_id = 11, wr_revision_generation = 1, wr_generation = 1,
      wr_lifecycle = LcDesired, wr_evacuation_node_id = None, wr_retirement_command_id = None,
      wr_runtime_fenced_at = None, wr_aggregate_version = 1, wr_created_at = 5000,
      wr_updated_at = 5000\<rparr>"

definition sample_member :: member where
  "sample_member =
     \<lparr>wm_id = 1, wm_organization_id = 2, wm_project_id = 3, wm_environment_id = 4, wm_workload_id = 1,
      wm_replica_id = 1, wm_ordinal = 0, wm_node_id = None, wm_placement_generation = 0,
      wm_aggregate_version = 1, wm_created_at = 5000, wm_updated_at = 5000\<rparr>"

lemma sample_replica_built:
  "replica_for_ordinal X sample_workload sample_revision 0 = Inr sample_replica"
  by (simp add: replica_for_ordinal_def sample_workload_def workload_create_def sample_revision_def
      sample_replica_def replica_deterministic_id_def replica_validate_def canonical_timestamp_def Let_def)

lemma sample_member_built:
  "member_for_replica X sample_workload sample_replica = Inr sample_member"
  by (simp add: member_for_replica_def member_for_ordinal_def sample_workload_def workload_create_def
      sample_member_def sample_replica_def replica_deterministic_id_def replica_validate_def
      member_deterministic_id_def member_validate_def canonical_timestamp_def Let_def)

lemmas sample_replica_eval =
  sample_replica_def sample_member_def sample_revision_def replica_request_retirement_def
  replica_complete_retirement_def replica_reactivate_def replica_bump_def member_place_def
  canonical_timestamp_def checked_add_def Let_def

theorem replica_stays_valid_witness:
  "replica_validate sample_externals (fst (replica_request_retirement sample_replica 7000)) = Inr ()"
proof -
  have "replica_request_retirement sample_replica 7000 =
      (fst (replica_request_retirement sample_replica 7000), Inr ())"
    by (simp add: sample_replica_eval)
  then have "replica_step\<^sup>*\<^sup>* sample_replica (fst (replica_request_retirement sample_replica 7000))"
    by (blast intro: replica_step.request_retirement)
  from replica_stays_valid [OF sample_replica_built this] show ?thesis by blast
qed

theorem replica_generation_fences_witness:
  "wr_generation sample_replica <
   wr_generation (fst (replica_reactivate (fst (replica_complete_retirement
     (fst (replica_request_retirement sample_replica 7000)) sample_member 8000)) sample_revision 9000))"
proof -
  let ?a = "fst (replica_request_retirement sample_replica 7000)"
  let ?b = "fst (replica_complete_retirement ?a sample_member 8000)"
  let ?c = "fst (replica_reactivate ?b sample_revision 9000)"
  have a: "replica_request_retirement sample_replica 7000 = (?a, Inr ())"
    and b: "replica_complete_retirement ?a sample_member 8000 = (?b, Inr ())"
    and c: "replica_reactivate ?b sample_revision 9000 = (?c, Inr ())"
    and lc: "wr_lifecycle ?a = LcRetiring" "wr_lifecycle ?c = LcDesired" "rv_id sample_revision \<noteq> 0"
    by (simp_all add: sample_replica_eval)
  have sa: "replica_step\<^sup>*\<^sup>* sample_replica ?a"
    using replica_step.request_retirement [OF a] by (rule r_into_rtranclp)
  have bc: "replica_step\<^sup>*\<^sup>* ?b ?c"
    using replica_step.reactivate [OF lc(3) c] by (rule r_into_rtranclp)
  have ac: "replica_step\<^sup>*\<^sup>* ?a ?c"
    using replica_step.complete_retirement [OF b] bc by (rule converse_rtranclp_into_rtranclp)
  from replica_generation_fences [OF sa _ ac] lc show ?thesis by simp
qed

theorem member_placement_is_fenced_witness:
  "snd (member_place (fst (member_place sample_member 7 6000)) 8 7000) \<noteq> Inr ()"
proof -
  have "wm_node_id (fst (member_place sample_member 7 6000)) = Some 7"
    by (simp add: sample_replica_eval)
  from member_placement_is_fenced [OF rtranclp.rtrancl_refl this this, of 8 7000] show ?thesis by simp
qed

end
