(* ===== verification/Replica_Binding.thy ===== *)
theory Replica_Binding
  imports Workload_Replica
begin

text \<open>
  \<open>DeploymentReplicaBinding\<close> of \<open>workload_replica.rs\<close>: the record that ties a deployment to one replica
  generation and one placement generation of a member, and the check that it is still the live
  assignment. \<open>reservation_binding_matches\<close> is the guard with which the Postgres claim repository
  compares a reservation with the stored binding and member. The two methods for members of a
  placement group, which also read the group's plan, are not modelled.
\<close>

datatype binding_error =
    BindingReplica replica_error
  | PlacementBindingInconsistent
  | CannotProposeInitial
  | BindingInvalid
  | LiveAssignmentInconsistent
  | LineageInvalid

record binding =
  drb_deployment_id :: uuid
  drb_organization_id :: uuid
  drb_project_id :: uuid
  drb_environment_id :: uuid
  drb_workload_id :: uuid
  drb_revision_id :: uuid
  drb_replica_id :: uuid
  drb_replica_generation :: u64
  drb_member_id :: uuid
  drb_node_id :: "uuid option"
  drb_placement_generation :: u64
  drb_runtime_unit_id :: string
  drb_runtime_generation :: u64
  drb_created_at :: timestamp
  drb_updated_at :: timestamp

definition binding_validate_lineage ::
    "externals \<Rightarrow> binding \<Rightarrow> deployment \<Rightarrow> 'a revision_scheme \<Rightarrow> replica \<Rightarrow> member
      \<Rightarrow> (binding_error, unit) result" where
  "binding_validate_lineage X self d revision r m =
     and_then (map_err BindingReplica (replica_validate X r)) (\<lambda>_.
     and_then (map_err BindingReplica (member_validate X m)) (\<lambda>_.
     if drb_deployment_id self \<noteq> dep_id d
        \<or> drb_organization_id self \<noteq> dep_organization_id d
        \<or> drb_organization_id self \<noteq> wr_organization_id r
        \<or> drb_organization_id self \<noteq> wm_organization_id m
        \<or> drb_project_id self \<noteq> wr_project_id r
        \<or> drb_project_id self \<noteq> wm_project_id m
        \<or> drb_environment_id self \<noteq> wr_environment_id r
        \<or> drb_environment_id self \<noteq> wm_environment_id m
        \<or> drb_workload_id self \<noteq> dep_workload_id d
        \<or> drb_revision_id self \<noteq> dep_revision_id d
        \<or> drb_revision_id self \<noteq> rv_id revision
        \<or> rv_workload_id revision \<noteq> drb_workload_id self
        \<or> rv_generation revision = 0
        \<or> drb_replica_id self \<noteq> wr_id r
        \<or> wr_workload_id r \<noteq> drb_workload_id self
        \<or> drb_member_id self \<noteq> wm_id m
        \<or> wm_replica_id m \<noteq> drb_replica_id self
        \<or> wm_workload_id m \<noteq> drb_workload_id self
        \<or> drb_replica_generation self = 0
        \<or> drb_runtime_generation self \<noteq> drb_replica_generation self
        \<or> drb_node_id self \<noteq> None \<and> drb_placement_generation self = 0
        \<or> is_blank (drb_runtime_unit_id self)
        \<or> length (drb_runtime_unit_id self) > 512
        \<or> contains_any (drb_runtime_unit_id self) [CHR 0x00, CHR 0x0D, CHR 0x0A]
        \<or> drb_updated_at self < drb_created_at self
     then Inl LineageInvalid else Inr ()))"

definition binding_validate_common ::
    "externals \<Rightarrow> binding \<Rightarrow> deployment \<Rightarrow> 'a revision_scheme \<Rightarrow> replica \<Rightarrow> member
      \<Rightarrow> (binding_error, unit) result" where
  "binding_validate_common X self d revision r m =
     and_then (binding_validate_lineage X self d revision r m) (\<lambda>_.
     if wr_revision_id r \<noteq> drb_revision_id self
        \<or> wr_revision_generation r \<noteq> rv_generation revision
        \<or> wr_lifecycle r \<noteq> LcDesired
        \<or> drb_replica_generation self \<noteq> wr_generation r
        \<or> drb_placement_generation self \<noteq> wm_placement_generation m
        \<or> drb_runtime_generation self \<noteq> wr_generation r
     then Inl BindingInvalid else Inr ())"

definition binding_validate_against ::
    "externals \<Rightarrow> binding \<Rightarrow> deployment \<Rightarrow> 'a revision_scheme \<Rightarrow> replica \<Rightarrow> member
      \<Rightarrow> (binding_error, unit) result" where
  "binding_validate_against X self d revision r m =
     and_then (binding_validate_common X self d revision r m) (\<lambda>_.
     if drb_node_id self \<noteq> dep_node_id d
        \<or> drb_node_id self \<noteq> None \<and> drb_node_id self \<noteq> wm_node_id m
     then Inl BindingInvalid
     else
       and_then (map_err BindingReplica (replica_runtime_unit_id X r revision)) (\<lambda>unit_id.
       if drb_runtime_unit_id self \<noteq> unit_id then Inl BindingInvalid else Inr ()))"

definition binding_create_with_runtime_unit_id ::
    "deployment \<Rightarrow> replica \<Rightarrow> member \<Rightarrow> string \<Rightarrow> binding" where
  "binding_create_with_runtime_unit_id d r m runtime_unit_id =
     \<lparr>drb_deployment_id = dep_id d, drb_organization_id = wr_organization_id r,
      drb_project_id = wr_project_id r, drb_environment_id = wr_environment_id r,
      drb_workload_id = dep_workload_id d, drb_revision_id = dep_revision_id d,
      drb_replica_id = wr_id r, drb_replica_generation = wr_generation r, drb_member_id = wm_id m,
      drb_node_id = dep_node_id d, drb_placement_generation = wm_placement_generation m,
      drb_runtime_unit_id = runtime_unit_id, drb_runtime_generation = wr_generation r,
      drb_created_at = dep_requested_at d, drb_updated_at = dep_updated_at d\<rparr>"

definition binding_create ::
    "externals \<Rightarrow> deployment \<Rightarrow> 'a revision_scheme \<Rightarrow> replica \<Rightarrow> member
      \<Rightarrow> (binding_error, binding) result" where
  "binding_create X d revision r m =
     and_then (map_err BindingReplica (replica_runtime_unit_id X r revision)) (\<lambda>unit_id.
     let binding = binding_create_with_runtime_unit_id d r m unit_id in
     and_then (binding_validate_against X binding d revision r m) (\<lambda>_. Inr binding))"

definition binding_assign ::
    "binding \<Rightarrow> deployment \<Rightarrow> member \<Rightarrow> (binding, binding_error, unit) mutation" where
  "binding_assign self d m =
     (if dep_id d \<noteq> drb_deployment_id self \<or> dep_node_id d \<noteq> wm_node_id m
         \<or> dep_updated_at d < drb_updated_at self \<or> wm_replica_id m \<noteq> drb_replica_id self
      then (self, Inl PlacementBindingInconsistent)
      else (self\<lparr>drb_node_id := dep_node_id d,
                 drb_placement_generation := wm_placement_generation m,
                 drb_updated_at := dep_updated_at d\<rparr>, Inr ()))"

definition binding_propose_assignment ::
    "binding \<Rightarrow> uuid \<Rightarrow> timestamp \<Rightarrow> (binding_error, binding) result" where
  "binding_propose_assignment self node_id at =
     (let at = canonical_timestamp at in
      if drb_node_id self \<noteq> None \<or> is_nil node_id \<or> at < drb_updated_at self
      then Inl CannotProposeInitial
      else
        let candidate = self\<lparr>drb_node_id := Some node_id\<rparr>;
            candidate =
              (if drb_placement_generation candidate = 0
               then candidate\<lparr>drb_placement_generation := 1\<rparr> else candidate)
        in Inr (candidate\<lparr>drb_updated_at := at\<rparr>))"

definition placement_group_resource_claim_id :: "externals \<Rightarrow> binding \<Rightarrow> uuid" where
  "placement_group_resource_claim_id X self =
     ext_uuid_v5 X (drb_deployment_id self)
       (''a3s.cloud.placement-group-resource-claim.v1:'' @ ext_uuid_display X (drb_member_id self))"

definition is_current_runtime_assignment ::
    "externals \<Rightarrow> binding \<Rightarrow> deployment \<Rightarrow> 'a revision_scheme \<Rightarrow> replica \<Rightarrow> member
      \<Rightarrow> (binding_error, bool) result" where
  "is_current_runtime_assignment X self d revision r m =
     and_then (binding_validate_lineage X self d revision r m) (\<lambda>_.
     if wr_revision_id r \<noteq> drb_revision_id self
        \<or> wr_revision_generation r \<noteq> rv_generation revision
        \<or> wr_lifecycle r \<noteq> LcDesired
        \<or> drb_replica_generation self \<noteq> wr_generation r
        \<or> drb_placement_generation self \<noteq> wm_placement_generation m
        \<or> drb_node_id self \<noteq> wm_node_id m
     then Inr False
     else
       (case drb_node_id self of
          None \<Rightarrow> Inr False
        | Some node_id \<Rightarrow>
            and_then (map_err BindingReplica (replica_runtime_unit_id_for_member X r revision m))
              (\<lambda>unit_id.
                 if drb_runtime_unit_id self \<noteq> unit_id
                    \<or> wm_ordinal m = 0 \<and> dep_node_id d \<noteq> Some node_id
                 then Inl LiveAssignmentInconsistent else Inr True)))"

text \<open>The guard of \<open>reserve_new_claim_in_transaction\<close>, for the stored member and binding.\<close>

definition reservation_binding_matches :: "member \<Rightarrow> binding \<Rightarrow> uuid \<Rightarrow> binding \<Rightarrow> bool" where
  "reservation_binding_matches m persisted node_id proposed =
     (let member_matches =
        (case wm_node_id m of
           Some n \<Rightarrow> n = node_id \<and> wm_placement_generation m = drb_placement_generation proposed
         | None \<Rightarrow> checked_add (wm_placement_generation m) 1 = Some (drb_placement_generation proposed))
      in persisted = proposed \<or>
         member_matches \<and>
         binding_propose_assignment persisted node_id (drb_updated_at proposed) = Inr proposed)"

section \<open>Lemmas\<close>

lemma current_assignment_facts:
  assumes "is_current_runtime_assignment X b d revision r m = Inr True"
  shows "wr_lifecycle r = LcDesired" "wr_generation r = drb_replica_generation b"
    "wm_placement_generation m = drb_placement_generation b" "wm_node_id m = drb_node_id b"
    "drb_node_id b \<noteq> None"
  using assms
  by (simp_all add: is_current_runtime_assignment_def split: if_split_asm option.split_asm)

lemma member_run_released:
  "member_step\<^sup>*\<^sup>* s t \<Longrightarrow> wm_node_id s = None \<Longrightarrow> wm_node_id t \<noteq> None \<Longrightarrow>
   wm_placement_generation s < wm_placement_generation t"
  using member_run_generation [of s t] by auto

lemma binding_create_parts:
  assumes "binding_create X d revision r m = Inr b"
  shows "\<exists>unit_id. replica_runtime_unit_id X r revision = Inr unit_id \<and>
    b = binding_create_with_runtime_unit_id d r m unit_id \<and>
    binding_validate_against X b d revision r m = Inr ()"
  using assms by (auto simp: binding_create_def Let_def)

section \<open>Properties\<close>

text \<open>
  C25. A binding that is the live assignment loses that authority for good when its replica leaves the
  desired state or its member is released: in every later state of the replica and the member the
  check refuses it, whatever the deployment and revision, even if the same node is chosen again.
\<close>

theorem stale_binding_is_never_current_again:
  assumes "is_current_runtime_assignment X b d revision r m = Inr True"
    and "replica_step\<^sup>*\<^sup>* r r1" and "replica_step\<^sup>*\<^sup>* r1 r2"
    and "member_step\<^sup>*\<^sup>* m m1" and "member_step\<^sup>*\<^sup>* m1 m2"
    and "wr_lifecycle r1 \<noteq> LcDesired \<or> wm_node_id m1 = None"
  shows "is_current_runtime_assignment X b d' revision' r2 m2 \<noteq> Inr True"
proof
  assume later: "is_current_runtime_assignment X b d' revision' r2 m2 = Inr True"
  note now = current_assignment_facts [OF assms(1)] and then_ = current_assignment_facts [OF later]
  from assms(6) show False
  proof
    assume "wr_lifecycle r1 \<noteq> LcDesired"
    with replica_run_returns [OF assms(3)] replica_run_generation [OF assms(2)] now then_
    show False by simp
  next
    assume "wm_node_id m1 = None"
    with member_run_released [OF assms(5)] member_run_generation [OF assms(4)] now then_
    show False by auto
  qed
qed

text \<open>
  C26. Scheduling establishes the live assignment: when a resolving deployment that has a binding for
  the leader member is scheduled on a node and the member is placed there, \<open>assign\<close> accepts the
  placement and the resulting binding is current.
\<close>

theorem scheduled_binding_is_current:
  assumes "binding_create X d revision r m = Inr b"
    and "dep_status d = Resolving" and "wm_ordinal m = 0"
    and "deployment_schedule d n at = (d', Inr ())"
    and "member_place m n (dep_updated_at d') = (m', Inr ())"
  shows "\<exists>b'. binding_assign b d' m' = (b', Inr ()) \<and>
    is_current_runtime_assignment X b' d' revision r m' = Inr True"
proof -
  obtain unit_id where unit_id: "replica_runtime_unit_id X r revision = Inr unit_id"
    and b: "b = binding_create_with_runtime_unit_id d r m unit_id"
    and ok: "binding_validate_against X b d revision r m = Inr ()"
    using binding_create_parts [OF assms(1)] by blast
  have d': "dep_id d' = dep_id d" "dep_organization_id d' = dep_organization_id d"
    "dep_workload_id d' = dep_workload_id d" "dep_revision_id d' = dep_revision_id d"
    "dep_node_id d' = Some n" "dep_updated_at d \<le> dep_updated_at d'"
    using assms(2,4) by (auto simp: deployment_schedule_def deployment_transition_def
        deployment_canonical_time_def Let_def split: if_split_asm sum.split_asm)
  have step: "member_step m m'"
    using assms(5) by (rule member_step.place)
  have valid: "replica_validate X r = Inr ()" "member_validate X m = Inr ()"
    using ok by (auto simp: binding_validate_against_def binding_validate_common_def
        binding_validate_lineage_def)
  have m': "member_validate X m' = Inr ()" "wm_node_id m' = Some n" "wm_placement_generation m' \<noteq> 0"
    using member_step_valid [OF step valid(2)] assms(5)
    by (auto simp: member_place_def member_validate_def Let_def split: if_split_asm option.split_asm)
  have same: "member_identity m' = member_identity m"
    by (rule member_step_identity [OF step])
  let ?b' = "b\<lparr>drb_node_id := Some n, drb_placement_generation := wm_placement_generation m',
               drb_updated_at := dep_updated_at d'\<rparr>"
  have assign: "binding_assign b d' m' = (?b', Inr ())"
    using d' m' same ok
    by (auto simp: binding_assign_def b binding_create_with_runtime_unit_id_def member_identity_def
        binding_validate_against_def binding_validate_common_def binding_validate_lineage_def
        split: if_split_asm)
  have "is_current_runtime_assignment X ?b' d' revision r m' = Inr True"
    using ok valid m' d' same unit_id assms(3)
    by (simp add: is_current_runtime_assignment_def replica_runtime_unit_id_for_member_def
        binding_validate_against_def binding_validate_common_def binding_validate_lineage_def
        b binding_create_with_runtime_unit_id_def member_identity_def member_validate_def
        split: if_split_asm)
  with assign show ?thesis by blast
qed

text \<open>
  C27. The proposal for a member that is not placed passes the guard of the Postgres claim repository
  exactly when the member has never been placed. \<open>propose_assignment\<close> keeps a placement generation
  that is not zero while the guard asks for its successor, so the replacement deployment of a member
  that was released, by an evacuation for instance, can never reserve its resources.
\<close>

theorem reservation_guard_on_unplaced_member:
  assumes "binding_create X d revision r m = Inr b" and "wm_node_id m = None"
    and "binding_propose_assignment b n at = Inr c"
  shows "reservation_binding_matches m b n c \<longleftrightarrow> wm_placement_generation m = 0"
proof -
  have gen: "drb_placement_generation b = wm_placement_generation m"
    using binding_create_parts [OF assms(1)] by (auto simp: binding_create_with_runtime_unit_id_def)
  have c: "drb_node_id b = None" "drb_node_id c = Some n"
    "drb_placement_generation c =
      (if wm_placement_generation m = 0 then 1 else wm_placement_generation m)"
    "binding_propose_assignment b n (drb_updated_at c) = Inr c"
    using assms(3) gen by (auto simp: binding_propose_assignment_def Let_def split: if_split_asm)
  have "b \<noteq> c" using c(1,2) by auto
  moreover have "checked_add (wm_placement_generation m) 1 \<noteq> Some (wm_placement_generation m)"
    using checked_inc_neq by blast
  moreover have "checked_add (0 :: u64) 1 = Some 1"
    by (simp add: checked_add_def)
  ultimately show ?thesis
    using assms(2) c by (auto simp: reservation_binding_matches_def)
qed

subsection \<open>Witnesses\<close>

definition sample_bound_deployment :: deployment where
  "sample_bound_deployment = fst (deployment_resolve (deployment_create 20 2 1 11 30 9000) 9000)"

definition sample_unit_id :: string where
  "sample_unit_id = revision_runtime_unit_id sample_externals sample_revision"

text \<open>The first placement of the member on node 7, and the member after its release.\<close>

definition sample_placed_member :: member where
  "sample_placed_member = sample_member\<lparr>wm_node_id := Some 7, wm_placement_generation := 1,
     wm_aggregate_version := 2, wm_updated_at := 10000\<rparr>"

definition sample_released_member :: member where
  "sample_released_member = sample_member\<lparr>wm_placement_generation := 1, wm_aggregate_version := 3,
     wm_updated_at := 8000\<rparr>"

lemma sample_unit_id_valid:
  "\<not> is_blank sample_unit_id" "length sample_unit_id \<le> 512"
  "\<not> contains_any sample_unit_id [CHR 0x00, CHR 0x0D, CHR 0x0A]"
  by (simp_all add: sample_unit_id_def revision_runtime_unit_id_def sample_externals_def ws1_def ws2_def
      ws3_def contains_any_def list_ex_iff)

lemmas sample_binding_eval =
  sample_bound_deployment_def sample_replica_def sample_member_def sample_revision_def
  deployment_create_def deployment_resolve_def deployment_schedule_def deployment_transition_def
  deployment_canonical_time_def canonical_timestamp_def binding_create_with_runtime_unit_id_def
  replica_validate_def replica_deterministic_id_def member_validate_def member_deterministic_id_def
  Let_def

lemma sample_runtime_unit_id:
  "replica_runtime_unit_id sample_externals sample_replica sample_revision = Inr sample_unit_id"
  by (simp add: replica_runtime_unit_id_def sample_replica_def sample_revision_def sample_unit_id_def)

lemmas sample_runtime_unit_id_eval =
  sample_runtime_unit_id [unfolded sample_replica_def sample_revision_def]

lemma sample_binding_create:
  assumes "m \<in> {sample_member, sample_released_member}"
  shows "binding_create sample_externals sample_bound_deployment sample_revision sample_replica m =
    Inr (binding_create_with_runtime_unit_id sample_bound_deployment sample_replica m sample_unit_id)"
  using assms sample_unit_id_valid
  by (elim insertE emptyE) (simp_all add: binding_create_def sample_runtime_unit_id_eval
      binding_validate_against_def binding_validate_common_def binding_validate_lineage_def
      sample_released_member_def sample_binding_eval)

lemma sample_schedule:
  "\<exists>d'. deployment_schedule sample_bound_deployment 7 10000 = (d', Inr ()) \<and> dep_updated_at d' = 10000"
  by (simp add: sample_binding_eval)

lemma sample_place: "member_place sample_member 7 10000 = (sample_placed_member, Inr ())"
  by (simp add: member_place_def sample_member_def sample_placed_member_def canonical_timestamp_def
      checked_add_def Let_def)

theorem scheduled_binding_is_current_witness:
  "\<exists>b d'. is_current_runtime_assignment sample_externals b d' sample_revision sample_replica
     sample_placed_member = Inr True"
proof -
  obtain d' where d': "deployment_schedule sample_bound_deployment 7 10000 = (d', Inr ())"
    "dep_updated_at d' = 10000"
    using sample_schedule by blast
  have "dep_status sample_bound_deployment = Resolving" "wm_ordinal sample_member = 0"
    by (simp_all add: sample_binding_eval)
  from scheduled_binding_is_current [OF sample_binding_create this d'(1)] sample_place d'(2)
  show ?thesis by (metis insertI1)
qed

definition sample_current_binding :: binding where
  "sample_current_binding =
     (binding_create_with_runtime_unit_id sample_bound_deployment sample_replica sample_member
        sample_unit_id)
     \<lparr>drb_node_id := Some 7, drb_placement_generation := 1, drb_updated_at := 10000\<rparr>"

theorem stale_binding_is_never_current_again_witness:
  "is_current_runtime_assignment sample_externals sample_current_binding
     (fst (deployment_schedule sample_bound_deployment 7 10000)) sample_revision sample_replica
     (fst (member_place (fst (member_release_after_fencing sample_placed_member 7 11000)) 7 12000))
   \<noteq> Inr True"
proof -
  let ?d = "fst (deployment_schedule sample_bound_deployment 7 10000)"
  let ?m1 = "fst (member_release_after_fencing sample_placed_member 7 11000)"
  let ?m2 = "fst (member_place ?m1 7 12000)"
  have now: "is_current_runtime_assignment sample_externals sample_current_binding ?d sample_revision
      sample_replica sample_placed_member = Inr True"
    using sample_unit_id_valid
    by (simp add: is_current_runtime_assignment_def binding_validate_lineage_def
        replica_runtime_unit_id_for_member_def sample_runtime_unit_id_eval sample_current_binding_def
        sample_placed_member_def sample_binding_eval)
  have "member_release_after_fencing sample_placed_member 7 11000 = (?m1, Inr ())"
    and "member_place ?m1 7 12000 = (?m2, Inr ())" and released: "wm_node_id ?m1 = None"
    by (simp_all add: member_op_defs sample_placed_member_def sample_member_def canonical_timestamp_def
        checked_add_def)
  then have "member_step sample_placed_member ?m1" "member_step ?m1 ?m2"
    by (blast intro: member_step.intros)+
  then have "member_step\<^sup>*\<^sup>* sample_placed_member ?m1" "member_step\<^sup>*\<^sup>* ?m1 ?m2"
    by simp_all
  from stale_binding_is_never_current_again [OF now rtranclp.rtrancl_refl rtranclp.rtrancl_refl this]
    released
  show ?thesis by blast
qed

theorem reservation_guard_on_unplaced_member_witness:
  "\<exists>b c. binding_propose_assignment b 8 11000 = Inr c \<and>
     \<not> reservation_binding_matches sample_released_member b 8 c"
proof -
  let ?b = "binding_create_with_runtime_unit_id sample_bound_deployment sample_replica
    sample_released_member sample_unit_id"
  obtain c where c: "binding_propose_assignment ?b 8 11000 = Inr c"
    by (simp add: binding_propose_assignment_def sample_released_member_def sample_binding_eval)
  have "wm_node_id sample_released_member = None" "wm_placement_generation sample_released_member \<noteq> 0"
    by (simp_all add: sample_released_member_def sample_member_def)
  with reservation_guard_on_unplaced_member [OF sample_binding_create _ c] c show ?thesis by blast
qed

end
