(* ===== verification/Resource_Claim.thy ===== *)
theory Resource_Claim
  imports Resource Replica_Binding
begin

text \<open>
  The ResourceClaim aggregate, \<open>workloads/domain/entities/resource_claim.rs\<close>: the durable claim of a
  replica member on hard resource slots of a node, from its reservation in the database through
  preparation on the agent and binding to a Runtime unit to its release. The file's reservations
  (single and atomic batches), evidence types, digests and every method are modelled;
  \<open>node_binding\<close>, which builds a message of the node protocol, is in the theory of that protocol.
\<close>

section \<open>States and errors\<close>

datatype claim_state =
    ReservedInDb | PreparingOnAgent | PreparedOnAgent | BoundToRuntimeUnit
  | ClaimReleasing | ClaimReleased | ClaimOrphaned

datatype claim_error =
    UnsupportedClaimState string
  | ClaimResource resource_error
  | DigestInvalid string
  | ReleaseEvidenceTimeInvalid
  | ReleaseCommandInvalid
  | FencingGenerationInvalid
  | AtomicSize
  | AtomicCrossesOrganizations
  | AtomicRepeatsClaim
  | AtomicRepeatsMember
  | ReservationIdentityInvalid
  | RequestAbsent string
  | RequestExceeds string
  | SlotsDoNotMatch
  | ClaimTimeRegressed
  | PreparationCommandChanged
  | CannotBeginPreparation
  | PreparedEvidenceChanged
  | PreparationStale
  | BoundEvidenceChanged
  | BindingEvidenceMismatch
  | ReleaseCommandChanged
  | CannotBeginRelease
  | ClaimGenerationOverflowed
  | ReleasedEvidenceChanged
  | ReleaseEvidenceStale
  | ReleaseWrongCommand
  | OrphanFailureChanged
  | ReleasedCannotOrphan
  | ClaimIdentityInvalid
  | ClaimDigestMismatch
  | ReleaseEvidenceWrongSlots
  | ClaimStateMismatch
  | ClaimVersionOverflowed
  | ClaimEncodingFailed
  | RuntimeIdentityInvalid
  | ClaimFailureInvalid

fun claim_state_as_str :: "claim_state \<Rightarrow> string" where
  "claim_state_as_str ReservedInDb = ''reserved_in_db''"
| "claim_state_as_str PreparingOnAgent = ''preparing_on_agent''"
| "claim_state_as_str PreparedOnAgent = ''prepared_on_agent''"
| "claim_state_as_str BoundToRuntimeUnit = ''bound_to_runtime_unit''"
| "claim_state_as_str ClaimReleasing = ''releasing''"
| "claim_state_as_str ClaimReleased = ''released''"
| "claim_state_as_str ClaimOrphaned = ''orphaned''"

definition claim_state_parse :: "string \<Rightarrow> (claim_error, claim_state) result" where
  "claim_state_parse v =
     (if v = ''reserved_in_db'' then Inr ReservedInDb
      else if v = ''preparing_on_agent'' then Inr PreparingOnAgent
      else if v = ''prepared_on_agent'' then Inr PreparedOnAgent
      else if v = ''bound_to_runtime_unit'' then Inr BoundToRuntimeUnit
      else if v = ''releasing'' then Inr ClaimReleasing
      else if v = ''released'' then Inr ClaimReleased
      else if v = ''orphaned'' then Inr ClaimOrphaned
      else Inl (UnsupportedClaimState v))"

section \<open>Helpers of the file\<close>

definition validate_runtime_identity :: "string \<Rightarrow> u64 \<Rightarrow> (claim_error, unit) result" where
  "validate_runtime_identity unit_id generation =
     (if is_blank unit_id \<or> length unit_id > 512
         \<or> contains_any unit_id [CHR 0x00, CHR 0x0D, CHR 0x0A] \<or> generation = 0
      then Inl RuntimeIdentityInvalid else Inr ())"

definition claim_validate_sha256 :: "string \<Rightarrow> string \<Rightarrow> (claim_error, unit) result" where
  "claim_validate_sha256 v label =
     (if \<not> is_sha256_digest v then Inl (DigestInvalid label) else Inr ())"

definition claim_validate_failure :: "string \<Rightarrow> (claim_error, unit) result" where
  "claim_validate_failure v =
     (if is_blank v \<or> length v > 16 * 1024 \<or> contains_any v [CHR 0x00, CHR 0x0D, CHR 0x0A]
      then Inl ClaimFailureInvalid else Inr ())"

definition slot_requests_match_bindings :: "slot_request list \<Rightarrow> slot_binding list \<Rightarrow> bool" where
  "slot_requests_match_bindings requests bindings \<longleftrightarrow>
     length requests = length bindings \<and>
     list_all (\<lambda>(r, b). sr_kind r = sb_kind b
         \<and> sr_stable_resource_id r = sb_stable_resource_id b
         \<and> sr_allocation r = sb_allocation b) (zip requests bindings)"

section \<open>Evidence\<close>

record binding_evidence =
  be_runtime_unit_id :: string
  be_runtime_generation :: u64
  be_binding_digest :: string
  be_slots :: "slot_evidence list"
  be_observed_at :: timestamp

definition binding_evidence_canonicalize :: "binding_evidence \<Rightarrow> binding_evidence" where
  "binding_evidence_canonicalize e = e\<lparr>be_observed_at := canonical_timestamp (be_observed_at e)\<rparr>"

definition binding_evidence_validate :: "binding_evidence \<Rightarrow> (claim_error, unit) result" where
  "binding_evidence_validate e =
     and_then (validate_runtime_identity (be_runtime_unit_id e) (be_runtime_generation e)) (\<lambda>_.
     and_then (claim_validate_sha256 (be_binding_digest e) ''Runtime resource binding digest'') (\<lambda>_.
     map_err ClaimResource (validate_slot_evidence (be_slots e))))"

datatype release_evidence =
    DatabaseReservationCancelled string "slot_evidence list" timestamp
  | AgentReleased uuid "slot_evidence list" string timestamp
  | ProviderNotFound "slot_evidence list" string timestamp
  | ComputeFenced u64 "slot_evidence list" string timestamp

fun release_evidence_canonicalize :: "release_evidence \<Rightarrow> release_evidence" where
  "release_evidence_canonicalize (DatabaseReservationCancelled d s at) =
     DatabaseReservationCancelled d s (canonical_timestamp at)"
| "release_evidence_canonicalize (AgentReleased c s d at) =
     AgentReleased c s d (canonical_timestamp at)"
| "release_evidence_canonicalize (ProviderNotFound s d at) =
     ProviderNotFound s d (canonical_timestamp at)"
| "release_evidence_canonicalize (ComputeFenced g s d at) =
     ComputeFenced g s d (canonical_timestamp at)"

text \<open>The checks that the three kinds of evidence with an evidence digest share.\<close>

definition release_evidence_tail ::
    "slot_evidence list \<Rightarrow> string \<Rightarrow> timestamp \<Rightarrow> (claim_error, unit) result" where
  "release_evidence_tail slots evidence_digest observed_at =
     and_then (map_err ClaimResource (validate_slot_evidence slots)) (\<lambda>_.
     and_then (claim_validate_sha256 evidence_digest ''resource release evidence digest'') (\<lambda>_.
     if timestamp_millis observed_at \<le> 0 then Inl ReleaseEvidenceTimeInvalid else Inr ()))"

fun release_evidence_validate :: "release_evidence \<Rightarrow> (claim_error, unit) result" where
  "release_evidence_validate (DatabaseReservationCancelled reservation_digest slots observed_at) =
     and_then (claim_validate_sha256 reservation_digest ''cancelled database reservation digest'') (\<lambda>_.
     and_then (map_err ClaimResource (validate_slot_evidence slots)) (\<lambda>_.
     if timestamp_millis observed_at \<le> 0 then Inl ReleaseEvidenceTimeInvalid else Inr ()))"
| "release_evidence_validate (AgentReleased command_id slots evidence_digest observed_at) =
     (if is_nil command_id then Inl ReleaseCommandInvalid
      else release_evidence_tail slots evidence_digest observed_at)"
| "release_evidence_validate (ProviderNotFound slots evidence_digest observed_at) =
     release_evidence_tail slots evidence_digest observed_at"
| "release_evidence_validate (ComputeFenced instance_generation slots evidence_digest observed_at) =
     (if instance_generation = 0 then Inl FencingGenerationInvalid
      else release_evidence_tail slots evidence_digest observed_at)"

fun release_evidence_slots :: "release_evidence \<Rightarrow> slot_evidence list" where
  "release_evidence_slots (DatabaseReservationCancelled d s at) = s"
| "release_evidence_slots (AgentReleased c s d at) = s"
| "release_evidence_slots (ProviderNotFound s d at) = s"
| "release_evidence_slots (ComputeFenced g s d at) = s"

fun release_evidence_observed_at :: "release_evidence \<Rightarrow> timestamp" where
  "release_evidence_observed_at (DatabaseReservationCancelled d s at) = at"
| "release_evidence_observed_at (AgentReleased c s d at) = at"
| "release_evidence_observed_at (ProviderNotFound s d at) = at"
| "release_evidence_observed_at (ComputeFenced g s d at) = at"

section \<open>Reservations\<close>

record reservation =
  rs_id :: uuid
  rs_binding :: binding
  rs_node_id :: uuid
  rs_inventory :: inventory
  rs_topology_digest :: string
  rs_slots :: "slot_request list"
  rs_reserved_at :: timestamp

definition request_within_inventory ::
    "inventory \<Rightarrow> slot_request \<Rightarrow> (claim_error, unit) result" where
  "request_within_inventory i request =
     and_then (ok_or (RequestAbsent (sr_stable_resource_id request)) (inventory_find i (sr_key request)))
       (\<lambda>slot. if \<not> allocation_contains (ns_allocation slot) (sr_allocation request)
               then Inl (RequestExceeds (sr_stable_resource_id request)) else Inr ())"

definition reservation_validate :: "externals \<Rightarrow> reservation \<Rightarrow> (claim_error, unit) result" where
  "reservation_validate X self =
     (let b = rs_binding self in
      and_then (map_err ClaimResource (inventory_validate X (rs_inventory self))) (\<lambda>_.
      if is_nil (rs_id self) \<or> is_nil (drb_organization_id b) \<or> is_nil (drb_project_id b)
         \<or> is_nil (drb_environment_id b) \<or> is_nil (drb_workload_id b)
         \<or> is_nil (drb_deployment_id b) \<or> is_nil (drb_revision_id b) \<or> is_nil (drb_replica_id b)
         \<or> drb_replica_generation b = 0 \<or> is_nil (drb_member_id b)
         \<or> drb_node_id b \<noteq> Some (rs_node_id self) \<or> drb_placement_generation b = 0
         \<or> drb_runtime_generation b \<noteq> drb_replica_generation b
         \<or> inv_node_id (rs_inventory self) \<noteq> rs_node_id self
         \<or> canonical_timestamp (rs_reserved_at self) < canonical_timestamp (drb_updated_at b)
      then Inl ReservationIdentityInvalid
      else
      and_then (claim_validate_sha256 (rs_topology_digest self) ''resource topology digest'') (\<lambda>_.
      and_then (validate_runtime_identity (drb_runtime_unit_id b) (drb_runtime_generation b)) (\<lambda>_.
      and_then (map_err ClaimResource (validate_slot_requests (rs_slots self))) (\<lambda>_.
      try_for_each (request_within_inventory (rs_inventory self)) (rs_slots self))))))"

text \<open>The two \<open>BTreeSet\<close> loops of \<open>AtomicResourceClaimReservation::new\<close>, interleaved as in the code.\<close>

type_synonym member_generation = "uuid \<times> u64 \<times> uuid"

definition reservation_member_generation :: "reservation \<Rightarrow> member_generation" where
  "reservation_member_generation r =
     (drb_replica_id (rs_binding r), drb_replica_generation (rs_binding r), drb_member_id (rs_binding r))"

fun atomic_check_distinct ::
    "uuid list \<Rightarrow> member_generation list \<Rightarrow> reservation list \<Rightarrow> (claim_error, unit) result" where
  "atomic_check_distinct ids members [] = Inr ()"
| "atomic_check_distinct ids members (r # rs) =
     (if rs_id r \<in> set ids then Inl AtomicRepeatsClaim
      else if reservation_member_generation r \<in> set members then Inl AtomicRepeatsMember
      else atomic_check_distinct (rs_id r # ids) (reservation_member_generation r # members) rs)"

definition reservation_order :: "reservation \<Rightarrow> uuid \<times> uuid \<times> uuid \<times> uuid \<times> uuid" where
  "reservation_order r =
     (rs_node_id r, drb_workload_id (rs_binding r), drb_replica_id (rs_binding r),
      drb_member_id (rs_binding r), rs_id r)"

definition atomic_reservation_new ::
    "externals \<Rightarrow> reservation list \<Rightarrow> (claim_error, reservation list) result" where
  "atomic_reservation_new X reservations =
     (if reservations = [] \<or> length reservations > 256 then Inl AtomicSize
      else
      and_then (try_for_each (reservation_validate X) reservations) (\<lambda>_.
      let organization_id = drb_organization_id (rs_binding (hd reservations)) in
      if list_ex (\<lambda>r. drb_organization_id (rs_binding r) \<noteq> organization_id) reservations
      then Inl AtomicCrossesOrganizations
      else
      and_then (atomic_check_distinct [] [] reservations) (\<lambda>_.
      Inr (sort_key reservation_order reservations))))"

section \<open>The claim\<close>

record claim =
  rc_id :: uuid
  rc_organization_id :: uuid
  rc_project_id :: uuid
  rc_environment_id :: uuid
  rc_workload_id :: uuid
  rc_deployment_id :: uuid
  rc_replica_id :: uuid
  rc_replica_generation :: u64
  rc_member_id :: uuid
  rc_placement_generation :: u64
  rc_node_id :: uuid
  rc_inventory_generation :: u64
  rc_inventory_digest :: string
  rc_runtime_unit_id :: string
  rc_runtime_generation :: u64
  rc_topology_digest :: string
  rc_slots :: "slot_binding list"
  rc_reservation_digest :: string
  rc_claim_generation :: u64
  rc_claim_digest :: string
  rc_state :: claim_state
  rc_prepare_command_id :: "uuid option"
  rc_prepared_binding_digest :: "string option"
  rc_release_command_id :: "uuid option"
  rc_release_evidence :: "release_evidence option"
  rc_failure :: "string option"
  rc_aggregate_version :: u64
  rc_created_at :: timestamp
  rc_updated_at :: timestamp
  rc_prepared_at :: "timestamp option"
  rc_bound_at :: "timestamp option"
  rc_release_requested_at :: "timestamp option"
  rc_released_at :: "timestamp option"
  rc_orphaned_at :: "timestamp option"

type_synonym claim_mutation = "(claim, claim_error, unit) mutation"

definition reservation_matches :: "reservation \<Rightarrow> claim \<Rightarrow> bool" where
  "reservation_matches self c \<longleftrightarrow>
     (let b = rs_binding self in
      rs_id self = rc_id c
      \<and> drb_organization_id b = rc_organization_id c
      \<and> drb_project_id b = rc_project_id c
      \<and> drb_environment_id b = rc_environment_id c
      \<and> drb_workload_id b = rc_workload_id c
      \<and> drb_deployment_id b = rc_deployment_id c
      \<and> drb_replica_id b = rc_replica_id c
      \<and> drb_replica_generation b = rc_replica_generation c
      \<and> drb_member_id b = rc_member_id c
      \<and> drb_placement_generation b = rc_placement_generation c
      \<and> rs_node_id self = rc_node_id c
      \<and> inv_generation (rs_inventory self) = rc_inventory_generation c
      \<and> inv_digest (rs_inventory self) = rc_inventory_digest c
      \<and> drb_runtime_unit_id b = rc_runtime_unit_id c
      \<and> drb_runtime_generation b = rc_runtime_generation c
      \<and> rs_topology_digest self = rc_topology_digest c
      \<and> slot_requests_match_bindings (rs_slots self) (rc_slots c))"

definition claim_slot_evidence :: "claim \<Rightarrow> slot_evidence list" where
  "claim_slot_evidence c = map slot_binding_evidence (rc_slots c)"

definition slot_evidence_matches :: "claim \<Rightarrow> slot_evidence list \<Rightarrow> bool" where
  "slot_evidence_matches c evidence \<longleftrightarrow> evidence = claim_slot_evidence c"

definition binding_evidence_matches :: "claim \<Rightarrow> binding_evidence \<Rightarrow> bool" where
  "binding_evidence_matches c e \<longleftrightarrow>
     be_runtime_unit_id e = rc_runtime_unit_id c
     \<and> be_runtime_generation e = rc_runtime_generation c
     \<and> rc_prepared_binding_digest c = Some (be_binding_digest e)
     \<and> be_slots e = claim_slot_evidence c"

definition reservation_slot_json :: "slot_binding \<Rightarrow> json" where
  "reservation_slot_json s =
     JObj [(''kind'', JStr (resource_kind_as_str (sb_kind s))),
           (''stableResourceId'', JStr (sb_stable_resource_id s)),
           (''allocation'', allocation_json (sb_allocation s))]"

definition slot_binding_json :: "slot_binding \<Rightarrow> json" where
  "slot_binding_json s =
     JObj [(''kind'', JStr (resource_kind_as_str (sb_kind s))),
           (''stableResourceId'', JStr (sb_stable_resource_id s)),
           (''allocation'', allocation_json (sb_allocation s)),
           (''slotGeneration'', JNum (unat (sb_slot_generation s))),
           (''fenceToken'', JUuid (sb_fence_token s))]"

definition calculate_reservation_digest :: "externals \<Rightarrow> claim \<Rightarrow> (claim_error, string) result" where
  "calculate_reservation_digest X c =
     ok_or ClaimEncodingFailed (sha256_of_json X (JObj
       [(''claimId'', JUuid (rc_id c)),
        (''organizationId'', JUuid (rc_organization_id c)),
        (''projectId'', JUuid (rc_project_id c)),
        (''environmentId'', JUuid (rc_environment_id c)),
        (''workloadId'', JUuid (rc_workload_id c)),
        (''deploymentId'', JUuid (rc_deployment_id c)),
        (''replicaId'', JUuid (rc_replica_id c)),
        (''replicaGeneration'', JNum (unat (rc_replica_generation c))),
        (''memberId'', JUuid (rc_member_id c)),
        (''placementGeneration'', JNum (unat (rc_placement_generation c))),
        (''nodeId'', JUuid (rc_node_id c)),
        (''inventoryGeneration'', JNum (unat (rc_inventory_generation c))),
        (''inventoryDigest'', JStr (rc_inventory_digest c)),
        (''runtimeUnitId'', JStr (rc_runtime_unit_id c)),
        (''runtimeGeneration'', JNum (unat (rc_runtime_generation c))),
        (''topologyDigest'', JStr (rc_topology_digest c)),
        (''slots'', JArr (map reservation_slot_json (rc_slots c)))]))"

definition calculate_claim_digest :: "externals \<Rightarrow> claim \<Rightarrow> (claim_error, string) result" where
  "calculate_claim_digest X c =
     ok_or ClaimEncodingFailed (sha256_of_json X (JObj
       [(''reservationDigest'', JStr (rc_reservation_digest c)),
        (''claimGeneration'', JNum (unat (rc_claim_generation c))),
        (''slots'', JArr (map slot_binding_json (rc_slots c)))]))"

definition claim_canonical_time :: "claim \<Rightarrow> timestamp \<Rightarrow> (claim_error, timestamp) result" where
  "claim_canonical_time c at =
     (let at = canonical_timestamp at in
      if at < rc_updated_at c then Inl ClaimTimeRegressed else Inr at)"

definition claim_bump :: "claim \<Rightarrow> timestamp \<Rightarrow> claim_mutation" where
  "claim_bump c at =
     (case checked_add (rc_aggregate_version c) 1 of
        None \<Rightarrow> (c, Inl ClaimVersionOverflowed)
      | Some v \<Rightarrow> (c\<lparr>rc_aggregate_version := v, rc_updated_at := at\<rparr>, Inr ()))"

definition claim_state_valid :: "claim \<Rightarrow> bool" where
  "claim_state_valid c =
     (case rc_state c of
        ReservedInDb \<Rightarrow>
          rc_prepare_command_id c = None \<and> rc_prepared_binding_digest c = None
          \<and> rc_prepared_at c = None \<and> rc_bound_at c = None \<and> rc_release_command_id c = None
          \<and> rc_release_requested_at c = None \<and> rc_release_evidence c = None
          \<and> rc_released_at c = None \<and> rc_failure c = None \<and> rc_orphaned_at c = None
      | PreparingOnAgent \<Rightarrow>
          rc_prepare_command_id c \<noteq> None \<and> rc_prepared_binding_digest c = None
          \<and> rc_prepared_at c = None \<and> rc_bound_at c = None \<and> rc_release_command_id c = None
          \<and> rc_release_evidence c = None \<and> rc_failure c = None
      | PreparedOnAgent \<Rightarrow>
          rc_prepare_command_id c \<noteq> None \<and> rc_prepared_binding_digest c \<noteq> None
          \<and> rc_prepared_at c \<noteq> None \<and> rc_bound_at c = None \<and> rc_release_command_id c = None
          \<and> rc_release_evidence c = None \<and> rc_failure c = None
      | BoundToRuntimeUnit \<Rightarrow>
          rc_prepare_command_id c \<noteq> None \<and> rc_prepared_binding_digest c \<noteq> None
          \<and> rc_prepared_at c \<noteq> None \<and> rc_bound_at c \<noteq> None \<and> rc_release_command_id c = None
          \<and> rc_release_evidence c = None \<and> rc_failure c = None
      | ClaimReleasing \<Rightarrow>
          rc_release_command_id c \<noteq> None \<and> rc_release_requested_at c \<noteq> None
          \<and> rc_release_evidence c = None \<and> rc_released_at c = None
      | ClaimReleased \<Rightarrow>
          rc_release_evidence c \<noteq> None \<and> rc_released_at c \<noteq> None \<and> rc_failure c = None
      | ClaimOrphaned \<Rightarrow>
          rc_failure c \<noteq> None \<and> rc_orphaned_at c \<noteq> None \<and> rc_release_evidence c = None
          \<and> rc_released_at c = None)"

definition claim_validate :: "externals \<Rightarrow> claim \<Rightarrow> (claim_error, unit) result" where
  "claim_validate X c =
     (if is_nil (rc_id c) \<or> is_nil (rc_organization_id c) \<or> is_nil (rc_project_id c)
         \<or> is_nil (rc_environment_id c) \<or> is_nil (rc_workload_id c) \<or> is_nil (rc_deployment_id c)
         \<or> is_nil (rc_replica_id c) \<or> rc_replica_generation c = 0 \<or> is_nil (rc_member_id c)
         \<or> rc_placement_generation c = 0 \<or> is_nil (rc_node_id c) \<or> rc_inventory_generation c = 0
         \<or> rc_runtime_generation c \<noteq> rc_replica_generation c \<or> rc_claim_generation c = 0
         \<or> rc_aggregate_version c = 0 \<or> rc_updated_at c < rc_created_at c
      then Inl ClaimIdentityInvalid
      else
      and_then (claim_validate_sha256 (rc_inventory_digest c) ''resource inventory digest'') (\<lambda>_.
      and_then (claim_validate_sha256 (rc_topology_digest c) ''resource topology digest'') (\<lambda>_.
      and_then (claim_validate_sha256 (rc_reservation_digest c) ''resource reservation digest'') (\<lambda>_.
      and_then (claim_validate_sha256 (rc_claim_digest c) ''resource claim digest'') (\<lambda>_.
      and_then (validate_runtime_identity (rc_runtime_unit_id c) (rc_runtime_generation c)) (\<lambda>_.
      and_then (map_err ClaimResource (validate_slot_bindings (rc_slots c))) (\<lambda>_.
      and_then (calculate_reservation_digest X c) (\<lambda>reservation_digest.
      if reservation_digest \<noteq> rc_reservation_digest c then Inl ClaimDigestMismatch
      else
      and_then (calculate_claim_digest X c) (\<lambda>claim_digest.
      if claim_digest \<noteq> rc_claim_digest c then Inl ClaimDigestMismatch
      else
      and_then (case rc_prepared_binding_digest c of None \<Rightarrow> Inr ()
                | Some d \<Rightarrow> claim_validate_sha256 d ''prepared resource binding digest'') (\<lambda>_.
      and_then (case rc_failure c of None \<Rightarrow> Inr () | Some f \<Rightarrow> claim_validate_failure f) (\<lambda>_.
      and_then (case rc_release_evidence c of None \<Rightarrow> Inr ()
                | Some e \<Rightarrow>
                    and_then (release_evidence_validate e) (\<lambda>_.
                    if \<not> slot_evidence_matches c (release_evidence_slots e)
                    then Inl ReleaseEvidenceWrongSlots else Inr ())) (\<lambda>_.
      if \<not> claim_state_valid c then Inl ClaimStateMismatch else Inr ()))))))))))))"

definition claim_reserve ::
    "externals \<Rightarrow> reservation \<Rightarrow> slot_binding list \<Rightarrow> (claim_error, claim) result" where
  "claim_reserve X reservation slots =
     and_then (reservation_validate X reservation) (\<lambda>_.
     if \<not> slot_requests_match_bindings (rs_slots reservation) slots then Inl SlotsDoNotMatch
     else
     and_then (map_err ClaimResource (validate_slot_bindings slots)) (\<lambda>_.
     let b = rs_binding reservation;
         reserved_at = canonical_timestamp (rs_reserved_at reservation);
         c = \<lparr>rc_id = rs_id reservation, rc_organization_id = drb_organization_id b,
              rc_project_id = drb_project_id b, rc_environment_id = drb_environment_id b,
              rc_workload_id = drb_workload_id b, rc_deployment_id = drb_deployment_id b,
              rc_replica_id = drb_replica_id b, rc_replica_generation = drb_replica_generation b,
              rc_member_id = drb_member_id b, rc_placement_generation = drb_placement_generation b,
              rc_node_id = rs_node_id reservation,
              rc_inventory_generation = inv_generation (rs_inventory reservation),
              rc_inventory_digest = inv_digest (rs_inventory reservation),
              rc_runtime_unit_id = drb_runtime_unit_id b,
              rc_runtime_generation = drb_runtime_generation b,
              rc_topology_digest = rs_topology_digest reservation, rc_slots = slots,
              rc_reservation_digest = [], rc_claim_generation = 1, rc_claim_digest = [],
              rc_state = ReservedInDb, rc_prepare_command_id = None,
              rc_prepared_binding_digest = None, rc_release_command_id = None,
              rc_release_evidence = None, rc_failure = None, rc_aggregate_version = 1,
              rc_created_at = reserved_at, rc_updated_at = reserved_at, rc_prepared_at = None,
              rc_bound_at = None, rc_release_requested_at = None, rc_released_at = None,
              rc_orphaned_at = None\<rparr>
     in
     and_then (calculate_reservation_digest X c) (\<lambda>reservation_digest.
     let c = c\<lparr>rc_reservation_digest := reservation_digest\<rparr> in
     and_then (calculate_claim_digest X c) (\<lambda>claim_digest.
     let c = c\<lparr>rc_claim_digest := claim_digest\<rparr> in
     and_then (claim_validate X c) (\<lambda>_. Inr c)))))"

section \<open>Methods\<close>

definition claim_begin_preparation :: "claim \<Rightarrow> uuid \<Rightarrow> timestamp \<Rightarrow> claim_mutation" where
  "claim_begin_preparation c command_id at =
     (case claim_canonical_time c at of
        Inl e \<Rightarrow> (c, Inl e)
      | Inr at \<Rightarrow>
          if rc_state c = PreparingOnAgent then
            (c, if rc_prepare_command_id c = Some command_id then Inr ()
                else Inl PreparationCommandChanged)
          else if rc_state c \<noteq> ReservedInDb \<or> is_nil command_id
          then (c, Inl CannotBeginPreparation)
          else claim_bump (c\<lparr>rc_state := PreparingOnAgent,
                             rc_prepare_command_id := Some command_id\<rparr>) at)"

definition claim_record_prepared ::
    "claim \<Rightarrow> uuid \<Rightarrow> string \<Rightarrow> timestamp \<Rightarrow> claim_mutation" where
  "claim_record_prepared c command_id binding_digest at =
     (case and_then (claim_canonical_time c at) (\<lambda>at.
             and_then (claim_validate_sha256 binding_digest ''prepared resource binding digest'')
               (\<lambda>_. Inr at)) of
        Inl e \<Rightarrow> (c, Inl e)
      | Inr at \<Rightarrow>
          if rc_state c = PreparedOnAgent then
            (c, if rc_prepare_command_id c = Some command_id
                   \<and> rc_prepared_binding_digest c = Some binding_digest
                then Inr () else Inl PreparedEvidenceChanged)
          else if rc_state c \<noteq> PreparingOnAgent \<or> rc_prepare_command_id c \<noteq> Some command_id
          then (c, Inl PreparationStale)
          else claim_bump (c\<lparr>rc_state := PreparedOnAgent,
                             rc_prepared_binding_digest := Some binding_digest,
                             rc_prepared_at := Some at\<rparr>) at)"

definition claim_bind :: "claim \<Rightarrow> binding_evidence \<Rightarrow> timestamp \<Rightarrow> claim_mutation" where
  "claim_bind c evidence at =
     (let evidence = binding_evidence_canonicalize evidence in
      case and_then (claim_canonical_time c at) (\<lambda>at.
             and_then (binding_evidence_validate evidence) (\<lambda>_. Inr at)) of
        Inl e \<Rightarrow> (c, Inl e)
      | Inr at \<Rightarrow>
          if rc_state c = BoundToRuntimeUnit then
            (c, if binding_evidence_matches c evidence then Inr () else Inl BoundEvidenceChanged)
          else if rc_state c \<noteq> PreparedOnAgent \<or> \<not> binding_evidence_matches c evidence
                  \<or> be_observed_at evidence > at
          then (c, Inl BindingEvidenceMismatch)
          else claim_bump (c\<lparr>rc_state := BoundToRuntimeUnit,
                             rc_bound_at := Some (canonical_timestamp (be_observed_at evidence))\<rparr>) at)"

definition claim_begin_release ::
    "externals \<Rightarrow> claim \<Rightarrow> uuid \<Rightarrow> timestamp \<Rightarrow> claim_mutation" where
  "claim_begin_release X c command_id at =
     (case claim_canonical_time c at of
        Inl e \<Rightarrow> (c, Inl e)
      | Inr at \<Rightarrow>
          if rc_state c = ClaimReleasing then
            (c, if rc_release_command_id c = Some command_id then Inr ()
                else Inl ReleaseCommandChanged)
          else if rc_state c \<notin> {PreparedOnAgent, BoundToRuntimeUnit, ClaimOrphaned}
                  \<or> is_nil command_id
          then (c, Inl CannotBeginRelease)
          else
            (case checked_add (rc_claim_generation c) 1 of
               None \<Rightarrow> (c, Inl ClaimGenerationOverflowed)
             | Some g \<Rightarrow>
                 let c = c\<lparr>rc_claim_generation := g\<rparr> in
                 (case calculate_claim_digest X c of
                    Inl e \<Rightarrow> (c, Inl e)
                  | Inr digest \<Rightarrow>
                      claim_bump (c\<lparr>rc_claim_digest := digest, rc_state := ClaimReleasing,
                                    rc_release_command_id := Some command_id,
                                    rc_release_requested_at := Some at\<rparr>) at)))"

definition claim_record_released :: "claim \<Rightarrow> release_evidence \<Rightarrow> timestamp \<Rightarrow> claim_mutation" where
  "claim_record_released c evidence at =
     (let evidence = release_evidence_canonicalize evidence in
      case and_then (claim_canonical_time c at) (\<lambda>at.
             and_then (release_evidence_validate evidence) (\<lambda>_. Inr at)) of
        Inl e \<Rightarrow> (c, Inl e)
      | Inr at \<Rightarrow>
          if rc_state c = ClaimReleased then
            (c, if rc_release_evidence c = Some evidence then Inr () else Inl ReleasedEvidenceChanged)
          else
            let database_cancellation_matches =
                  (case evidence of
                     DatabaseReservationCancelled reservation_digest _ _ \<Rightarrow>
                       rc_state c = ReservedInDb \<and> reservation_digest = rc_reservation_digest c
                   | _ \<Rightarrow> False);
                issued_release_matches =
                  rc_state c \<in> {ClaimReleasing, ClaimOrphaned} \<and>
                  (case evidence of DatabaseReservationCancelled _ _ _ \<Rightarrow> False | _ \<Rightarrow> True)
            in
            if \<not> database_cancellation_matches \<and> \<not> issued_release_matches
               \<or> release_evidence_observed_at evidence > at
               \<or> \<not> slot_evidence_matches c (release_evidence_slots evidence)
            then (c, Inl ReleaseEvidenceStale)
            else if (case evidence of
                       AgentReleased command_id _ _ _ \<Rightarrow>
                         rc_state c \<noteq> ClaimReleasing \<or> rc_release_command_id c \<noteq> Some command_id
                     | _ \<Rightarrow> False)
            then (c, Inl ReleaseWrongCommand)
            else claim_bump
                   (c\<lparr>rc_state := ClaimReleased,
                      rc_released_at :=
                        Some (canonical_timestamp (release_evidence_observed_at evidence)),
                      rc_release_evidence := Some evidence, rc_failure := None\<rparr>) at)"

definition claim_cancel_database_reservation :: "claim \<Rightarrow> timestamp \<Rightarrow> claim_mutation" where
  "claim_cancel_database_reservation c at =
     claim_record_released c
       (DatabaseReservationCancelled (rc_reservation_digest c) (claim_slot_evidence c)
          (canonical_timestamp at)) at"

definition claim_orphan :: "claim \<Rightarrow> string \<Rightarrow> timestamp \<Rightarrow> claim_mutation" where
  "claim_orphan c failure at =
     (case and_then (claim_canonical_time c at) (\<lambda>at.
             and_then (claim_validate_failure failure) (\<lambda>_. Inr at)) of
        Inl e \<Rightarrow> (c, Inl e)
      | Inr at \<Rightarrow>
          if rc_state c = ClaimOrphaned then
            (c, if rc_failure c = Some failure then Inr () else Inl OrphanFailureChanged)
          else if rc_state c = ClaimReleased then (c, Inl ReleasedCannotOrphan)
          else claim_bump (c\<lparr>rc_state := ClaimOrphaned, rc_failure := Some failure,
                             rc_orphaned_at := Some at\<rparr>) at)"

text \<open>One call of a method, with the claim after the call and its result.\<close>

inductive claim_call :: "externals \<Rightarrow> claim \<Rightarrow> claim \<Rightarrow> (claim_error, unit) result \<Rightarrow> bool" for X where
  begin_preparation: "claim_begin_preparation c i at = (c', r) \<Longrightarrow> claim_call X c c' r"
| record_prepared: "claim_record_prepared c i d at = (c', r) \<Longrightarrow> claim_call X c c' r"
| bind: "claim_bind c e at = (c', r) \<Longrightarrow> claim_call X c c' r"
| begin_release: "claim_begin_release X c i at = (c', r) \<Longrightarrow> claim_call X c c' r"
| record_released: "claim_record_released c v at = (c', r) \<Longrightarrow> claim_call X c c' r"
| cancel_database_reservation:
    "claim_cancel_database_reservation c at = (c', r) \<Longrightarrow> claim_call X c c' r"
| orphan: "claim_orphan c f at = (c', r) \<Longrightarrow> claim_call X c c' r"

definition claim_step :: "externals \<Rightarrow> claim \<Rightarrow> claim \<Rightarrow> bool" where
  "claim_step X c c' \<longleftrightarrow> claim_call X c c' (Inr ())"

section \<open>Writes of the methods\<close>

text \<open>
  The writes the methods make, one rule per assignment block with the guards that hold when it is
  reached. Every successful call is a replay that leaves the claim alone or makes one of them.
\<close>

inductive claim_change :: "externals \<Rightarrow> claim \<Rightarrow> claim \<Rightarrow> bool" for X where
  preparing: "rc_state c = ReservedInDb \<Longrightarrow> i \<noteq> 0 \<Longrightarrow> rc_updated_at c \<le> at \<Longrightarrow>
    checked_add (rc_aggregate_version c) 1 = Some v \<Longrightarrow>
    claim_change X c (c\<lparr>rc_state := PreparingOnAgent, rc_prepare_command_id := Some i,
      rc_aggregate_version := v, rc_updated_at := at\<rparr>)"
| prepared: "rc_state c = PreparingOnAgent \<Longrightarrow> is_sha256_digest d \<Longrightarrow> rc_updated_at c \<le> at \<Longrightarrow>
    checked_add (rc_aggregate_version c) 1 = Some v \<Longrightarrow>
    claim_change X c (c\<lparr>rc_state := PreparedOnAgent, rc_prepared_binding_digest := Some d,
      rc_prepared_at := Some at, rc_aggregate_version := v, rc_updated_at := at\<rparr>)"
| bound: "rc_state c = PreparedOnAgent \<Longrightarrow> binding_evidence_matches c e \<Longrightarrow> rc_updated_at c \<le> at \<Longrightarrow>
    checked_add (rc_aggregate_version c) 1 = Some v \<Longrightarrow>
    claim_change X c (c\<lparr>rc_state := BoundToRuntimeUnit, rc_bound_at := Some b,
      rc_aggregate_version := v, rc_updated_at := at\<rparr>)"
| releasing: "rc_state c \<in> {PreparedOnAgent, BoundToRuntimeUnit, ClaimOrphaned} \<Longrightarrow> i \<noteq> 0 \<Longrightarrow>
    rc_updated_at c \<le> at \<Longrightarrow> checked_add (rc_claim_generation c) 1 = Some g \<Longrightarrow>
    calculate_claim_digest X (c\<lparr>rc_claim_generation := g\<rparr>) = Inr d \<Longrightarrow>
    checked_add (rc_aggregate_version c) 1 = Some v \<Longrightarrow>
    claim_change X c (c\<lparr>rc_claim_generation := g, rc_claim_digest := d, rc_state := ClaimReleasing,
      rc_release_command_id := Some i, rc_release_requested_at := Some at,
      rc_aggregate_version := v, rc_updated_at := at\<rparr>)"
| released: "rc_state c \<in> {ReservedInDb, ClaimReleasing, ClaimOrphaned} \<Longrightarrow>
    release_evidence_validate e = Inr () \<Longrightarrow> release_evidence_slots e = claim_slot_evidence c \<Longrightarrow>
    rc_updated_at c \<le> at \<Longrightarrow> checked_add (rc_aggregate_version c) 1 = Some v \<Longrightarrow>
    claim_change X c (c\<lparr>rc_state := ClaimReleased, rc_released_at := Some f,
      rc_release_evidence := Some e, rc_failure := None, rc_aggregate_version := v,
      rc_updated_at := at\<rparr>)"
| orphaned: "rc_state c \<notin> {ClaimOrphaned, ClaimReleased} \<Longrightarrow> claim_validate_failure f = Inr () \<Longrightarrow>
    rc_updated_at c \<le> at \<Longrightarrow> checked_add (rc_aggregate_version c) 1 = Some v \<Longrightarrow>
    claim_change X c (c\<lparr>rc_state := ClaimOrphaned, rc_failure := Some f, rc_orphaned_at := Some at,
      rc_aggregate_version := v, rc_updated_at := at\<rparr>)"

lemma claim_bump_Inr:
  "claim_bump c at = (c', Inr u) \<longleftrightarrow>
   (\<exists>v. checked_add (rc_aggregate_version c) 1 = Some v \<and>
        c' = c\<lparr>rc_aggregate_version := v, rc_updated_at := at\<rparr>)"
  by (auto simp: claim_bump_def split: option.split)

lemma claim_time_Inr:
  "claim_canonical_time c at = Inr t \<longleftrightarrow> t = canonical_timestamp at \<and> rc_updated_at c \<le> t"
  by (auto simp: claim_canonical_time_def Let_def)

lemma claim_sha_Inr: "claim_validate_sha256 d l = Inr u \<longleftrightarrow> is_sha256_digest d"
  by (simp add: claim_validate_sha256_def)

lemmas claim_method_simps = claim_bump_Inr claim_time_Inr claim_sha_Inr Let_def

lemma begin_preparation_change:
  "claim_begin_preparation c i at = (c', Inr ()) \<Longrightarrow> c' = c \<or> claim_change X c c'"
  by (auto simp: claim_begin_preparation_def claim_method_simps intro: claim_change.preparing
      split: if_split_asm sum.split_asm)

lemma record_prepared_change:
  "claim_record_prepared c i d at = (c', Inr ()) \<Longrightarrow> c' = c \<or> claim_change X c c'"
  by (auto simp: claim_record_prepared_def claim_method_simps intro: claim_change.prepared
      split: if_split_asm sum.split_asm)

lemma bind_change: "claim_bind c e at = (c', Inr ()) \<Longrightarrow> c' = c \<or> claim_change X c c'"
  by (auto simp: claim_bind_def claim_method_simps intro: claim_change.bound
      split: if_split_asm sum.split_asm)

lemma begin_release_change:
  "claim_begin_release X c i at = (c', Inr ()) \<Longrightarrow> c' = c \<or> claim_change X c c'"
  by (auto simp: claim_begin_release_def claim_method_simps intro: claim_change.releasing
      split: if_split_asm sum.split_asm option.split_asm)

lemma record_released_cases:
  assumes "claim_record_released c e at = (c', Inr ())" and "c' \<noteq> c"
  shows "rc_state c \<in> {ReservedInDb, ClaimReleasing, ClaimOrphaned} \<and>
    release_evidence_validate (release_evidence_canonicalize e) = Inr () \<and>
    release_evidence_slots (release_evidence_canonicalize e) = claim_slot_evidence c \<and>
    rc_updated_at c \<le> canonical_timestamp at \<and>
    (\<exists>v f. checked_add (rc_aggregate_version c) 1 = Some v \<and>
      c' = c\<lparr>rc_state := ClaimReleased, rc_released_at := Some f,
             rc_release_evidence := Some (release_evidence_canonicalize e), rc_failure := None,
             rc_aggregate_version := v, rc_updated_at := canonical_timestamp at\<rparr>)"
  using assms
  by (cases e) (auto simp: claim_record_released_def claim_method_simps slot_evidence_matches_def
      split: if_split_asm sum.split_asm)

lemma record_released_change:
  "claim_record_released c e at = (c', Inr ()) \<Longrightarrow> c' = c \<or> claim_change X c c'"
  using record_released_cases [of c e at c'] by (blast intro: claim_change.released)

lemma orphan_change: "claim_orphan c f at = (c', Inr ()) \<Longrightarrow> c' = c \<or> claim_change X c c'"
  by (auto simp: claim_orphan_def claim_method_simps intro: claim_change.orphaned
      split: if_split_asm sum.split_asm)

lemma claim_cancel_change:
  "claim_cancel_database_reservation c at = (c', Inr ()) \<Longrightarrow> c' = c \<or> claim_change X c c'"
  unfolding claim_cancel_database_reservation_def by (rule record_released_change)

lemma claim_step_change:
  assumes "claim_step X c c'"
  shows "c' = c \<or> claim_change X c c'"
  using assms unfolding claim_step_def
  by cases (simp_all add: begin_preparation_change record_prepared_change bind_change
      begin_release_change record_released_change claim_cancel_change orphan_change)

section \<open>Validity\<close>

type_synonym claim_key = "(uuid \<times> uuid \<times> uuid \<times> uuid \<times> uuid \<times> uuid \<times> uuid \<times> uuid \<times> uuid) \<times>
  (u64 \<times> u64 \<times> u64 \<times> u64) \<times> (string \<times> string \<times> string \<times> string) \<times> slot_binding list \<times> timestamp"

text \<open>Everything a claim is reserved with: no method changes it.\<close>

definition claim_identity :: "claim \<Rightarrow> claim_key" where
  "claim_identity c =
     ((rc_id c, rc_organization_id c, rc_project_id c, rc_environment_id c, rc_workload_id c,
       rc_deployment_id c, rc_replica_id c, rc_member_id c, rc_node_id c),
      (rc_replica_generation c, rc_placement_generation c, rc_inventory_generation c,
       rc_runtime_generation c),
      (rc_inventory_digest c, rc_runtime_unit_id c, rc_topology_digest c, rc_reservation_digest c),
      rc_slots c, rc_created_at c)"

definition claim_static :: "externals \<Rightarrow> claim \<Rightarrow> bool" where
  "claim_static X c \<longleftrightarrow>
     rc_id c \<noteq> 0 \<and> rc_organization_id c \<noteq> 0 \<and> rc_project_id c \<noteq> 0 \<and> rc_environment_id c \<noteq> 0 \<and>
     rc_workload_id c \<noteq> 0 \<and> rc_deployment_id c \<noteq> 0 \<and> rc_replica_id c \<noteq> 0 \<and>
     rc_replica_generation c \<noteq> 0 \<and> rc_member_id c \<noteq> 0 \<and> rc_placement_generation c \<noteq> 0 \<and>
     rc_node_id c \<noteq> 0 \<and> rc_inventory_generation c \<noteq> 0 \<and>
     rc_runtime_generation c = rc_replica_generation c \<and>
     is_sha256_digest (rc_inventory_digest c) \<and> is_sha256_digest (rc_topology_digest c) \<and>
     is_sha256_digest (rc_reservation_digest c) \<and>
     validate_runtime_identity (rc_runtime_unit_id c) (rc_runtime_generation c) = Inr () \<and>
     validate_slot_bindings (rc_slots c) = Inr () \<and>
     calculate_reservation_digest X c = Inr (rc_reservation_digest c)"

definition claim_dynamic :: "externals \<Rightarrow> claim \<Rightarrow> bool" where
  "claim_dynamic X c \<longleftrightarrow>
     rc_claim_generation c \<noteq> 0 \<and> rc_aggregate_version c \<noteq> 0 \<and> rc_created_at c \<le> rc_updated_at c \<and>
     is_sha256_digest (rc_claim_digest c) \<and> calculate_claim_digest X c = Inr (rc_claim_digest c) \<and>
     (\<forall>d. rc_prepared_binding_digest c = Some d \<longrightarrow> is_sha256_digest d) \<and>
     (\<forall>f. rc_failure c = Some f \<longrightarrow> claim_validate_failure f = Inr ()) \<and>
     (\<forall>e. rc_release_evidence c = Some e \<longrightarrow>
        release_evidence_validate e = Inr () \<and> release_evidence_slots e = claim_slot_evidence c) \<and>
     claim_state_valid c"

lemma claim_validate_ok: "claim_validate X c = Inr () \<longleftrightarrow> claim_static X c \<and> claim_dynamic X c"
  by (cases "rc_prepared_binding_digest c"; cases "rc_failure c"; cases "rc_release_evidence c")
    (auto simp: claim_validate_def claim_static_def claim_dynamic_def claim_sha_Inr
      slot_evidence_matches_def not_less)

text \<open>
  \<open>validate\<close> alone is not inductive: it does not look at \<open>released_at\<close> of a prepared or bound claim,
  which \<open>begin_release\<close> relies on. The invariant adds that only a released claim has release data.
\<close>

definition claim_inv :: "externals \<Rightarrow> claim \<Rightarrow> bool" where
  "claim_inv X c \<longleftrightarrow> claim_validate X c = Inr () \<and> (rc_state c \<noteq> ClaimReleased \<longrightarrow> rc_released_at c = None)"

lemma claim_change_identity: "claim_change X c c' \<Longrightarrow> claim_identity c' = claim_identity c"
  by (erule claim_change.cases) (simp_all add: claim_identity_def)

lemma claim_static_cong:
  assumes "claim_identity c' = claim_identity c"
  shows "claim_static X c' = claim_static X c"
proof -
  have "calculate_reservation_digest X c' = calculate_reservation_digest X c"
    using assms by (simp add: calculate_reservation_digest_def claim_identity_def)
  with assms show ?thesis by (simp add: claim_static_def claim_identity_def)
qed

lemma claim_change_stamp: "claim_change X c c' \<Longrightarrow> rc_updated_at c \<le> rc_updated_at c'"
  by (erule claim_change.cases) simp_all

lemma claim_change_version: "claim_change X c c' \<Longrightarrow> rc_aggregate_version c < rc_aggregate_version c'"
  by (erule claim_change.cases) (simp_all add: checked_inc_less)

lemma claim_change_generation: "claim_change X c c' \<Longrightarrow> rc_claim_generation c \<le> rc_claim_generation c'"
  by (erule claim_change.cases) (simp_all add: checked_inc_le)

lemma claim_digest_format:
  "hash_laws X \<Longrightarrow> calculate_claim_digest X c = Inr d \<Longrightarrow> is_sha256_digest d"
  by (auto simp: calculate_claim_digest_def intro: sha256_of_json_digest)

lemma claim_change_dynamic:
  assumes "claim_change X c c'" and "hash_laws X" and "claim_dynamic X c"
    and "rc_state c \<noteq> ClaimReleased \<longrightarrow> rc_released_at c = None"
  shows "claim_dynamic X c' \<and> (rc_state c' \<noteq> ClaimReleased \<longrightarrow> rc_released_at c' = None)"
  using assms(1)
proof cases
  case (releasing i at g d v)
  have "is_sha256_digest d"
    by (rule claim_digest_format [OF assms(2) releasing(6)])
  with releasing assms(3,4) show ?thesis
    by (auto simp: claim_dynamic_def claim_state_valid_def claim_slot_evidence_def
        calculate_claim_digest_def checked_inc_pos)
next
  case (released e at v f)
  with assms(3,4) show ?thesis
    by (auto simp: claim_dynamic_def claim_state_valid_def claim_slot_evidence_def
        calculate_claim_digest_def checked_inc_pos)
next
  case (orphaned f at v)
  with assms(3,4) show ?thesis
    by (cases "rc_state c") (auto simp: claim_dynamic_def claim_state_valid_def claim_slot_evidence_def
        calculate_claim_digest_def checked_inc_pos)
qed (use assms(3,4) in \<open>auto simp: claim_dynamic_def claim_state_valid_def claim_slot_evidence_def
        calculate_claim_digest_def checked_inc_pos\<close>)

lemma claim_change_inv:
  assumes "claim_change X c c'" and "hash_laws X" and "claim_inv X c"
  shows "claim_inv X c'"
  using claim_change_dynamic [OF assms(1,2)] assms(3)
    claim_static_cong [OF claim_change_identity [OF assms(1)]]
  by (simp add: claim_inv_def claim_validate_ok)

lemma claim_step_cases:
  assumes "claim_step X c c'"
  obtains (replay) "c' = c" | (change) "claim_change X c c'"
  using claim_step_change [OF assms] by blast

interpretation claim: optimistic_aggregate "claim_step X" claim_identity rc_updated_at
  "\<lambda>c. hash_laws X \<longrightarrow> claim_inv X c" rc_aggregate_version for X
  by unfold_locales
    (auto elim!: claim_step_cases dest: claim_change_identity claim_change_stamp claim_change_version
      claim_change_inv)

section \<open>Reserving\<close>

lemma reservation_node:
  assumes "reservation_validate X r = Inr ()"
  shows "inventory_validate X (rs_inventory r) = Inr ()" "rs_node_id r \<noteq> 0"
    "inv_generation (rs_inventory r) \<noteq> 0"
  using assms by (auto simp: reservation_validate_def inventory_validate_def validate_uuid_def Let_def
      split: if_split_asm)

lemma claim_reserve_ok:
  assumes laws: "hash_laws X" and valid: "reservation_validate X r = Inr ()"
    and matching: "slot_requests_match_bindings (rs_slots r) slots"
    and slots: "validate_slot_bindings slots = Inr ()"
  shows "\<exists>c. claim_reserve X r slots = Inr c \<and> claim_inv X c \<and> reservation_matches r c \<and>
    rc_state c = ReservedInDb \<and> rc_slots c = slots \<and> rc_claim_generation c = 1 \<and>
    rc_updated_at c = canonical_timestamp (rs_reserved_at r)"
proof -
  have inventory: "is_sha256_digest (inv_digest (rs_inventory r))"
    by (rule inventory_digest_format [OF laws reservation_node(1) [OF valid]])
  obtain reservation_digest where d: "is_sha256_digest reservation_digest" "sha256_of_json X (JObj
       [(''claimId'', JUuid (rs_id r)),
        (''organizationId'', JUuid (drb_organization_id (rs_binding r))),
        (''projectId'', JUuid (drb_project_id (rs_binding r))),
        (''environmentId'', JUuid (drb_environment_id (rs_binding r))),
        (''workloadId'', JUuid (drb_workload_id (rs_binding r))),
        (''deploymentId'', JUuid (drb_deployment_id (rs_binding r))),
        (''replicaId'', JUuid (drb_replica_id (rs_binding r))),
        (''replicaGeneration'', JNum (unat (drb_replica_generation (rs_binding r)))),
        (''memberId'', JUuid (drb_member_id (rs_binding r))),
        (''placementGeneration'', JNum (unat (drb_placement_generation (rs_binding r)))),
        (''nodeId'', JUuid (rs_node_id r)),
        (''inventoryGeneration'', JNum (unat (inv_generation (rs_inventory r)))),
        (''inventoryDigest'', JStr (inv_digest (rs_inventory r))),
        (''runtimeUnitId'', JStr (drb_runtime_unit_id (rs_binding r))),
        (''runtimeGeneration'', JNum (unat (drb_runtime_generation (rs_binding r)))),
        (''topologyDigest'', JStr (rs_topology_digest r)),
        (''slots'', JArr (map reservation_slot_json slots))]) = Some reservation_digest"
    by (rule sha256_of_json_Some [OF laws])
  obtain claim_digest where e: "is_sha256_digest claim_digest" "sha256_of_json X (JObj
       [(''reservationDigest'', JStr reservation_digest), (''claimGeneration'', JNum (unat (1 :: u64))),
        (''slots'', JArr (map slot_binding_json slots))]) = Some claim_digest"
    by (rule sha256_of_json_Some [OF laws])
  note parts = reservation_node [OF valid]
  show ?thesis
    using valid matching slots inventory parts d e
    by (auto simp: claim_reserve_def reservation_validate_def calculate_reservation_digest_def
        calculate_claim_digest_def claim_inv_def claim_validate_ok claim_static_def claim_dynamic_def
        claim_state_valid_def reservation_matches_def claim_sha_Inr ok_or_def Let_def
        split: if_split_asm)
qed

lemma claim_reserve_parts:
  assumes "claim_reserve X r slots = Inr c"
  shows "reservation_validate X r = Inr ()" "slot_requests_match_bindings (rs_slots r) slots"
    "validate_slot_bindings slots = Inr ()"
  using assms by (auto simp: claim_reserve_def split: if_split_asm)

lemma claim_reserve_facts:
  assumes "hash_laws X" and "claim_reserve X r slots = Inr c"
  shows "claim_inv X c" "reservation_matches r c" "rc_state c = ReservedInDb" "rc_slots c = slots"
    "rc_claim_generation c = 1" "rc_updated_at c = canonical_timestamp (rs_reserved_at r)"
  using claim_reserve_ok [OF assms(1) claim_reserve_parts [OF assms(2)]] assms(2) by auto

subsection \<open>Replays and errors\<close>

lemma begin_preparation_replay:
  assumes "claim_begin_preparation c i at = (c', Inr ())"
  shows "claim_begin_preparation c' i at = (c', Inr ())"
proof (cases "c' = c")
  case False
  with assms have "rc_state c' = PreparingOnAgent \<and> rc_prepare_command_id c' = Some i \<and>
      rc_updated_at c' = canonical_timestamp at"
    by (simp add: claim_begin_preparation_def claim_method_simps split: if_split_asm sum.split_asm) auto
  then show ?thesis by (simp add: claim_begin_preparation_def claim_canonical_time_def)
qed (use assms in simp)

lemma record_prepared_replay:
  assumes "claim_record_prepared c i d at = (c', Inr ())"
  shows "claim_record_prepared c' i d at = (c', Inr ())"
proof (cases "c' = c")
  case False
  with assms have "rc_state c' = PreparedOnAgent \<and> rc_prepare_command_id c' = Some i \<and>
      rc_prepared_binding_digest c' = Some d \<and> is_sha256_digest d \<and>
      rc_updated_at c' = canonical_timestamp at"
    by (simp add: claim_record_prepared_def claim_method_simps split: if_split_asm sum.split_asm) auto
  then show ?thesis
    by (simp add: claim_record_prepared_def claim_canonical_time_def claim_validate_sha256_def)
qed (use assms in simp)

lemma bind_replay:
  assumes "claim_bind c e at = (c', Inr ())"
  shows "claim_bind c' e at = (c', Inr ())"
proof (cases "c' = c")
  case False
  with assms have "rc_state c' = BoundToRuntimeUnit \<and>
      binding_evidence_validate (binding_evidence_canonicalize e) = Inr () \<and>
      binding_evidence_matches c' (binding_evidence_canonicalize e) \<and>
      rc_updated_at c' = canonical_timestamp at"
    by (simp add: claim_bind_def claim_method_simps split: if_split_asm sum.split_asm)
      (auto simp: binding_evidence_matches_def claim_slot_evidence_def)
  then show ?thesis by (simp add: claim_bind_def claim_canonical_time_def Let_def)
qed (use assms in simp)

lemma begin_release_replay:
  "claim_begin_release X c i at = (c', Inr ()) \<Longrightarrow> claim_begin_release X c' i at = (c', Inr ())"
  by (auto simp: claim_begin_release_def claim_canonical_time_def claim_bump_Inr Let_def
      split: if_split_asm sum.split_asm option.split_asm)

lemma record_released_replay:
  assumes "claim_record_released c e at = (c', Inr ())"
  shows "claim_record_released c' e at = (c', Inr ())"
proof (cases "c' = c")
  case False
  from record_released_cases [OF assms this] show ?thesis
    by (auto simp: claim_record_released_def claim_canonical_time_def Let_def)
qed (use assms in simp)

lemma orphan_replay:
  assumes "claim_orphan c f at = (c', Inr ())"
  shows "claim_orphan c' f at = (c', Inr ())"
proof (cases "c' = c")
  case False
  with assms have "rc_state c' = ClaimOrphaned \<and> rc_failure c' = Some f \<and>
      claim_validate_failure f = Inr () \<and> rc_updated_at c' = canonical_timestamp at"
    by (simp add: claim_orphan_def claim_method_simps split: if_split_asm sum.split_asm) auto
  then show ?thesis by (simp add: claim_orphan_def claim_canonical_time_def)
qed (use assms in simp)

lemma claim_bump_succeeds:
  "rc_aggregate_version c \<noteq> - 1 \<Longrightarrow> snd (claim_bump c at) = Inr ()"
  using checked_add_None_iff [of "rc_aggregate_version c"]
  by (auto simp: claim_bump_def split: option.split)

lemma claim_bump_no_error: "rc_aggregate_version c \<noteq> - 1 \<Longrightarrow> claim_bump c at \<noteq> (c', Inl e)"
  using claim_bump_succeeds [of c at] by auto

lemma claim_digest_defined: "hash_laws X \<Longrightarrow> calculate_claim_digest X c \<noteq> Inl e"
  by (auto simp: calculate_claim_digest_def ok_or_Inl_iff)

lemma record_released_error:
  "claim_record_released c v at = (c', Inl e) \<Longrightarrow> rc_aggregate_version c \<noteq> - 1 \<Longrightarrow> c' = c"
  by (auto simp: claim_record_released_def Let_def claim_bump_no_error
      split: if_split_asm sum.split_asm)

lemma claim_call_error:
  assumes "claim_call X c c' (Inl e)" and "rc_aggregate_version c \<noteq> - 1" and "hash_laws X"
  shows "c' = c"
  using assms(1)
proof cases
  case (begin_preparation i at)
  with assms(2) show ?thesis
    by (auto simp: claim_begin_preparation_def claim_bump_no_error split: if_split_asm sum.split_asm)
next
  case (record_prepared i d at)
  with assms(2) show ?thesis
    by (auto simp: claim_record_prepared_def claim_bump_no_error split: if_split_asm sum.split_asm)
next
  case (bind ev at)
  with assms(2) show ?thesis
    by (auto simp: claim_bind_def claim_bump_no_error Let_def split: if_split_asm sum.split_asm)
next
  case (begin_release i at)
  with assms(2,3) show ?thesis
    by (auto simp: claim_begin_release_def claim_bump_no_error claim_digest_defined Let_def
        split: if_split_asm sum.split_asm option.split_asm)
next
  case (record_released v at)
  with assms(2) show ?thesis by (simp add: record_released_error)
next
  case (cancel_database_reservation at)
  with assms(2) show ?thesis
    by (simp add: claim_cancel_database_reservation_def record_released_error)
next
  case (orphan f at)
  with assms(2) show ?thesis
    by (auto simp: claim_orphan_def claim_bump_no_error split: if_split_asm sum.split_asm)
qed

text \<open>Release of a claim whose evidence is that the provider has nothing left.\<close>

lemma release_orphaned:
  assumes "rc_state c = ClaimOrphaned" and "validate_slot_bindings (rc_slots c) = Inr ()"
    and "rc_aggregate_version c \<noteq> - 1" and "rc_updated_at c \<le> canonical_timestamp at"
    and "timestamp_millis at > 0" and "is_sha256_digest d"
  shows "\<exists>c'. claim_step X c c' \<and> rc_state c' = ClaimReleased"
proof -
  let ?e = "ProviderNotFound (claim_slot_evidence c) d at"
  have "validate_slot_evidence (claim_slot_evidence c) = Inr ()"
    using slot_evidence_of_bindings_valid [OF assms(2)] by (simp add: claim_slot_evidence_def)
  then have run: "claim_record_released c ?e at =
      claim_bump (c\<lparr>rc_state := ClaimReleased, rc_released_at := Some (canonical_timestamp at),
        rc_release_evidence := Some (ProviderNotFound (claim_slot_evidence c) d (canonical_timestamp at)),
        rc_failure := None\<rparr>) (canonical_timestamp at)"
    using assms by (simp add: claim_record_released_def claim_canonical_time_def Let_def
        release_evidence_tail_def claim_validate_sha256_def slot_evidence_matches_def)
  then obtain c' where "claim_record_released c ?e at = (c', Inr ())" "rc_state c' = ClaimReleased"
    using claim_bump_succeeds assms(3)
    by (auto simp: claim_bump_def checked_add_None_iff split: option.split_asm)
  then show ?thesis
    unfolding claim_step_def by (blast intro: claim_call.record_released)
qed

lemma orphan_live:
  assumes "rc_state c \<notin> {ClaimOrphaned, ClaimReleased}" and "rc_aggregate_version c \<noteq> - 1"
    and "rc_updated_at c \<le> canonical_timestamp at"
  shows "\<exists>c'. claim_step X c c' \<and> rc_state c' = ClaimOrphaned \<and> rc_slots c' = rc_slots c \<and>
    unat (rc_aggregate_version c') = unat (rc_aggregate_version c) + 1 \<and>
    rc_updated_at c' = canonical_timestamp at"
proof -
  obtain v where v: "checked_add (rc_aggregate_version c) 1 = Some v"
    using assms(2) checked_add_None_iff by fastforce
  have "claim_orphan c ''lost'' at =
      (c\<lparr>rc_state := ClaimOrphaned, rc_failure := Some ''lost'',
         rc_orphaned_at := Some (canonical_timestamp at), rc_aggregate_version := v,
         rc_updated_at := canonical_timestamp at\<rparr>, Inr ())"
    using assms v by (auto simp: claim_orphan_def claim_canonical_time_def Let_def claim_bump_def
        claim_validate_failure_def contains_any_def ws1_def ws2_def ws3_def)
  then have "claim_step X c (c\<lparr>rc_state := ClaimOrphaned, rc_failure := Some ''lost'',
         rc_orphaned_at := Some (canonical_timestamp at), rc_aggregate_version := v,
         rc_updated_at := canonical_timestamp at\<rparr>)"
    unfolding claim_step_def by (rule claim_call.orphan)
  then show ?thesis
    using checked_inc_unat [OF v] by (intro exI conjI) (assumption | simp)+
qed

section \<open>Properties\<close>

text \<open>The edges of the claim's state machine.\<close>

fun claim_edge :: "claim_state \<Rightarrow> claim_state \<Rightarrow> bool" where
  "claim_edge ReservedInDb t \<longleftrightarrow> t \<in> {PreparingOnAgent, ClaimReleased, ClaimOrphaned}"
| "claim_edge PreparingOnAgent t \<longleftrightarrow> t \<in> {PreparedOnAgent, ClaimOrphaned}"
| "claim_edge PreparedOnAgent t \<longleftrightarrow> t \<in> {BoundToRuntimeUnit, ClaimReleasing, ClaimOrphaned}"
| "claim_edge BoundToRuntimeUnit t \<longleftrightarrow> t \<in> {ClaimReleasing, ClaimOrphaned}"
| "claim_edge ClaimReleasing t \<longleftrightarrow> t \<in> {ClaimReleased, ClaimOrphaned}"
| "claim_edge ClaimOrphaned t \<longleftrightarrow> t \<in> {ClaimReleasing, ClaimReleased}"
| "claim_edge ClaimReleased t \<longleftrightarrow> False"

lemma claim_change_edge: "claim_change X c c' \<Longrightarrow> claim_edge (rc_state c) (rc_state c')"
  by (erule claim_change.cases; cases "rc_state c") simp_all

text \<open>
  C18. Reserving succeeds exactly when the reservation validates, the bound slots are the requested
  ones in order and their fencing identities are set. The claim it returns validates, is in the
  database state with exactly those slots, and is the one the reservation recognises on a replay.
\<close>

theorem claim_reserve_correct:
  assumes "hash_laws X"
  shows "(is_ok (claim_reserve X r slots) \<longleftrightarrow>
      reservation_validate X r = Inr () \<and> slot_requests_match_bindings (rs_slots r) slots \<and>
      validate_slot_bindings slots = Inr ()) \<and>
    (\<forall>c. claim_reserve X r slots = Inr c \<longrightarrow>
      claim_validate X c = Inr () \<and> rc_state c = ReservedInDb \<and> rc_slots c = slots \<and>
      reservation_matches r c)"
  using claim_reserve_ok [OF assms] claim_reserve_parts claim_reserve_facts [OF assms]
  by (auto simp: is_ok_iff claim_inv_def)

text \<open>
  C6. Every claim that method calls can reach from a reservation validates, keeps everything it was
  reserved with, moves only along the edges of its state machine, and counts every change: two
  states of the same run with the same aggregate version are equal.
\<close>

theorem claim_lifecycle:
  assumes "hash_laws X" and "claim_reserve X r slots = Inr c0" and "(claim_step X)\<^sup>*\<^sup>* c0 c"
  shows "claim_validate X c = Inr () \<and> claim_identity c = claim_identity c0 \<and>
    (\<forall>c'. claim_step X c c' \<longrightarrow> c' = c \<or> claim_edge (rc_state c) (rc_state c')) \<and>
    (\<forall>c'. (claim_step X)\<^sup>*\<^sup>* c c' \<and> rc_aggregate_version c' = rc_aggregate_version c \<longrightarrow> c' = c)"
proof (intro conjI allI impI)
  show "claim_validate X c = Inr ()"
    using claim.run_invar [OF assms(3)] claim_reserve_facts(1) [OF assms(1,2)] assms(1)
    by (simp add: claim_inv_def)
  show "claim_identity c = claim_identity c0"
    by (rule claim.run_identity [OF assms(3)])
  show "c' = c \<or> claim_edge (rc_state c) (rc_state c')" if "claim_step X c c'" for c'
    using claim_step_change [OF that] claim_change_edge by blast
  show "c' = c" if "(claim_step X)\<^sup>*\<^sup>* c c' \<and> rc_aggregate_version c' = rc_aggregate_version c" for c'
    using claim.run_same_version that by blast
qed

text \<open>
  C19. Redelivery is safe: repeating any successful method call with the same arguments succeeds again
  and leaves the claim exactly as the first call left it.
\<close>

theorem claim_calls_replay:
  "(claim_begin_preparation c i at = (c', Inr ()) \<longrightarrow> claim_begin_preparation c' i at = (c', Inr ())) \<and>
   (claim_record_prepared c i d at = (c', Inr ()) \<longrightarrow> claim_record_prepared c' i d at = (c', Inr ())) \<and>
   (claim_bind c e at = (c', Inr ()) \<longrightarrow> claim_bind c' e at = (c', Inr ())) \<and>
   (claim_begin_release X c i at = (c', Inr ()) \<longrightarrow> claim_begin_release X c' i at = (c', Inr ())) \<and>
   (claim_record_released c v at = (c', Inr ()) \<longrightarrow> claim_record_released c' v at = (c', Inr ())) \<and>
   (claim_orphan c f at = (c', Inr ()) \<longrightarrow> claim_orphan c' f at = (c', Inr ()))"
  by (blast intro: begin_preparation_replay record_prepared_replay bind_replay begin_release_replay
      record_released_replay orphan_replay)

text \<open>
  C20. A released claim never changes again, and a call that reports an error leaves the claim as it
  was unless the version counter is exhausted or the digest input could not be encoded.
\<close>

theorem claim_errors_change_nothing:
  assumes "claim_call X c c' r" and "rc_state c = ClaimReleased \<or> r \<noteq> Inr ()"
    and "rc_aggregate_version c \<noteq> - 1" and "hash_laws X"
  shows "c' = c"
proof (cases r)
  case (Inl e)
  with assms show ?thesis by (blast intro: claim_call_error)
next
  case (Inr u)
  with assms have "claim_step X c c'" and "rc_state c = ClaimReleased"
    by (simp_all add: claim_step_def)
  then show ?thesis
    using claim_step_change claim_change_edge by fastforce
qed


subsection \<open>Witnesses\<close>

definition sample_digest :: string where
  "sample_digest = ''sha256:'' @ replicate 64 (CHR ''a'')"

definition sample_inventory :: inventory where
  "sample_inventory = \<lparr>inv_schema = inventory_schema, inv_node_id = 7, inv_agent_instance_id = 8,
     inv_generation = 1, inv_observed_at = 5000000,
     inv_slots =
       [\<lparr>ns_kind = Cpu, ns_stable_resource_id = ''cpu'', ns_allocation = Scalar 2000 MilliCpu\<rparr>,
        \<lparr>ns_kind = Accelerator, ns_stable_resource_id = ''gpu'', ns_allocation = Scalar 1 Count\<rparr>],
     inv_digest = sample_digest\<rparr>"

definition sample_reservation :: reservation where
  "sample_reservation = \<lparr>rs_id = 40, rs_binding = sample_current_binding, rs_node_id = 7,
     rs_inventory = sample_inventory, rs_topology_digest = sample_digest,
     rs_slots =
       [\<lparr>sr_kind = Cpu, sr_stable_resource_id = ''cpu'', sr_allocation = Scalar 500 MilliCpu\<rparr>,
        \<lparr>sr_kind = Accelerator, sr_stable_resource_id = ''gpu'', sr_allocation = Scalar 1 Count\<rparr>],
     rs_reserved_at = 6000000\<rparr>"

definition sample_bindings :: "slot_binding list" where
  "sample_bindings =
     [\<lparr>sb_kind = Cpu, sb_stable_resource_id = ''cpu'', sb_allocation = Scalar 500 MilliCpu,
       sb_slot_generation = 1, sb_fence_token = 51\<rparr>,
      \<lparr>sb_kind = Accelerator, sb_stable_resource_id = ''gpu'', sb_allocation = Scalar 1 Count,
       sb_slot_generation = 1, sb_fence_token = 52\<rparr>]"

lemmas slot_eval =
  validate_slot_set_def validate_stable_resource_id_def allocation_validate_for_def contains_any_def
  is_trimmed_def starts_with_ws_def ends_with_ws_def ws1_def ws2_def ws3_def
  less_eq_resource_kind_def less_resource_kind_def

lemma sample_digest_valid: "is_sha256_digest sample_digest"
  by (simp add: sample_digest_def is_sha256_digest_def strip_prefix_def list_all_iff lower_hex_def)

lemma sample_hash: "sha256_of_json sample_externals d = Some sample_digest"
  by (simp add: sha256_of_json_def sample_externals_def sample_digest_def)

lemma sample_inventory_valid: "inventory_validate sample_externals sample_inventory = Inr ()"
  using contract_accepts_digest [OF sample_digest_valid]
  by (simp add: inventory_validate_def sample_inventory_def validate_uuid_def timestamp_millis_def
      validate_inventory_slots_def node_slot_validate_def ns_key_def inventory_calculate_digest_def
      sample_hash ok_or_def slot_eval)

lemma sample_reservation_valid: "reservation_validate sample_externals sample_reservation = Inr ()"
  using sample_inventory_valid sample_digest_valid sample_unit_id_valid
  by (simp add: reservation_validate_def sample_reservation_def sample_current_binding_def
      sample_binding_eval claim_validate_sha256_def validate_runtime_identity_def
      validate_slot_requests_def slot_request_validate_def sr_key_def request_within_inventory_def
      inventory_find_def sample_inventory_def ns_key_def ok_or_def slot_eval)

lemma sample_bindings_valid: "validate_slot_bindings sample_bindings = Inr ()"
  by (simp add: sample_bindings_def validate_slot_bindings_def slot_binding_validate_def sb_key_def
      slot_eval)

lemma sample_slots_match: "slot_requests_match_bindings (rs_slots sample_reservation) sample_bindings"
  by (simp add: slot_requests_match_bindings_def sample_reservation_def sample_bindings_def)

lemma sample_claim_exists:
  "\<exists>c. claim_reserve sample_externals sample_reservation sample_bindings = Inr c \<and>
     rc_state c = ReservedInDb \<and> rc_updated_at c = 6000000 \<and> rc_aggregate_version c = 1"
proof -
  obtain c where c: "claim_reserve sample_externals sample_reservation sample_bindings = Inr c"
      "rc_state c = ReservedInDb" "rc_updated_at c = canonical_timestamp (rs_reserved_at sample_reservation)"
    using claim_reserve_ok [OF sample_hash_laws sample_reservation_valid sample_slots_match
        sample_bindings_valid] by blast
  moreover have "rc_aggregate_version c = 1"
    using c(1) by (auto simp: claim_reserve_def Let_def split: if_split_asm)
  ultimately show ?thesis
    by (simp add: sample_reservation_def canonical_timestamp_def)
qed

theorem claim_reserve_correct_witness:
  "is_ok (claim_reserve sample_externals sample_reservation sample_bindings)"
  using claim_reserve_correct [OF sample_hash_laws, of sample_reservation sample_bindings]
    sample_reservation_valid sample_slots_match sample_bindings_valid by simp

theorem claim_lifecycle_witness:
  "\<exists>c. claim_reserve sample_externals sample_reservation sample_bindings = Inr c \<and>
     claim_validate sample_externals (fst (claim_begin_preparation c 60 7000000)) = Inr ()"
proof -
  obtain c where c: "claim_reserve sample_externals sample_reservation sample_bindings = Inr c"
      "rc_state c = ReservedInDb" "rc_updated_at c = 6000000" "rc_aggregate_version c = 1"
    using sample_claim_exists by blast
  let ?p = "fst (claim_begin_preparation c 60 7000000)"
  have "claim_begin_preparation c 60 7000000 = (?p, Inr ())"
    using c by (simp add: claim_begin_preparation_def claim_canonical_time_def claim_bump_def
        checked_add_def canonical_timestamp_def)
  then have "claim_step sample_externals c ?p"
    unfolding claim_step_def by (rule claim_call.begin_preparation)
  then have "(claim_step sample_externals)\<^sup>*\<^sup>* c ?p" by simp
  from claim_lifecycle [OF sample_hash_laws c(1) this] c(1) show ?thesis by blast
qed

theorem claim_calls_replay_witness:
  "\<exists>(c :: claim) c'. claim_begin_preparation c 60 7000000 = (c', Inr ()) \<and>
     claim_begin_preparation c' 60 7000000 = (c', Inr ())"
proof -
  obtain c :: claim where c: "rc_state c = ReservedInDb" "rc_updated_at c = 6000000"
      "rc_aggregate_version c = 1"
    using sample_claim_exists by blast
  then obtain c' where "claim_begin_preparation c 60 7000000 = (c', Inr ())"
    by (simp add: claim_begin_preparation_def claim_canonical_time_def claim_bump_def
        checked_add_def canonical_timestamp_def)
  with claim_calls_replay [of c 60 7000000 c'] show ?thesis by blast
qed

theorem claim_errors_change_nothing_witness:
  "\<exists>c. rc_state c = ReservedInDb \<and> fst (claim_begin_release sample_externals c 61 7000000) = c"
proof -
  obtain c :: claim where c: "rc_state c = ReservedInDb" "rc_updated_at c = 6000000"
      "rc_aggregate_version c = 1"
    using sample_claim_exists by blast
  let ?p = "fst (claim_begin_release sample_externals c 61 7000000)"
  have "claim_begin_release sample_externals c 61 7000000 = (?p, Inl CannotBeginRelease)"
    using c by (simp add: claim_begin_release_def claim_canonical_time_def canonical_timestamp_def)
  from claim_errors_change_nothing [OF claim_call.begin_release [OF this]] c show ?thesis by auto
qed


end
