(* ===== verification/Claim_Repository.thy ===== *)
theory Claim_Repository
  imports Ordered_Map Resource_Claim
begin

text \<open>
  The in-memory claim repository,
  \<open>workloads/infrastructure/persistence/in_memory_resource_claims.rs\<close>: the store of claims, the leases
  of the slots they hold, and every operation of \<open>IResourceClaimRepository\<close>. An operation takes the
  write lock for its whole body, so it is one step on the state. \<open>Uuid::new_v4\<close> is the argument
  \<open>fresh\<close>, which gives the fence token of each slot of each claim.
\<close>

section \<open>State and errors\<close>

type_synonym slot_key = "uuid \<times> uuid \<times> resource_kind \<times> string"

record lease =
  sl_generation :: u64
  sl_fence_token :: uuid
  sl_active_claim_id :: "uuid option"

record repo =
  rp_claims :: "(uuid, claim) btree_map"
  rp_slots :: "(slot_key, lease) btree_map"

definition repo_new :: repo where
  "repo_new = \<lparr>rp_claims = [], rp_slots = []\<rparr>"

datatype repository_error =
    RepoNotFound
  | RepoConflict claim_error
  | RepoVersionConflict u64 u64
  | RepoIdempotencyConflict
  | RepoPlacementUnavailable
  | RepoCapacityUnavailable string
  | RepoNodeInvalid
  | RepoNoScalarCapacity string
  | RepoNonScalarRequest string
  | RepoSlotGenerationOverflowed
  | RepoMissingLease
  | RepoLeaseInconsistent
  | RepoLeaseDisappeared
  | RepoNonScalarStored
  | RepoTotalOverflowed
  | RepoClaimCountInvalid

type_synonym fresh_tokens = "uuid \<Rightarrow> slot_id \<Rightarrow> uuid"

section \<open>Reserving\<close>

text \<open>The keys \<open>SlotKey\<close> of a request of a reservation and of a slot of a claim.\<close>

definition request_slot_key :: "reservation \<Rightarrow> slot_request \<Rightarrow> slot_key" where
  "request_slot_key r q =
     (drb_organization_id (rs_binding r), rs_node_id r, sr_kind q, sr_stable_resource_id q)"

definition claim_slot_key :: "claim \<Rightarrow> slot_binding \<Rightarrow> slot_key" where
  "claim_slot_key c s = (rc_organization_id c, rc_node_id c, sb_kind s, sb_stable_resource_id s)"

text \<open>The \<open>try_fold\<close> over the amounts of the live claims.\<close>

fun fold_allocated :: "u64 \<Rightarrow> slot_binding list \<Rightarrow> (repository_error, u64) result" where
  "fold_allocated acc [] = Inr acc"
| "fold_allocated acc (s # ss) =
     and_then (ok_or RepoNonScalarStored (scalar_amount (sb_allocation s))) (\<lambda>amount.
     and_then (ok_or RepoTotalOverflowed (checked_add acc amount)) (\<lambda>acc.
     fold_allocated acc ss))"

definition live_on_node :: "uuid \<Rightarrow> uuid \<Rightarrow> claim \<Rightarrow> bool" where
  "live_on_node organization_id node_id c \<longleftrightarrow>
     rc_organization_id c = organization_id \<and> rc_node_id c = node_id \<and> rc_state c \<noteq> ClaimReleased"

definition validate_shared_capacity ::
    "repo \<Rightarrow> reservation \<Rightarrow> slot_request \<Rightarrow> (repository_error, unit) result" where
  "validate_shared_capacity st r q =
     and_then (ok_or (RepoNoScalarCapacity (sr_stable_resource_id q))
         (case inventory_find (rs_inventory r) (sr_key q) of None \<Rightarrow> None
          | Some slot \<Rightarrow> scalar_amount (ns_allocation slot))) (\<lambda>capacity.
     and_then (ok_or (RepoNonScalarRequest (sr_stable_resource_id q))
         (scalar_amount (sr_allocation q))) (\<lambda>requested.
     and_then (fold_allocated 0
         (filter (\<lambda>s. sb_key s = sr_key q)
           (concat (map rc_slots
             (filter (live_on_node (drb_organization_id (rs_binding r)) (rs_node_id r))
               (btree_values (rp_claims st))))))) (\<lambda>allocated.
     if (case checked_add allocated requested of None \<Rightarrow> True | Some required \<Rightarrow> required > capacity)
     then Inl (RepoCapacityUnavailable (sr_stable_resource_id q)) else Inr ())))"

text \<open>One turn of the loop over the requested slots.\<close>

definition reserve_slot ::
    "fresh_tokens \<Rightarrow> repo \<Rightarrow> reservation \<Rightarrow> slot_request
      \<Rightarrow> (repository_error, slot_key \<times> slot_binding) result" where
  "reserve_slot fresh st r q =
     (let key = request_slot_key r q in
      and_then
        (if is_shared_capacity (sr_kind q) then validate_shared_capacity st r q
         else if (case btree_get (rp_slots st) key of None \<Rightarrow> False
                  | Some lease \<Rightarrow> sl_active_claim_id lease \<noteq> None)
         then Inl (RepoCapacityUnavailable (sr_stable_resource_id q)) else Inr ()) (\<lambda>_.
      and_then
        (case btree_get (rp_slots st) key of None \<Rightarrow> Inr 1
         | Some lease \<Rightarrow> ok_or RepoSlotGenerationOverflowed (checked_add (sl_generation lease) 1))
        (\<lambda>generation.
      Inr (key,
        \<lparr>sb_kind = sr_kind q, sb_stable_resource_id = sr_stable_resource_id q,
         sb_allocation = sr_allocation q, sb_slot_generation = generation,
         sb_fence_token = fresh (rs_id r) (sr_key q)\<rparr>))))"

definition slot_lease :: "uuid \<Rightarrow> slot_binding \<Rightarrow> lease" where
  "slot_lease claim_id s =
     \<lparr>sl_generation = sb_slot_generation s, sl_fence_token = sb_fence_token s,
      sl_active_claim_id = (if \<not> is_shared_capacity (sb_kind s) then Some claim_id else None)\<rparr>"

fun insert_leases ::
    "uuid \<Rightarrow> (slot_key \<times> slot_binding) list \<Rightarrow> (slot_key, lease) btree_map
      \<Rightarrow> (slot_key, lease) btree_map" where
  "insert_leases claim_id [] m = m"
| "insert_leases claim_id ((key, s) # ps) m =
     insert_leases claim_id ps (btree_insert key (slot_lease claim_id s) m)"

definition violates_anti_affinity :: "reservation \<Rightarrow> claim \<Rightarrow> bool" where
  "violates_anti_affinity r c \<longleftrightarrow>
     rc_organization_id c = drb_organization_id (rs_binding r)
     \<and> rc_workload_id c = drb_workload_id (rs_binding r)
     \<and> rc_node_id c = rs_node_id r
     \<and> rc_replica_id c \<noteq> drb_replica_id (rs_binding r)
     \<and> rc_state c \<noteq> ClaimReleased"

text \<open>The state is written only after the last check, so an error returns none.\<close>

definition reserve_new_claim ::
    "externals \<Rightarrow> fresh_tokens \<Rightarrow> repo \<Rightarrow> reservation \<Rightarrow> (repository_error, repo \<times> claim) result" where
  "reserve_new_claim X fresh st r =
     (if btree_get (rp_claims st) (rs_id r) \<noteq> None then Inl RepoIdempotencyConflict
      else if list_ex (violates_anti_affinity r) (btree_values (rp_claims st))
      then Inl RepoPlacementUnavailable
      else
      and_then (try_map (reserve_slot fresh st r) (rs_slots r)) (\<lambda>reserved.
      and_then (map_err RepoConflict (claim_reserve X r (map snd reserved))) (\<lambda>c.
      Inr (st\<lparr>rp_slots := insert_leases (rc_id c) reserved (rp_slots st),
              rp_claims := btree_insert (rc_id c) c (rp_claims st)\<rparr>, c))))"

fun reserve_members ::
    "externals \<Rightarrow> fresh_tokens \<Rightarrow> repo \<Rightarrow> reservation list
      \<Rightarrow> (repository_error, repo \<times> claim list) result" where
  "reserve_members X fresh st [] = Inr (st, [])"
| "reserve_members X fresh st (r # rs) =
     and_then (reserve_new_claim X fresh st r) (\<lambda>(st, c).
     and_then (reserve_members X fresh st rs) (\<lambda>(st, cs). Inr (st, c # cs)))"

record 'a idempotent_write =
  iw_value :: 'a
  iw_replayed :: bool

definition existing_claims :: "repo \<Rightarrow> reservation list \<Rightarrow> (reservation \<times> claim) list" where
  "existing_claims st rs =
     List.map_filter (\<lambda>r. map_option (\<lambda>c. (r, c)) (btree_get (rp_claims st) (rs_id r))) rs"

definition repo_reserve_atomically ::
    "externals \<Rightarrow> fresh_tokens \<Rightarrow> repo \<Rightarrow> reservation list
      \<Rightarrow> (repo, repository_error, claim list idempotent_write) mutation" where
  "repo_reserve_atomically X fresh st rs =
     (let existing = existing_claims st rs in
      if existing \<noteq> [] then
        if length existing \<noteq> length rs \<or> list_ex (\<lambda>(r, c). \<not> reservation_matches r c) existing
        then (st, Inl RepoIdempotencyConflict)
        else (st, Inr \<lparr>iw_value = map snd existing, iw_replayed = True\<rparr>)
      else
        (case reserve_members X fresh st rs of
           Inl e \<Rightarrow> (st, Inl e)
         | Inr (next, claims) \<Rightarrow> (next, Inr \<lparr>iw_value = claims, iw_replayed = False\<rparr>)))"

definition repo_reserve ::
    "externals \<Rightarrow> fresh_tokens \<Rightarrow> repo \<Rightarrow> reservation
      \<Rightarrow> (repo, repository_error, claim idempotent_write) mutation" where
  "repo_reserve X fresh st r =
     (case atomic_reservation_new X [r] of
        Inl e \<Rightarrow> (st, Inl (RepoConflict e))
      | Inr batch \<Rightarrow>
          (case repo_reserve_atomically X fresh st batch of
             (st, Inl e) \<Rightarrow> (st, Inl e)
           | (st, Inr w) \<Rightarrow>
               if length (iw_value w) \<noteq> 1 then (st, Inl RepoClaimCountInvalid)
               else (st, Inr \<lparr>iw_value = hd (iw_value w), iw_replayed = iw_replayed w\<rparr>)))"

section \<open>Releasing\<close>

definition lease_identity_matches :: "lease \<Rightarrow> claim \<Rightarrow> slot_binding \<Rightarrow> bool" where
  "lease_identity_matches l c s =
     (if is_shared_capacity (sb_kind s) then
        sl_generation l \<ge> sb_slot_generation s
        \<and> (sl_generation l \<noteq> sb_slot_generation s \<or> sl_fence_token l = sb_fence_token s)
        \<and> sl_active_claim_id l = None
      else
        sl_active_claim_id l = Some (rc_id c)
        \<and> sl_generation l = sb_slot_generation s
        \<and> sl_fence_token l = sb_fence_token s)"

definition verify_lease :: "repo \<Rightarrow> claim \<Rightarrow> slot_binding \<Rightarrow> (repository_error, unit) result" where
  "verify_lease st c s =
     and_then (ok_or RepoMissingLease (btree_get (rp_slots st) (claim_slot_key c s))) (\<lambda>l.
     if \<not> lease_identity_matches l c s then Inl RepoLeaseInconsistent else Inr ())"

fun clear_leases ::
    "claim \<Rightarrow> slot_binding list \<Rightarrow> repo \<Rightarrow> (repo, repository_error, unit) mutation" where
  "clear_leases c [] st = (st, Inr ())"
| "clear_leases c (s # ss) st =
     (if is_shared_capacity (sb_kind s) then clear_leases c ss st
      else
        case btree_get (rp_slots st) (claim_slot_key c s) of
          None \<Rightarrow> (st, Inl RepoLeaseDisappeared)
        | Some l \<Rightarrow>
            clear_leases c ss
              (st\<lparr>rp_slots := btree_insert (claim_slot_key c s) (l\<lparr>sl_active_claim_id := None\<rparr>)
                   (rp_slots st)\<rparr>))"

definition release_slots :: "repo \<Rightarrow> claim \<Rightarrow> (repo, repository_error, unit) mutation" where
  "release_slots st c =
     (case try_for_each (verify_lease st c) (rc_slots c) of
        Inl e \<Rightarrow> (st, Inl e)
      | Inr _ \<Rightarrow> clear_leases c (rc_slots c) st)"

section \<open>Mutations and queries\<close>

definition repo_find :: "repo \<Rightarrow> uuid \<Rightarrow> uuid \<Rightarrow> (repository_error, claim) result" where
  "repo_find st organization_id claim_id =
     ok_or RepoNotFound
       (case btree_get (rp_claims st) claim_id of None \<Rightarrow> None
        | Some c \<Rightarrow> if rc_organization_id c = organization_id then Some c else None)"

definition repo_mutate ::
    "repo \<Rightarrow> uuid \<Rightarrow> uuid \<Rightarrow> u64 \<Rightarrow> (claim \<Rightarrow> claim_mutation)
      \<Rightarrow> (repo, repository_error, claim) mutation" where
  "repo_mutate st organization_id claim_id expected_version transition =
     (case repo_find st organization_id claim_id of
        Inl e \<Rightarrow> (st, Inl e)
      | Inr current \<Rightarrow>
          (case transition current of
             (_, Inl e) \<Rightarrow> (st, Inl (RepoConflict e))
           | (next, Inr _) \<Rightarrow>
               if next = current then (st, Inr current)
               else if rc_aggregate_version current \<noteq> expected_version
               then (st, Inl (RepoVersionConflict expected_version (rc_aggregate_version current)))
               else
                 (case (if rc_state next = ClaimReleased then release_slots st next
                        else (st, Inr ())) of
                    (st, Inl e) \<Rightarrow> (st, Inl e)
                  | (st, Inr _) \<Rightarrow>
                      (st\<lparr>rp_claims := btree_insert claim_id next (rp_claims st)\<rparr>, Inr next))))"

definition repo_has_active_claims :: "repo \<Rightarrow> uuid \<Rightarrow> uuid \<Rightarrow> (repository_error, bool) result" where
  "repo_has_active_claims st organization_id node_id =
     (if is_nil node_id then Inl RepoNodeInvalid
      else Inr (list_ex (live_on_node organization_id node_id) (btree_values (rp_claims st))))"

definition repo_begin_preparation ::
    "repo \<Rightarrow> uuid \<Rightarrow> uuid \<Rightarrow> u64 \<Rightarrow> uuid \<Rightarrow> timestamp \<Rightarrow> (repo, repository_error, claim) mutation" where
  "repo_begin_preparation st organization_id claim_id v command_id at =
     repo_mutate st organization_id claim_id v (\<lambda>c. claim_begin_preparation c command_id at)"

definition repo_record_prepared ::
    "repo \<Rightarrow> uuid \<Rightarrow> uuid \<Rightarrow> u64 \<Rightarrow> uuid \<Rightarrow> string \<Rightarrow> timestamp
      \<Rightarrow> (repo, repository_error, claim) mutation" where
  "repo_record_prepared st organization_id claim_id v command_id binding_digest at =
     repo_mutate st organization_id claim_id v (\<lambda>c. claim_record_prepared c command_id binding_digest at)"

definition repo_bind ::
    "repo \<Rightarrow> uuid \<Rightarrow> uuid \<Rightarrow> u64 \<Rightarrow> binding_evidence \<Rightarrow> timestamp
      \<Rightarrow> (repo, repository_error, claim) mutation" where
  "repo_bind st organization_id claim_id v evidence at =
     repo_mutate st organization_id claim_id v (\<lambda>c. claim_bind c evidence at)"

definition repo_begin_release ::
    "externals \<Rightarrow> repo \<Rightarrow> uuid \<Rightarrow> uuid \<Rightarrow> u64 \<Rightarrow> uuid \<Rightarrow> timestamp
      \<Rightarrow> (repo, repository_error, claim) mutation" where
  "repo_begin_release X st organization_id claim_id v command_id at =
     repo_mutate st organization_id claim_id v (\<lambda>c. claim_begin_release X c command_id at)"

definition repo_record_released ::
    "repo \<Rightarrow> uuid \<Rightarrow> uuid \<Rightarrow> u64 \<Rightarrow> release_evidence \<Rightarrow> timestamp
      \<Rightarrow> (repo, repository_error, claim) mutation" where
  "repo_record_released st organization_id claim_id v evidence at =
     repo_mutate st organization_id claim_id v (\<lambda>c. claim_record_released c evidence at)"

definition repo_cancel_database_reservation ::
    "repo \<Rightarrow> uuid \<Rightarrow> uuid \<Rightarrow> u64 \<Rightarrow> timestamp \<Rightarrow> (repo, repository_error, claim) mutation" where
  "repo_cancel_database_reservation st organization_id claim_id v at =
     repo_mutate st organization_id claim_id v (\<lambda>c. claim_cancel_database_reservation c at)"

definition repo_orphan ::
    "repo \<Rightarrow> uuid \<Rightarrow> uuid \<Rightarrow> u64 \<Rightarrow> string \<Rightarrow> timestamp \<Rightarrow> (repo, repository_error, claim) mutation" where
  "repo_orphan st organization_id claim_id v failure at =
     repo_mutate st organization_id claim_id v (\<lambda>c. claim_orphan c failure at)"

section \<open>Runs\<close>

text \<open>A claim method with its arguments: what the operations hand to \<open>mutate\<close>.\<close>

definition claim_transition :: "externals \<Rightarrow> (claim \<Rightarrow> claim_mutation) \<Rightarrow> bool" where
  "claim_transition X f \<longleftrightarrow> (\<forall>c. claim_call X c (fst (f c)) (snd (f c)))"

inductive repo_step :: "externals \<Rightarrow> (reservation \<Rightarrow> bool) \<Rightarrow> repo \<Rightarrow> repo \<Rightarrow> bool" for X admitted where
  reserve: "atomic_reservation_new X rs = Inr batch \<Longrightarrow> list_all admitted batch \<Longrightarrow>
    repo_reserve_atomically X fresh st batch = (st', r) \<Longrightarrow> repo_step X admitted st st'"
| mutate: "claim_transition X f \<Longrightarrow> repo_mutate st organization_id i v f = (st', r) \<Longrightarrow>
    repo_step X admitted st st'"

section \<open>Lease maps\<close>

lemma insert_leases_wf: "btree_wf m \<Longrightarrow> btree_wf (insert_leases i ps m)"
  by (induction i ps m rule: insert_leases.induct) (auto simp: btree.invar_put)

lemma get_insert_leases:
  "btree_wf m \<Longrightarrow> distinct (map fst ps) \<Longrightarrow>
   btree_get (insert_leases i ps m) k =
     (case map_of ps k of None \<Rightarrow> btree_get m k | Some s \<Rightarrow> Some (slot_lease i s))"
proof (induction i ps m rule: insert_leases.induct)
  case (2 i key s ps m)
  have "map_of ps key = None"
    using 2(3) by (simp add: map_of_eq_None_iff)
  then show ?case
    using 2 by (auto simp: btree.get_put btree.invar_put split: option.split)
qed simp

text \<open>What clearing the exclusive leases of a claim does, and that it succeeds when they all exist.\<close>

lemma clear_leases_spec:
  assumes "btree_wf (rp_slots st)"
    and "\<forall>s\<in>set ss. btree_get (rp_slots st) (claim_slot_key c s) \<noteq> None"
  shows "\<exists>st'. clear_leases c ss st = (st', Inr ()) \<and> rp_claims st' = rp_claims st \<and>
    btree_wf (rp_slots st') \<and>
    (\<forall>k. btree_get (rp_slots st') k =
      (if \<exists>s\<in>set ss. \<not> is_shared_capacity (sb_kind s) \<and> k = claim_slot_key c s
       then map_option (\<lambda>l. l\<lparr>sl_active_claim_id := None\<rparr>) (btree_get (rp_slots st) k)
       else btree_get (rp_slots st) k))"
  using assms
proof (induction c ss st rule: clear_leases.induct)
  case (2 c s ss st)
  show ?case
  proof (cases "is_shared_capacity (sb_kind s)")
    case True
    with 2 show ?thesis by auto
  next
    case False
    obtain l where l: "btree_get (rp_slots st) (claim_slot_key c s) = Some l"
      using 2(4) by auto
    let ?st = "st\<lparr>rp_slots := btree_insert (claim_slot_key c s) (l\<lparr>sl_active_claim_id := None\<rparr>)
      (rp_slots st)\<rparr>"
    have get: "btree_get (rp_slots ?st) =
        (btree_get (rp_slots st))(claim_slot_key c s \<mapsto> l\<lparr>sl_active_claim_id := None\<rparr>)"
      using 2(3) by (simp add: btree.get_put)
    have "\<forall>s\<in>set ss. btree_get (rp_slots ?st) (claim_slot_key c s) \<noteq> None" "btree_wf (rp_slots ?st)"
      using 2(3,4) by (auto simp: btree.get_put btree.invar_put)
    from 2(2) [OF False l this(2,1)] obtain st' where st': "clear_leases c ss ?st = (st', Inr ())"
      "rp_claims st' = rp_claims st" "btree_wf (rp_slots st')"
      "\<forall>k. btree_get (rp_slots st') k =
        (if \<exists>s\<in>set ss. \<not> is_shared_capacity (sb_kind s) \<and> k = claim_slot_key c s
         then map_option (\<lambda>l. l\<lparr>sl_active_claim_id := None\<rparr>) (btree_get (rp_slots ?st) k)
         else btree_get (rp_slots ?st) k)"
      by auto
    show ?thesis
      using st' False l get by (intro exI [of _ st']) (auto simp: fun_upd_apply)
  qed
qed auto

section \<open>Invariant\<close>

definition claim_live :: "claim \<Rightarrow> bool" where
  "claim_live c \<longleftrightarrow> rc_state c \<noteq> ClaimReleased"

text \<open>
  The store is keyed by claim id and every claim is valid; the slots of every claim have a lease that
  is at least as new, and one that still names it if the claim is live; no two claims ever had the
  same generation of a slot; and live claims of one workload on one node are of one replica.
\<close>

definition leases_back_claims :: "repo \<Rightarrow> bool" where
  "leases_back_claims st \<longleftrightarrow>
     (\<forall>i c s. btree_get (rp_claims st) i = Some c \<and> s \<in> set (rc_slots c) \<longrightarrow>
       (\<exists>l. btree_get (rp_slots st) (claim_slot_key c s) = Some l \<and>
          sb_slot_generation s \<le> sl_generation l \<and>
          (claim_live c \<longrightarrow> lease_identity_matches l c s)))"

definition slot_generations_unique :: "repo \<Rightarrow> bool" where
  "slot_generations_unique st \<longleftrightarrow>
     (\<forall>i j c d s t. btree_get (rp_claims st) i = Some c \<and> btree_get (rp_claims st) j = Some d \<and> i \<noteq> j \<and>
        s \<in> set (rc_slots c) \<and> t \<in> set (rc_slots d) \<and> claim_slot_key c s = claim_slot_key d t \<longrightarrow>
        sb_slot_generation s \<noteq> sb_slot_generation t)"

definition replicas_anti_affine :: "repo \<Rightarrow> bool" where
  "replicas_anti_affine st \<longleftrightarrow>
     (\<forall>i j c d. btree_get (rp_claims st) i = Some c \<and> btree_get (rp_claims st) j = Some d \<and>
        claim_live c \<and> claim_live d \<and> rc_organization_id c = rc_organization_id d \<and>
        rc_workload_id c = rc_workload_id d \<and> rc_node_id c = rc_node_id d \<longrightarrow>
        rc_replica_id c = rc_replica_id d)"

definition repo_inv :: "externals \<Rightarrow> repo \<Rightarrow> bool" where
  "repo_inv X st \<longleftrightarrow>
     btree_wf (rp_claims st) \<and> btree_wf (rp_slots st) \<and>
     (\<forall>i c. btree_get (rp_claims st) i = Some c \<longrightarrow> rc_id c = i \<and> claim_inv X c) \<and>
     leases_back_claims st \<and> slot_generations_unique st \<and> replicas_anti_affine st"

lemma repo_new_inv: "repo_inv X repo_new"
  by (simp add: repo_inv_def repo_new_def leases_back_claims_def slot_generations_unique_def
      replicas_anti_affine_def)

subsection \<open>Reserving keeps it\<close>

lemma reserve_slot_facts:
  assumes "reserve_slot fresh st r q = Inr (k, s)"
  shows "k = request_slot_key r q" "sb_kind s = sr_kind q"
    "sb_stable_resource_id s = sr_stable_resource_id q" "sb_allocation s = sr_allocation q"
    "sb_fence_token s = fresh (rs_id r) (sr_key q)"
    "case btree_get (rp_slots st) k of None \<Rightarrow> sb_slot_generation s = 1
     | Some l \<Rightarrow> sl_generation l < sb_slot_generation s"
    "\<not> is_shared_capacity (sr_kind q) \<Longrightarrow>
      case btree_get (rp_slots st) k of None \<Rightarrow> True | Some l \<Rightarrow> sl_active_claim_id l = None"
    "is_shared_capacity (sr_kind q) \<Longrightarrow> validate_shared_capacity st r q = Inr ()"
  using assms
  by (auto simp: reserve_slot_def Let_def checked_inc_less split: if_split_asm option.split_asm)

text \<open>A claim that was just reserved, with what the repository wrote for it.\<close>

definition newly_reserved ::
    "repo \<Rightarrow> reservation \<Rightarrow> (slot_key \<times> slot_binding) list \<Rightarrow> claim \<Rightarrow> bool" where
  "newly_reserved st r ps c \<longleftrightarrow>
     btree_get (rp_claims st) (rc_id c) = None \<and> rs_id r = rc_id c \<and>
     distinct (map fst ps) \<and> rc_slots c = map snd ps \<and> claim_live c \<and> reservation_matches r c \<and>
     (\<forall>(k, s)\<in>set ps. k = claim_slot_key c s \<and>
        (case btree_get (rp_slots st) k of None \<Rightarrow> True
         | Some l \<Rightarrow> sl_generation l < sb_slot_generation s \<and>
             (is_shared_capacity (sb_kind s) \<or> sl_active_claim_id l = None))) \<and>
     (\<forall>i d. btree_get (rp_claims st) i = Some d \<longrightarrow> \<not> violates_anti_affinity r d)"

lemma list_all2_preimage: "list_all2 P xs ys \<Longrightarrow> y \<in> set ys \<Longrightarrow> \<exists>x\<in>set xs. P x y"
  by (induction rule: list_all2_induct) auto

lemma distinct_slot_keys:
  "distinct (map sb_key ss) \<Longrightarrow> distinct (map (claim_slot_key c) ss)"
  by (auto simp: distinct_map inj_on_def claim_slot_key_def sb_key_def)

lemma reserve_new_claim_facts:
  assumes "reserve_new_claim X fresh st r = Inr (st', c)" and "hash_laws X"
    and "btree_wf (rp_claims st)"
  shows "\<exists>ps. newly_reserved st r ps c \<and> claim_inv X c \<and>
    list_all2 (\<lambda>q p. reserve_slot fresh st r q = Inr p) (rs_slots r) ps \<and>
    st' = st\<lparr>rp_slots := insert_leases (rc_id c) ps (rp_slots st),
            rp_claims := btree_insert (rc_id c) c (rp_claims st)\<rparr>"
proof -
  obtain ps where none: "btree_get (rp_claims st) (rs_id r) = None"
    and affine: "\<not> list_ex (violates_anti_affinity r) (btree_values (rp_claims st))"
    and ps: "list_all2 (\<lambda>q p. reserve_slot fresh st r q = Inr p) (rs_slots r) ps"
    and c: "claim_reserve X r (map snd ps) = Inr c"
    and st': "st' = st\<lparr>rp_slots := insert_leases (rc_id c) ps (rp_slots st),
            rp_claims := btree_insert (rc_id c) c (rp_claims st)\<rparr>"
    using assms(1) by (auto simp: reserve_new_claim_def try_map_ok_iff split: if_split_asm)
  note facts = claim_reserve_facts [OF assms(2) c]
  have ids: "rs_id r = rc_id c" "drb_organization_id (rs_binding r) = rc_organization_id c"
    "rs_node_id r = rc_node_id c"
    using facts(2) by (auto simp: reservation_matches_def Let_def)
  have each: "k = claim_slot_key c s \<and>
      (case btree_get (rp_slots st) k of None \<Rightarrow> True
       | Some l \<Rightarrow> sl_generation l < sb_slot_generation s \<and>
           (is_shared_capacity (sb_kind s) \<or> sl_active_claim_id l = None))" if member: "(k, s) \<in> set ps" for k s
  proof -
    obtain q where q: "reserve_slot fresh st r q = Inr (k, s)"
      using list_all2_preimage [OF ps member] by blast
    from reserve_slot_facts [OF q] show ?thesis
      using ids by (cases "is_shared_capacity (sr_kind q)")
        (auto simp: request_slot_key_def claim_slot_key_def split: option.split)
  qed
  have keys: "map fst ps = map (claim_slot_key c) (rc_slots c)"
    using each facts(4) by (auto simp: split_beta)
  have "distinct (map sb_key (rc_slots c))"
    unfolding facts(4)
    by (rule slot_set_distinct [OF claim_reserve_parts(3) [OF c, unfolded validate_slot_bindings_def]])
  then have "distinct (map fst ps)"
    unfolding keys by (rule distinct_slot_keys)
  moreover have "\<forall>i d. btree_get (rp_claims st) i = Some d \<longrightarrow> \<not> violates_anti_affinity r d"
    using affine btree.vals_get [OF assms(3)] by (auto simp: list_ex_iff)
  ultimately show ?thesis
    using none ids(1) facts each ps st' by (intro exI [of _ ps]) (auto simp: newly_reserved_def claim_live_def)
qed

lemma newly_reserved_lease:
  assumes "newly_reserved st r ps c" and "btree_wf (rp_slots st)"
  shows "s \<in> set (rc_slots c) \<Longrightarrow>
      btree_get (insert_leases (rc_id c) ps (rp_slots st)) (claim_slot_key c s) = Some (slot_lease (rc_id c) s)"
    and "k \<notin> claim_slot_key c ` set (rc_slots c) \<Longrightarrow>
      btree_get (insert_leases (rc_id c) ps (rp_slots st)) k = btree_get (rp_slots st) k"
proof -
  have ps: "distinct (map fst ps)" "rc_slots c = map snd ps" "\<forall>(k, s)\<in>set ps. k = claim_slot_key c s"
    using assms(1) by (auto simp: newly_reserved_def)
  show "btree_get (insert_leases (rc_id c) ps (rp_slots st)) (claim_slot_key c s) = Some (slot_lease (rc_id c) s)"
    if "s \<in> set (rc_slots c)"
  proof -
    from that ps have "(claim_slot_key c s, s) \<in> set ps" by auto
    then have "map_of ps (claim_slot_key c s) = Some s"
      by (rule map_of_is_SomeI [OF ps(1)])
    then show ?thesis by (simp add: get_insert_leases [OF assms(2) ps(1)])
  qed
  show "btree_get (insert_leases (rc_id c) ps (rp_slots st)) k = btree_get (rp_slots st) k"
    if "k \<notin> claim_slot_key c ` set (rc_slots c)"
  proof -
    from that ps have "map_of ps k = None" by (force simp: map_of_eq_None_iff)
    then show ?thesis by (simp add: get_insert_leases [OF assms(2) ps(1)])
  qed
qed

lemma newly_reserved_over_lease:
  assumes "newly_reserved st r ps c" and "s \<in> set (rc_slots c)"
    and "btree_get (rp_slots st) (claim_slot_key c s) = Some l"
  shows "sl_generation l < sb_slot_generation s"
    "is_shared_capacity (sb_kind s) \<or> sl_active_claim_id l = None"
  using assms by (fastforce simp: newly_reserved_def)+

lemma slot_lease_matches: "rc_id c = i \<Longrightarrow> lease_identity_matches (slot_lease i s) c s"
  by (simp add: lease_identity_matches_def slot_lease_def)

lemma leases_back_claims_reserve:
  assumes inv: "repo_inv X st" and new: "newly_reserved st r ps c"
  shows "leases_back_claims (st\<lparr>rp_slots := insert_leases (rc_id c) ps (rp_slots st),
            rp_claims := btree_insert (rc_id c) c (rp_claims st)\<rparr>)"
  unfolding leases_back_claims_def
proof (intro allI impI, elim conjE)
  have wf: "btree_wf (rp_claims st)" "btree_wf (rp_slots st)" and backs: "leases_back_claims st"
    using inv by (auto simp: repo_inv_def)
  note lease = newly_reserved_lease [OF new wf(2)]
  let ?slots = "insert_leases (rc_id c) ps (rp_slots st)"
  fix i d s
  assume d: "btree_get (rp_claims (st\<lparr>rp_slots := ?slots,
      rp_claims := btree_insert (rc_id c) c (rp_claims st)\<rparr>)) i = Some d"
    and s: "s \<in> set (rc_slots d)"
  show "\<exists>l. btree_get (rp_slots (st\<lparr>rp_slots := ?slots,
        rp_claims := btree_insert (rc_id c) c (rp_claims st)\<rparr>)) (claim_slot_key d s) = Some l \<and>
      sb_slot_generation s \<le> sl_generation l \<and> (claim_live d \<longrightarrow> lease_identity_matches l d s)"
  proof (cases "i = rc_id c")
    case True
    with d have "d = c" using wf(1) by (simp add: btree.get_put)
    with lease(1) s show ?thesis by (auto simp: slot_lease_matches, simp add: slot_lease_def)
  next
    case False
    with d have "btree_get (rp_claims st) i = Some d" using wf(1) by (simp add: btree.get_put)
    with backs s obtain l where l: "btree_get (rp_slots st) (claim_slot_key d s) = Some l"
      "sb_slot_generation s \<le> sl_generation l" "claim_live d \<longrightarrow> lease_identity_matches l d s"
      unfolding leases_back_claims_def by blast
    show ?thesis
    proof (cases "claim_slot_key d s \<in> claim_slot_key c ` set (rc_slots c)")
      case False
      with l lease(2) show ?thesis by auto
    next
      case True
      then obtain t where t: "t \<in> set (rc_slots c)" "claim_slot_key d s = claim_slot_key c t" by blast
      then have kind: "sb_kind t = sb_kind s" by (simp add: claim_slot_key_def)
      note over = newly_reserved_over_lease [OF new t(1) l(1) [unfolded t(2)]]
      have "claim_live d \<longrightarrow> lease_identity_matches (slot_lease (rc_id c) t) d s"
        using l(2,3) over kind
        by (auto simp: lease_identity_matches_def slot_lease_def split: if_split_asm)
      with l(2) over(1) lease(1) [OF t(1)] t(2) show ?thesis by (auto simp: slot_lease_def)
    qed
  qed
qed

lemma slot_generations_unique_reserve:
  assumes inv: "repo_inv X st" and new: "newly_reserved st r ps c"
  shows "slot_generations_unique (st\<lparr>rp_slots := sl,
            rp_claims := btree_insert (rc_id c) c (rp_claims st)\<rparr>)"
proof -
  have wf: "btree_wf (rp_claims st)" and backs: "leases_back_claims st"
    and uniq: "slot_generations_unique st"
    using inv by (auto simp: repo_inv_def)
  have fresh: "sb_slot_generation t \<noteq> sb_slot_generation s"
    if d: "btree_get (rp_claims st) i = Some d" "t \<in> set (rc_slots d)" and s: "s \<in> set (rc_slots c)"
      and key: "claim_slot_key d t = claim_slot_key c s" for i d s t
  proof -
    obtain l where l: "btree_get (rp_slots st) (claim_slot_key d t) = Some l"
        "sb_slot_generation t \<le> sl_generation l"
      using backs d unfolding leases_back_claims_def by blast
    then show ?thesis
      using newly_reserved_over_lease(1) [OF new s, of l] key by auto
  qed
  show ?thesis
    unfolding slot_generations_unique_def
  proof (intro allI impI, elim conjE)
    fix i j a b s t
    assume *: "btree_get (rp_claims (st\<lparr>rp_slots := sl,
          rp_claims := btree_insert (rc_id c) c (rp_claims st)\<rparr>)) i = Some a"
      "btree_get (rp_claims (st\<lparr>rp_slots := sl,
          rp_claims := btree_insert (rc_id c) c (rp_claims st)\<rparr>)) j = Some b"
      "i \<noteq> j" "s \<in> set (rc_slots a)" "t \<in> set (rc_slots b)" "claim_slot_key a s = claim_slot_key b t"
    have get: "btree_get (btree_insert (rc_id c) c (rp_claims st)) k =
        (if k = rc_id c then Some c else btree_get (rp_claims st) k)" for k
      using wf by (simp add: btree.get_put)
    from * have a: "if i = rc_id c then a = c else btree_get (rp_claims st) i = Some a"
      and b: "if j = rc_id c then b = c else btree_get (rp_claims st) j = Some b"
      by (simp_all add: get split: if_split_asm)
    show "sb_slot_generation s \<noteq> sb_slot_generation t"
    proof (cases "i = rc_id c \<or> j = rc_id c")
      case True
      then show ?thesis
        using a b *(3-6) fresh [of j b t s] fresh [of i a s t] by (auto split: if_split_asm)
    next
      case False
      with a b *(3-6) uniq show ?thesis unfolding slot_generations_unique_def by metis
    qed
  qed
qed

lemma replicas_anti_affine_reserve:
  assumes inv: "repo_inv X st" and new: "newly_reserved st r ps c"
  shows "replicas_anti_affine (st\<lparr>rp_slots := sl,
            rp_claims := btree_insert (rc_id c) c (rp_claims st)\<rparr>)"
proof -
  have wf: "btree_wf (rp_claims st)" and aff: "replicas_anti_affine st"
    using inv by (auto simp: repo_inv_def)
  have same: "rc_replica_id d = rc_replica_id c"
    if "btree_get (rp_claims st) i = Some d" "claim_live d" "rc_organization_id d = rc_organization_id c"
      "rc_workload_id d = rc_workload_id c" "rc_node_id d = rc_node_id c" for i d
  proof -
    have "\<not> violates_anti_affinity r d" and "reservation_matches r c"
      using new that(1) unfolding newly_reserved_def by blast+
    with that show ?thesis
      by (auto simp: violates_anti_affinity_def reservation_matches_def claim_live_def Let_def)
  qed
  show ?thesis
    unfolding replicas_anti_affine_def
  proof (intro allI impI, elim conjE)
    fix i j a b
    assume *: "btree_get (rp_claims (st\<lparr>rp_slots := sl,
          rp_claims := btree_insert (rc_id c) c (rp_claims st)\<rparr>)) i = Some a"
      "btree_get (rp_claims (st\<lparr>rp_slots := sl,
          rp_claims := btree_insert (rc_id c) c (rp_claims st)\<rparr>)) j = Some b"
      "claim_live a" "claim_live b" "rc_organization_id a = rc_organization_id b"
      "rc_workload_id a = rc_workload_id b" "rc_node_id a = rc_node_id b"
    then have "(a = c \<or> btree_get (rp_claims st) i = Some a) \<and> (b = c \<or> btree_get (rp_claims st) j = Some b)"
      using wf by (auto simp: btree.get_put split: if_split_asm)
    with * same [of i a] same [of j b] aff show "rc_replica_id a = rc_replica_id b"
      unfolding replicas_anti_affine_def by metis
  qed
qed

lemma reserve_new_claim_inv:
  assumes "reserve_new_claim X fresh st r = Inr (st', c)" and "hash_laws X" and inv: "repo_inv X st"
  shows "repo_inv X st'"
proof -
  have wf: "btree_wf (rp_claims st)" "btree_wf (rp_slots st)"
    using inv by (auto simp: repo_inv_def)
  obtain ps where new: "newly_reserved st r ps c" and c: "claim_inv X c"
    and st': "st' = st\<lparr>rp_slots := insert_leases (rc_id c) ps (rp_slots st),
            rp_claims := btree_insert (rc_id c) c (rp_claims st)\<rparr>"
    using reserve_new_claim_facts [OF assms(1,2) wf(1)] by blast
  have "\<forall>i d. btree_get (rp_claims st') i = Some d \<longrightarrow> rc_id d = i \<and> claim_inv X d"
    using inv wf(1) c unfolding st' by (auto simp: repo_inv_def btree.get_put)
  then show ?thesis
    using leases_back_claims_reserve [OF inv new] slot_generations_unique_reserve [OF inv new]
      replicas_anti_affine_reserve [OF inv new] wf
    unfolding repo_inv_def st' by (simp add: btree.invar_put insert_leases_wf)
qed

lemma reserve_members_induct:
  "reserve_members X fresh st rs = Inr (st', cs) \<Longrightarrow> P st \<Longrightarrow>
   (\<forall>u r v c. P u \<and> r \<in> set rs \<and> reserve_new_claim X fresh u r = Inr (v, c) \<longrightarrow> P v) \<Longrightarrow> P st'"
proof (induction rs arbitrary: st cs)
  case (Cons r rs)
  obtain u c ds where u: "reserve_new_claim X fresh st r = Inr (u, c)"
    and rest: "reserve_members X fresh u rs = Inr (st', ds)"
    using Cons.prems(1) by (auto split: prod.split_asm)
  have "P u" using Cons.prems(2,3) u by auto
  moreover have "\<forall>u r v c. P u \<and> r \<in> set rs \<and> reserve_new_claim X fresh u r = Inr (v, c) \<longrightarrow> P v"
    using Cons.prems(3) by auto
  ultimately show ?case by (rule Cons.IH [OF rest])
qed simp

lemma reserve_atomically_induct:
  assumes "repo_reserve_atomically X fresh st rs = (st', w)" and "P st"
    and "\<And>u r v c. P u \<Longrightarrow> r \<in> set rs \<Longrightarrow> reserve_new_claim X fresh u r = Inr (v, c) \<Longrightarrow> P v"
  shows "P st'"
proof (cases "st' = st")
  case False
  with assms(1) obtain cs where "reserve_members X fresh st rs = Inr (st', cs)"
    by (auto simp: repo_reserve_atomically_def Let_def split: if_split_asm sum.split_asm prod.split_asm)
  from reserve_members_induct [where P = P, OF this assms(2)] assms(3) show ?thesis by blast
qed (use assms(2) in simp)

subsection \<open>Mutations keep it\<close>

lemma claim_step_live: "claim_step X c c' \<Longrightarrow> claim_live c' \<Longrightarrow> claim_live c"
  using claim_step_change claim_change_edge by (fastforce simp: claim_live_def)

lemma claim_identity_fields:
  assumes "claim_identity c' = claim_identity c"
  shows "rc_id c' = rc_id c" "rc_slots c' = rc_slots c" "claim_slot_key c' = claim_slot_key c"
    "rc_organization_id c' = rc_organization_id c" "rc_workload_id c' = rc_workload_id c"
    "rc_node_id c' = rc_node_id c" "rc_replica_id c' = rc_replica_id c"
    "lease_identity_matches l c' s = lease_identity_matches l c s"
  using assms by (auto simp: claim_identity_def claim_slot_key_def lease_identity_matches_def fun_eq_iff)

text \<open>Under the invariant, releasing the slots of a live claim succeeds and clears exactly its leases.\<close>

lemma release_slots_spec:
  assumes inv: "repo_inv X st" and c: "btree_get (rp_claims st) i = Some c" "claim_live c"
    and same: "claim_identity c' = claim_identity c"
  shows "\<exists>st'. release_slots st c' = (st', Inr ()) \<and> rp_claims st' = rp_claims st \<and>
    btree_wf (rp_slots st') \<and>
    (\<forall>k. btree_get (rp_slots st') k =
      (if \<exists>s\<in>set (rc_slots c). \<not> is_shared_capacity (sb_kind s) \<and> k = claim_slot_key c s
       then map_option (\<lambda>l. l\<lparr>sl_active_claim_id := None\<rparr>) (btree_get (rp_slots st) k)
       else btree_get (rp_slots st) k))"
proof -
  note eqs = claim_identity_fields [OF same]
  have leases: "\<exists>l. btree_get (rp_slots st) (claim_slot_key c s) = Some l \<and> lease_identity_matches l c s"
    if "s \<in> set (rc_slots c)" for s
    using inv c that unfolding repo_inv_def leases_back_claims_def by blast
  have "try_for_each (verify_lease st c') (rc_slots c') = Inr ()"
    using leases by (fastforce simp: verify_lease_def eqs)
  then have "release_slots st c' = clear_leases c' (rc_slots c) st"
    by (simp add: release_slots_def eqs(2) del: try_for_each_ok_iff)
  moreover have "\<forall>s\<in>set (rc_slots c). btree_get (rp_slots st) (claim_slot_key c' s) \<noteq> None"
    using leases by (fastforce simp: eqs)
  moreover have "btree_wf (rp_slots st)" using inv by (simp add: repo_inv_def)
  ultimately show ?thesis
    using clear_leases_spec [of st "rc_slots c" c'] unfolding eqs(3) by presburger
qed

text \<open>The three outcomes of a mutation in a reachable state.\<close>

lemma repo_mutate_cases:
  assumes "repo_mutate st org i v f = (st', r)" and "claim_transition X f" and inv: "repo_inv X st"
  obtains (unchanged) "st' = st"
    | (changed) c c' where "btree_get (rp_claims st) i = Some c" "claim_step X c c'" "c' \<noteq> c"
        "claim_live c'" "rc_aggregate_version c = v"
        "st' = st\<lparr>rp_claims := btree_insert i c' (rp_claims st)\<rparr>" "r = Inr c'"
    | (released) c c' u where "btree_get (rp_claims st) i = Some c" "claim_step X c c'" "c' \<noteq> c"
        "\<not> claim_live c'" "claim_live c" "rc_aggregate_version c = v"
        "release_slots st c' = (u, Inr ())"
        "st' = u\<lparr>rp_claims := btree_insert i c' (rp_claims u)\<rparr>" "r = Inr c'"
proof (cases "st' = st")
  case False
  then obtain c c' where c: "btree_get (rp_claims st) i = Some c" "f c = (c', Inr ())" "c' \<noteq> c"
    "rc_aggregate_version c = v"
    and st': "(case (if rc_state c' = ClaimReleased then release_slots st c' else (st, Inr ())) of
                    (st, Inl e) \<Rightarrow> (st, Inl e)
                  | (st, Inr _) \<Rightarrow>
                      (st\<lparr>rp_claims := btree_insert i c' (rp_claims st)\<rparr>, Inr c')) = (st', r)"
    using assms(1) by (auto simp: repo_mutate_def repo_find_def ok_or_def
        split: sum.split_asm prod.split_asm if_split_asm option.split_asm)
  have "claim_call X c (fst (f c)) (snd (f c))"
    using assms(2) by (simp add: claim_transition_def)
  with c(2) have step: "claim_step X c c'" by (simp add: claim_step_def)
  show ?thesis
  proof (cases "claim_live c'")
    case True
    with st' have "st' = st\<lparr>rp_claims := btree_insert i c' (rp_claims st)\<rparr>" "r = Inr c'"
      by (simp_all add: claim_live_def)
    with changed c step True show ?thesis by blast
  next
    case False
    have live: "claim_live c"
      using claim_step_change [OF step] c(3) claim_change_edge by (fastforce simp: claim_live_def)
    obtain u where u: "release_slots st c' = (u, Inr ())"
      using release_slots_spec [OF inv c(1) live claim.step_identity [OF step]] by blast
    with st' False have "st' = u\<lparr>rp_claims := btree_insert i c' (rp_claims u)\<rparr>" "r = Inr c'"
      by (simp_all add: claim_live_def)
    with released c step False live u show ?thesis by blast
  qed
qed (rule unchanged)

text \<open>The claim map after a mutation, and that the claims keep their leases.\<close>

lemma mutated_claims:
  assumes inv: "repo_inv X st" and c: "btree_get (rp_claims st) i = Some c" and step: "claim_step X c c'"
    and d: "btree_get (btree_insert i c' (rp_claims st)) j = Some d"
  shows "\<exists>d0. btree_get (rp_claims st) j = Some d0 \<and> claim_identity d = claim_identity d0 \<and>
    (claim_live d \<longrightarrow> claim_live d0) \<and> (j \<noteq> i \<longrightarrow> d = d0)"
proof (cases "j = i")
  case True
  with d inv have "d = c'" by (simp add: repo_inv_def btree.get_put)
  with True c claim.step_identity [OF step] claim_step_live [OF step] show ?thesis by auto
next
  case False
  with d inv show ?thesis by (simp add: repo_inv_def btree.get_put)
qed

lemma repo_mutate_inv:
  assumes inv: "repo_inv X st" and "hash_laws X"
    and c: "btree_get (rp_claims st) i = Some c" and step: "claim_step X c c'"
    and wf: "btree_wf (rp_slots u)" and claims: "rp_claims u = rp_claims st"
    and leases: "leases_back_claims (u\<lparr>rp_claims := btree_insert i c' (rp_claims u)\<rparr>)"
  shows "repo_inv X (u\<lparr>rp_claims := btree_insert i c' (rp_claims u)\<rparr>)"
proof -
  let ?m = "btree_insert i c' (rp_claims st)"
  note old = mutated_claims [OF inv c step]
  have "btree_wf ?m" using inv by (simp add: repo_inv_def btree.invar_put)
  moreover have "\<forall>j d. btree_get ?m j = Some d \<longrightarrow> rc_id d = j \<and> claim_inv X d"
    using inv c claim.step_invar [OF _ step] assms(2) claim_identity_fields(1) [OF claim.step_identity [OF step]]
    by (auto simp: repo_inv_def btree.get_put)
  moreover have "slot_generations_unique (u\<lparr>rp_claims := ?m\<rparr>)"
  proof (unfold slot_generations_unique_def, intro allI impI, elim conjE)
    fix j k a b s t
    assume *: "btree_get (rp_claims (u\<lparr>rp_claims := ?m\<rparr>)) j = Some a"
      "btree_get (rp_claims (u\<lparr>rp_claims := ?m\<rparr>)) k = Some b" "j \<noteq> k"
      "s \<in> set (rc_slots a)" "t \<in> set (rc_slots b)" "claim_slot_key a s = claim_slot_key b t"
    obtain a0 where a0: "btree_get (rp_claims st) j = Some a0" "claim_identity a = claim_identity a0"
      using old *(1) by auto
    obtain b0 where b0: "btree_get (rp_claims st) k = Some b0" "claim_identity b = claim_identity b0"
      using old *(2) by auto
    note eqs = claim_identity_fields [OF a0(2)] claim_identity_fields [OF b0(2)]
    have "slot_generations_unique st" using inv by (simp add: repo_inv_def)
    from this [unfolded slot_generations_unique_def, rule_format, of j a0 k b0 s t] a0(1) b0(1) *(3-6)
    show "sb_slot_generation s \<noteq> sb_slot_generation t"
      by (simp add: eqs)
  qed
  moreover have "replicas_anti_affine (u\<lparr>rp_claims := ?m\<rparr>)"
  proof (unfold replicas_anti_affine_def, intro allI impI, elim conjE)
    fix j k a b
    assume *: "btree_get (rp_claims (u\<lparr>rp_claims := ?m\<rparr>)) j = Some a"
      "btree_get (rp_claims (u\<lparr>rp_claims := ?m\<rparr>)) k = Some b" "claim_live a" "claim_live b"
      "rc_organization_id a = rc_organization_id b" "rc_workload_id a = rc_workload_id b"
      "rc_node_id a = rc_node_id b"
    obtain a0 where a0: "btree_get (rp_claims st) j = Some a0" "claim_identity a = claim_identity a0"
        "claim_live a0"
      using old *(1,3) by auto
    obtain b0 where b0: "btree_get (rp_claims st) k = Some b0" "claim_identity b = claim_identity b0"
        "claim_live b0"
      using old *(2,4) by auto
    note eqs = claim_identity_fields [OF a0(2)] claim_identity_fields [OF b0(2)]
    have "replicas_anti_affine st" using inv by (simp add: repo_inv_def)
    from this [unfolded replicas_anti_affine_def, rule_format, of j a0 k b0] a0 b0 *(5-7)
    show "rc_replica_id a = rc_replica_id b"
      by (simp add: eqs)
  qed
  ultimately show ?thesis
    using wf leases by (simp add: repo_inv_def claims)
qed

lemma leases_back_claims_changed:
  assumes inv: "repo_inv X st" and c: "btree_get (rp_claims st) i = Some c" and step: "claim_step X c c'"
  shows "leases_back_claims (st\<lparr>rp_claims := btree_insert i c' (rp_claims st)\<rparr>)"
proof (unfold leases_back_claims_def, intro allI impI, elim conjE)
  fix j d s
  assume d: "btree_get (rp_claims (st\<lparr>rp_claims := btree_insert i c' (rp_claims st)\<rparr>)) j = Some d"
    and s: "s \<in> set (rc_slots d)"
  obtain d0 where d0: "btree_get (rp_claims st) j = Some d0" "claim_identity d = claim_identity d0"
      "claim_live d \<longrightarrow> claim_live d0"
    using mutated_claims [OF inv c step] d by auto
  note eqs = claim_identity_fields [OF d0(2)]
  have "leases_back_claims st" using inv by (simp add: repo_inv_def)
  then obtain l where "btree_get (rp_slots st) (claim_slot_key d0 s) = Some l"
      "sb_slot_generation s \<le> sl_generation l" "claim_live d0 \<longrightarrow> lease_identity_matches l d0 s"
    using d0(1) s eqs(2) unfolding leases_back_claims_def by metis
  then show "\<exists>l. btree_get (rp_slots (st\<lparr>rp_claims := btree_insert i c' (rp_claims st)\<rparr>))
        (claim_slot_key d s) = Some l \<and> sb_slot_generation s \<le> sl_generation l \<and>
      (claim_live d \<longrightarrow> lease_identity_matches l d s)"
    using d0(3) eqs by auto
qed

text \<open>
  Clearing the leases of a claim cannot disturb another live claim: an exclusive lease names one claim
  only.
\<close>

lemma leases_back_claims_released:
  assumes inv: "repo_inv X st" and c: "btree_get (rp_claims st) i = Some c" "claim_live c"
    and step: "claim_step X c c'" and dead: "\<not> claim_live c'"
    and u: "rp_claims u = rp_claims st"
      "\<forall>k. btree_get (rp_slots u) k =
      (if \<exists>s\<in>set (rc_slots c). \<not> is_shared_capacity (sb_kind s) \<and> k = claim_slot_key c s
       then map_option (\<lambda>l. l\<lparr>sl_active_claim_id := None\<rparr>) (btree_get (rp_slots st) k)
       else btree_get (rp_slots st) k)"
  shows "leases_back_claims (u\<lparr>rp_claims := btree_insert i c' (rp_claims u)\<rparr>)"
proof (unfold leases_back_claims_def, intro allI impI, elim conjE)
  let ?u = "u\<lparr>rp_claims := btree_insert i c' (rp_claims u)\<rparr>"
  fix j d s
  assume d: "btree_get (rp_claims ?u) j = Some d" and s: "s \<in> set (rc_slots d)"
  obtain d0 where d0: "btree_get (rp_claims st) j = Some d0" "claim_identity d = claim_identity d0"
      "claim_live d \<longrightarrow> claim_live d0" "j \<noteq> i \<longrightarrow> d = d0"
    using mutated_claims [OF inv c(1) step] d u(1) by auto
  note eqs = claim_identity_fields [OF d0(2)]
  have backs: "leases_back_claims st" using inv by (simp add: repo_inv_def)
  obtain l where l: "btree_get (rp_slots st) (claim_slot_key d s) = Some l"
      "sb_slot_generation s \<le> sl_generation l" "claim_live d0 \<longrightarrow> lease_identity_matches l d s"
    using backs d0(1) s eqs unfolding leases_back_claims_def by metis
  show "\<exists>l. btree_get (rp_slots ?u) (claim_slot_key d s) = Some l \<and>
      sb_slot_generation s \<le> sl_generation l \<and> (claim_live d \<longrightarrow> lease_identity_matches l d s)"
  proof (cases "\<exists>t\<in>set (rc_slots c). \<not> is_shared_capacity (sb_kind t) \<and> claim_slot_key d s = claim_slot_key c t")
    case False
    have "btree_get (rp_slots u) (claim_slot_key d s) = btree_get (rp_slots st) (claim_slot_key d s)"
      using False by (subst u(2) [rule_format]) auto
    with l d0(3) show ?thesis by auto
  next
    case True
    have "btree_get (rp_slots u) (claim_slot_key d s) = Some (l\<lparr>sl_active_claim_id := None\<rparr>)"
      using True l(1) by (subst u(2) [rule_format]) auto
    note cleared = this
    obtain t where t: "t \<in> set (rc_slots c)" "\<not> is_shared_capacity (sb_kind t)"
        "claim_slot_key d s = claim_slot_key c t" using True by blast
    have "\<not> claim_live d"
    proof
      assume live: "claim_live d"
      with dead d inv u(1) have ji: "j \<noteq> i" by (auto simp: repo_inv_def btree.get_put)
      obtain l' where "btree_get (rp_slots st) (claim_slot_key c t) = Some l'" "lease_identity_matches l' c t"
        using backs c t(1) unfolding leases_back_claims_def by blast
      moreover have "sb_kind s = sb_kind t" using t(3) by (simp add: claim_slot_key_def)
      ultimately have "rc_id d = rc_id c"
        using l live d0(3) t by (auto simp: lease_identity_matches_def)
      moreover have "rc_id d = j" "rc_id c = i"
        using inv d0(1,4) ji c(1) by (auto simp: repo_inv_def)
      ultimately show False using ji by simp
    qed
    with l(2) cleared show ?thesis by simp
  qed
qed

lemma repo_step_inv:
  assumes "repo_step X admitted st st'" and laws: "hash_laws X" and inv: "repo_inv X st"
  shows "repo_inv X st'"
  using assms(1)
proof cases
  case (reserve rs batch fresh r)
  show ?thesis
    using reserve(3) inv by (rule reserve_atomically_induct) (rule reserve_new_claim_inv [OF _ laws])
next
  case (mutate f org i v r)
  from mutate(2,1) inv show ?thesis
  proof (cases rule: repo_mutate_cases)
    case unchanged
    with inv show ?thesis by simp
  next
    case (changed c c')
    have "btree_wf (rp_slots st)" using inv by (simp add: repo_inv_def)
    from repo_mutate_inv [OF inv laws changed(1,2) this refl
        leases_back_claims_changed [OF inv changed(1,2)]] changed(6) show ?thesis by simp
  next
    case (released c c' u)
    obtain u' where u: "release_slots st c' = (u', Inr ())" "rp_claims u' = rp_claims st"
      "btree_wf (rp_slots u')"
      "\<forall>k. btree_get (rp_slots u') k =
      (if \<exists>s\<in>set (rc_slots c). \<not> is_shared_capacity (sb_kind s) \<and> k = claim_slot_key c s
       then map_option (\<lambda>l. l\<lparr>sl_active_claim_id := None\<rparr>) (btree_get (rp_slots st) k)
       else btree_get (rp_slots st) k)"
      using release_slots_spec [OF inv released(1,5) claim.step_identity [OF released(2)]] by blast
    then have "u' = u" using released(7) by simp
    from repo_mutate_inv [OF inv laws released(1,2) u(3,2)
        leases_back_claims_released [OF inv released(1,5,2,4) u(2,4)]] this released(8)
    show ?thesis by simp
  qed
qed

lemma repo_run_inv:
  "(repo_step X admitted)\<^sup>*\<^sup>* st st' \<Longrightarrow> hash_laws X \<Longrightarrow> repo_inv X st \<Longrightarrow> repo_inv X st'"
  by (induction rule: rtranclp_induct) (auto intro: repo_step_inv)

end
