(* ===== verification/Claim_Allocation.thy ===== *)
theory Claim_Allocation
  imports Claim_Repository
begin

text \<open>
  What the claim repository guarantees to its clients, over runs of any length: mutual exclusion of
  exclusive slots and fencing by generations, the bound on shared capacity, a lock table as the
  abstract specification of the slot leases, replay of reservations, and optimistic concurrency.
\<close>

section \<open>Claims through a run\<close>

text \<open>A stored claim is never lost, and what happens to it is a run of its own methods.\<close>

lemma reserve_new_claim_keeps:
  assumes "reserve_new_claim X fresh st r = Inr (st', c)" and "hash_laws X" and "repo_inv X st"
  shows "btree_get (rp_claims st') = (btree_get (rp_claims st))(rs_id r \<mapsto> c)"
    "btree_get (rp_claims st) (rs_id r) = None" "reservation_matches r c" "claim_live c"
proof -
  have wf: "btree_wf (rp_claims st)" using assms(3) by (simp add: repo_inv_def)
  obtain ps where "newly_reserved st r ps c"
    "st' = st\<lparr>rp_slots := insert_leases (rc_id c) ps (rp_slots st),
            rp_claims := btree_insert (rc_id c) c (rp_claims st)\<rparr>"
    using reserve_new_claim_facts [OF assms(1,2) wf] by blast
  then show "btree_get (rp_claims st') = (btree_get (rp_claims st))(rs_id r \<mapsto> c)"
    "btree_get (rp_claims st) (rs_id r) = None" "reservation_matches r c" "claim_live c"
    using wf by (auto simp: newly_reserved_def btree.get_put)
qed

lemma reserve_members_stores:
  "reserve_members X fresh st rs = Inr (st', cs) \<Longrightarrow> hash_laws X \<Longrightarrow> repo_inv X st \<Longrightarrow>
   list_all2 (\<lambda>r c. btree_get (rp_claims st') (rs_id r) = Some c \<and> reservation_matches r c) rs cs \<and>
   (\<forall>i c. btree_get (rp_claims st) i = Some c \<longrightarrow> btree_get (rp_claims st') i = Some c)"
proof (induction rs arbitrary: st cs)
  case (Cons r rs)
  obtain u c ds where u: "reserve_new_claim X fresh st r = Inr (u, c)"
    and rest: "reserve_members X fresh u rs = Inr (st', ds)" and cs: "cs = c # ds"
    using Cons.prems(1) by (auto split: prod.split_asm)
  note new = reserve_new_claim_keeps [OF u Cons.prems(2,3)]
  have inv: "repo_inv X u"
    by (rule reserve_new_claim_inv [OF u Cons.prems(2,3)])
  have kept: "btree_get (rp_claims u) i = Some d" if "btree_get (rp_claims st) i = Some d" for i d
    using that new by (cases "i = rs_id r") auto
  from Cons.IH [OF rest Cons.prems(2) inv] new kept cs show ?case by simp
qed simp

lemma repo_step_keeps_claim:
  assumes "repo_step X admitted st st'" and "hash_laws X" and "repo_inv X st"
    and "btree_get (rp_claims st) i = Some c"
  shows "\<exists>d. btree_get (rp_claims st') i = Some d \<and> (claim_step X)\<^sup>*\<^sup>* c d"
  using assms(1)
proof cases
  case (reserve rs batch fresh r)
  show ?thesis
  proof (cases "st' = st")
    case False
    with reserve(3) obtain cs where "reserve_members X fresh st batch = Inr (st', cs)"
      by (auto simp: repo_reserve_atomically_def Let_def split: if_split_asm sum.split_asm prod.split_asm)
    from reserve_members_stores [OF this assms(2,3)] assms(4) show ?thesis by blast
  qed (use assms(4) in blast)
next
  case (mutate f org j v r)
  have wf: "btree_wf (rp_claims st)" using assms(3) by (simp add: repo_inv_def)
  from mutate(2,1) assms(3) show ?thesis
  proof (cases rule: repo_mutate_cases)
    case unchanged
    with assms(4) show ?thesis by blast
  next
    case (changed d d')
    with assms(4) wf show ?thesis by (cases "j = i") (auto simp: btree.get_put)
  next
    case (released d d' u)
    obtain u' where "release_slots st d' = (u', Inr ())" "rp_claims u' = rp_claims st"
      using release_slots_spec [OF assms(3) released(1,5) claim.step_identity [OF released(2)]] by blast
    with released have "rp_claims st' = btree_insert j d' (rp_claims st)" by simp
    with released(1,2) assms(4) wf show ?thesis by (cases "j = i") (auto simp: btree.get_put)
  qed
qed

lemma repo_run_keeps_claim:
  assumes "(repo_step X admitted)\<^sup>*\<^sup>* st st'" and "hash_laws X" and "repo_inv X st"
    and "btree_get (rp_claims st) i = Some c"
  shows "\<exists>d. btree_get (rp_claims st') i = Some d \<and> (claim_step X)\<^sup>*\<^sup>* c d"
  using assms(1)
proof (induction rule: rtranclp_induct)
  case base
  show ?case using assms(4) by blast
next
  case (step u v)
  then obtain d where d: "btree_get (rp_claims u) i = Some d" "(claim_step X)\<^sup>*\<^sup>* c d" by blast
  have "repo_inv X u" by (rule repo_run_inv [OF step(1) assms(2,3)])
  from repo_step_keeps_claim [OF step(2) assms(2) this d(1)] d(2) show ?case
    by (meson rtranclp_trans)
qed

lemma reservation_matches_identity:
  "claim_identity d = claim_identity c \<Longrightarrow> reservation_matches r d = reservation_matches r c"
  by (simp add: claim_identity_def reservation_matches_def)

text \<open>The lookup of a batch all of whose claims are stored.\<close>

lemma existing_claims_all:
  "list_all2 (\<lambda>r c. btree_get (rp_claims st) (rs_id r) = Some c) rs cs \<Longrightarrow> existing_claims st rs = zip rs cs"
  by (induction rule: list_all2_induct) (simp_all add: existing_claims_def)

lemma existing_claims_stored:
  "length (existing_claims st rs) = length rs \<Longrightarrow> \<forall>(r, c)\<in>set (existing_claims st rs). P r c \<Longrightarrow>
   list_all2 (\<lambda>r c. btree_get (rp_claims st) (rs_id r) = Some c \<and> P r c) rs (map snd (existing_claims st rs))"
proof (induction rs)
  case (Cons r rs)
  have "length (existing_claims st rs) \<le> length rs"
    by (induction rs) (auto simp: existing_claims_def split: option.split)
  with Cons show ?case
    by (cases "btree_get (rp_claims st) (rs_id r)") (auto simp: existing_claims_def)
qed (simp add: existing_claims_def)

lemma reserve_atomically_stores:
  assumes "repo_reserve_atomically X fresh st rs = (st', Inr w)" and "hash_laws X" and "repo_inv X st"
  shows "list_all2 (\<lambda>r c. btree_get (rp_claims st') (rs_id r) = Some c \<and> reservation_matches r c)
    rs (iw_value w)"
proof (cases "existing_claims st rs = []")
  case True
  with assms(1) have "reserve_members X fresh st rs = Inr (st', iw_value w)"
    by (auto simp: repo_reserve_atomically_def split: sum.split_asm prod.split_asm)
  from reserve_members_stores [OF this assms(2,3)] show ?thesis by blast
next
  case False
  with assms(1) have "length (existing_claims st rs) = length rs" "st' = st"
    "\<forall>(r, c)\<in>set (existing_claims st rs). reservation_matches r c" "iw_value w = map snd (existing_claims st rs)"
    by (auto simp: repo_reserve_atomically_def Let_def list_ex_iff split: if_split_asm)
  then show ?thesis using existing_claims_stored [of st rs reservation_matches] by simp
qed

lemma reserve_atomically_replay:
  assumes "list_all2 (\<lambda>r c. btree_get (rp_claims st) (rs_id r) = Some c \<and> reservation_matches r c) rs cs"
    and "rs \<noteq> []"
  shows "repo_reserve_atomically X fresh st rs = (st, Inr \<lparr>iw_value = cs, iw_replayed = True\<rparr>)"
proof -
  have len: "length rs = length cs" using assms(1) by (rule list_all2_lengthD)
  have ex: "existing_claims st rs = zip rs cs"
    using assms(1) by (intro existing_claims_all) (auto elim: list_all2_mono)
  have "\<forall>(r, c)\<in>set (zip rs cs). reservation_matches r c"
    using assms(1) by (auto simp: list_all2_iff)
  moreover have "zip rs cs \<noteq> []" using assms(2) len by (cases rs; cases cs) auto
  ultimately show ?thesis
    using len by (auto simp: repo_reserve_atomically_def ex Let_def list_ex_iff)
qed

section \<open>Shared capacity\<close>

text \<open>What the live claims of a node hold of one shared slot, as a number that cannot wrap around.\<close>

definition slot_amount :: "slot_binding \<Rightarrow> nat" where
  "slot_amount s = (case scalar_amount (sb_allocation s) of None \<Rightarrow> 0 | Some a \<Rightarrow> unat a)"

definition claim_amount :: "uuid \<Rightarrow> uuid \<Rightarrow> slot_id \<Rightarrow> claim \<Rightarrow> nat" where
  "claim_amount org node key c =
     (if live_on_node org node c
      then sum_list (map slot_amount (filter (\<lambda>s. sb_key s = key) (rc_slots c))) else 0)"

definition allocated :: "repo \<Rightarrow> uuid \<Rightarrow> uuid \<Rightarrow> slot_id \<Rightarrow> nat" where
  "allocated st org node key = sum_list (map (claim_amount org node key) (btree_values (rp_claims st)))"

text \<open>Every inventory a reservation brings reports at most the physical capacity of its node.\<close>

definition inventory_within :: "(uuid \<Rightarrow> uuid \<Rightarrow> slot_id \<Rightarrow> nat) \<Rightarrow> reservation \<Rightarrow> bool" where
  "inventory_within capacity r \<longleftrightarrow>
     list_all (\<lambda>slot. case scalar_amount (ns_allocation slot) of None \<Rightarrow> True
       | Some a \<Rightarrow> unat a \<le> capacity (drb_organization_id (rs_binding r)) (rs_node_id r) (ns_key slot))
       (inv_slots (rs_inventory r))"

definition within_capacity :: "(uuid \<Rightarrow> uuid \<Rightarrow> slot_id \<Rightarrow> nat) \<Rightarrow> repo \<Rightarrow> bool" where
  "within_capacity capacity st \<longleftrightarrow>
     (\<forall>org node key. is_shared_capacity (fst key) \<longrightarrow> allocated st org node key \<le> capacity org node key)"

lemma fold_allocated_sum:
  "fold_allocated acc ss = Inr n \<Longrightarrow> unat n = unat acc + sum_list (map slot_amount ss)"
  by (induction ss arbitrary: acc)
    (auto simp: slot_amount_def dest: checked_add_unat split: option.split_asm)

lemma sum_filter_concat:
  fixes f :: "'b \<Rightarrow> nat"
  shows "sum_list (map f (filter P (concat (map g (filter Q xs))))) =
    sum_list (map (\<lambda>x. if Q x then sum_list (map f (filter P (g x))) else 0) xs)"
  by (induction xs) auto

lemma filter_key_unique: "distinct (map f xs) \<Longrightarrow> x \<in> set xs \<Longrightarrow> filter (\<lambda>y. f y = f x) xs = [x]"
proof (induction xs)
  case (Cons y ys)
  show ?case
  proof (cases "y = x")
    case True
    with Cons.prems(1) have "\<forall>z\<in>set ys. f z \<noteq> f x" by (auto simp: image_iff)
    then show ?thesis using True by (simp add: filter_empty_conv)
  next
    case False
    with Cons.prems(2) have "x \<in> set ys" by simp
    moreover have "f y \<noteq> f x" using Cons.prems(1) \<open>x \<in> set ys\<close> by force
    ultimately show ?thesis using Cons by simp
  qed
qed simp

lemma validate_shared_capacity_facts:
  assumes "validate_shared_capacity st r q = Inr ()" and "inventory_within capacity r"
    and "drb_organization_id (rs_binding r) = org" and "rs_node_id r = node"
  shows "\<exists>a. scalar_amount (sr_allocation q) = Some a \<and>
    allocated st org node (sr_key q) + unat a \<le> capacity org node (sr_key q)"
proof -
  obtain slot cap a n where slot: "inventory_find (rs_inventory r) (sr_key q) = Some slot"
    and cap: "scalar_amount (ns_allocation slot) = Some cap"
    and a: "scalar_amount (sr_allocation q) = Some a"
    and n: "fold_allocated 0 (filter (\<lambda>s. sb_key s = sr_key q)
           (concat (map rc_slots (filter (live_on_node org node) (btree_values (rp_claims st)))))) = Inr n"
    and le: "case checked_add n a of None \<Rightarrow> False | Some required \<Rightarrow> required \<le> cap"
    using assms by (auto simp: validate_shared_capacity_def split: option.split_asm if_split_asm)
  have "unat n = allocated st org node (sr_key q)"
    using fold_allocated_sum [OF n]
    by (simp add: sum_filter_concat allocated_def claim_amount_def [abs_def])
  moreover have "unat n + unat a \<le> unat cap"
    using le by (auto simp: word_le_nat_alt dest: checked_add_unat split: option.split_asm)
  moreover have "slot \<in> set (inv_slots (rs_inventory r))" "ns_key slot = sr_key q"
    using slot by (auto simp: inventory_find_def find_Some_iff)
  then have "unat cap \<le> capacity org node (sr_key q)"
    using assms(2-4) cap by (fastforce simp: inventory_within_def list_all_iff)
  ultimately show ?thesis
    using a by auto
qed

lemma newly_reserved_amount:
  assumes "list_all2 (\<lambda>q p. reserve_slot fresh st r q = Inr p) (rs_slots r) ps"
    and "rc_slots c = map snd ps" and "distinct (map sb_key (rc_slots c))"
    and "inventory_within capacity r" and "is_shared_capacity (fst key)"
    and "claim_amount org node key c \<noteq> 0"
    and "rc_organization_id c = drb_organization_id (rs_binding r)" and "rc_node_id c = rs_node_id r"
  shows "allocated st org node key + claim_amount org node key c \<le> capacity org node key"
proof -
  have ids: "drb_organization_id (rs_binding r) = org" "rs_node_id r = node"
    using assms(6-8) by (auto simp: claim_amount_def live_on_node_def split: if_split_asm)
  obtain s where s: "s \<in> set (rc_slots c)" "sb_key s = key"
  proof -
    have "filter (\<lambda>s. sb_key s = key) (rc_slots c) \<noteq> []"
      using assms(6) by (auto simp: claim_amount_def split: if_split_asm)
    then show ?thesis using that by (auto simp: filter_empty_conv)
  qed
  then obtain k where "(k, s) \<in> set ps" using assms(2) by auto
  then obtain q where q: "reserve_slot fresh st r q = Inr (k, s)"
    using list_all2_preimage [OF assms(1)] by blast
  note facts = reserve_slot_facts [OF q]
  have key: "sr_key q = key" using s(2) facts(2,3) by (simp add: sr_key_def sb_key_def)
  then have "is_shared_capacity (sr_kind q)" using assms(5) by (auto simp: sr_key_def)
  from validate_shared_capacity_facts [OF facts(8) [OF this] assms(4) ids] obtain a where
    a: "scalar_amount (sr_allocation q) = Some a"
      "allocated st org node key + unat a \<le> capacity org node key"
    unfolding key by blast
  have "claim_amount org node key c = slot_amount s"
    using filter_key_unique [OF assms(3) s(1)] assms(6) s(2)
    by (auto simp: claim_amount_def split: if_split_asm)
  with a facts(4) show ?thesis by (simp add: slot_amount_def)
qed

lemma reserve_new_claim_capacity:
  assumes "reserve_new_claim X fresh st r = Inr (st', c)" and "hash_laws X" and "repo_inv X st"
    and "inventory_within capacity r" and "within_capacity capacity st"
  shows "within_capacity capacity st'"
proof -
  have wf: "btree_wf (rp_claims st)" using assms(3) by (simp add: repo_inv_def)
  obtain ps where new: "newly_reserved st r ps c" and inv: "claim_inv X c"
    and ps: "list_all2 (\<lambda>q p. reserve_slot fresh st r q = Inr p) (rs_slots r) ps"
    and st': "st' = st\<lparr>rp_slots := insert_leases (rc_id c) ps (rp_slots st),
            rp_claims := btree_insert (rc_id c) c (rp_claims st)\<rparr>"
    using reserve_new_claim_facts [OF assms(1,2) wf] by blast
  have c: "rc_slots c = map snd ps" "btree_get (rp_claims st) (rc_id c) = None"
    "rc_organization_id c = drb_organization_id (rs_binding r)" "rc_node_id c = rs_node_id r"
    using new by (auto simp: newly_reserved_def reservation_matches_def Let_def)
  have "validate_slot_bindings (rc_slots c) = Inr ()"
    using inv by (simp add: claim_inv_def claim_validate_ok claim_static_def)
  then have distinct: "distinct (map sb_key (rc_slots c))"
    unfolding validate_slot_bindings_def by (rule slot_set_distinct)
  have sum: "allocated st' org node key = claim_amount org node key c + allocated st org node key" for org node key
    using btree.total_put_new [OF wf c(2)] by (simp add: allocated_def st')
  show ?thesis
    unfolding within_capacity_def sum
  proof (intro allI impI)
    fix org node key
    assume shared: "is_shared_capacity (fst (key :: slot_id))"
    have "allocated st org node key \<le> capacity org node key"
      using assms(5) shared unfolding within_capacity_def by blast
    then show "claim_amount org node key c + allocated st org node key \<le> capacity org node key"
      using newly_reserved_amount [OF ps c(1) distinct assms(4) shared _ c(3,4), of org node]
      by (cases "claim_amount org node key c = 0") (simp_all add: add.commute)
  qed
qed

lemma mutated_capacity:
  assumes "repo_inv X st" and "btree_get (rp_claims st) i = Some c" and "claim_step X c c'"
    and "rp_claims st' = btree_insert i c' (rp_claims st)" and "within_capacity capacity st"
  shows "within_capacity capacity st'"
proof -
  have wf: "btree_wf (rp_claims st)" using assms(1) by (simp add: repo_inv_def)
  note eqs = claim_identity_fields [OF claim.step_identity [OF assms(3)]]
  have "claim_amount org node key c' \<le> claim_amount org node key c" for org node key
    using eqs claim_step_live [OF assms(3)] by (auto simp: claim_amount_def live_on_node_def claim_live_def)
  then have "allocated st' org node key \<le> allocated st org node key" for org node key
    unfolding allocated_def assms(4) by (rule btree.total_put_old_le [OF wf assms(2)])
  with assms(5) show ?thesis
    unfolding within_capacity_def by (meson order_trans)
qed

lemma repo_step_capacity:
  assumes "repo_step X (inventory_within capacity) st st'" and "hash_laws X" and "repo_inv X st"
    and "within_capacity capacity st"
  shows "within_capacity capacity st'"
  using assms(1)
proof cases
  case (reserve rs batch fresh r)
  have "repo_inv X st' \<and> within_capacity capacity st'"
    using reserve(3)
  proof (rule reserve_atomically_induct)
    show "repo_inv X st \<and> within_capacity capacity st" using assms(3,4) by simp
    fix u q v c
    assume u: "repo_inv X u \<and> within_capacity capacity u" and "q \<in> set batch"
      and q: "reserve_new_claim X fresh u q = Inr (v, c)"
    then have "inventory_within capacity q" using reserve(2) by (simp add: list_all_iff)
    with u show "repo_inv X v \<and> within_capacity capacity v"
      using reserve_new_claim_inv [OF q assms(2)] reserve_new_claim_capacity [OF q assms(2)] by blast
  qed
  then show ?thesis ..
next
  case (mutate f org i v r)
  from mutate(2,1) assms(3) show ?thesis
  proof (cases rule: repo_mutate_cases)
    case unchanged
    with assms(4) show ?thesis by simp
  next
    case (changed c c')
    with mutated_capacity [OF assms(3) changed(1,2) _ assms(4), of st'] show ?thesis by simp
  next
    case (released c c' u)
    obtain u' where "release_slots st c' = (u', Inr ())" "rp_claims u' = rp_claims st"
      using release_slots_spec [OF assms(3) released(1,5) claim.step_identity [OF released(2)]] by blast
    with mutated_capacity [OF assms(3) released(1,2) _ assms(4), of st'] released(7,8) show ?thesis
      by simp
  qed
qed

lemma repo_run_capacity:
  assumes "(repo_step X (inventory_within capacity))\<^sup>*\<^sup>* st st'" and "hash_laws X" and "repo_inv X st"
    and "within_capacity capacity st"
  shows "within_capacity capacity st'"
  using assms(1)
proof (induction rule: rtranclp_induct)
  case base
  show ?case by (rule assms(4))
next
  case (step u v)
  show ?case
    by (rule repo_step_capacity [OF step(2) assms(2) repo_run_inv [OF step(1) assms(2,3)] step(3)])
qed

section \<open>The lock table the repository implements\<close>

text \<open>
  The specification of exclusive slots: a table that says who holds each slot. A claim takes a set of
  free slots at once, and gives back everything it holds at once.
\<close>

type_synonym locks = "slot_key \<Rightarrow> uuid option"

inductive lock_step :: "locks \<Rightarrow> locks \<Rightarrow> bool" where
  acquire: "(\<forall>k\<in>K. L k = None) \<Longrightarrow> (\<forall>k. L k \<noteq> Some i) \<Longrightarrow>
    lock_step L (\<lambda>k. if k \<in> K then Some i else L k)"
| give_back: "lock_step L (\<lambda>k. if L k = Some i then None else L k)"

definition locks_of :: "repo \<Rightarrow> locks" where
  "locks_of st k = (case btree_get (rp_slots st) k of None \<Rightarrow> None | Some l \<Rightarrow> sl_active_claim_id l)"

definition exclusive_keys :: "claim \<Rightarrow> slot_key set" where
  "exclusive_keys c = claim_slot_key c ` {s \<in> set (rc_slots c). \<not> is_shared_capacity (sb_kind s)}"

text \<open>No lease outlives its claim: a slot is marked as held only by a live claim that has it.\<close>

definition no_leaked_lease :: "repo \<Rightarrow> bool" where
  "no_leaked_lease st \<longleftrightarrow>
     (\<forall>k i. locks_of st k = Some i \<longrightarrow>
       (\<exists>c. btree_get (rp_claims st) i = Some c \<and> claim_live c \<and> k \<in> exclusive_keys c))"

lemma no_leaked_leaseD:
  "no_leaked_lease st \<Longrightarrow> locks_of st k = Some i \<Longrightarrow>
   \<exists>c. btree_get (rp_claims st) i = Some c \<and> claim_live c \<and> k \<in> exclusive_keys c"
  unfolding no_leaked_lease_def by blast

lemma locks_of_claim:
  assumes "repo_inv X st" and "btree_get (rp_claims st) i = Some c" and "claim_live c"
    and "k \<in> exclusive_keys c"
  shows "locks_of st k = Some i"
proof -
  obtain s where s: "s \<in> set (rc_slots c)" "\<not> is_shared_capacity (sb_kind s)" "k = claim_slot_key c s"
    using assms(4) by (auto simp: exclusive_keys_def)
  obtain l where "btree_get (rp_slots st) k = Some l" "lease_identity_matches l c s"
    using assms(1-3) s unfolding repo_inv_def leases_back_claims_def by blast
  moreover have "rc_id c = i" using assms(1,2) by (simp add: repo_inv_def)
  ultimately show ?thesis using s(2) by (simp add: locks_of_def lease_identity_matches_def)
qed

lemma exclusive_keysI:
  "s \<in> set (rc_slots c) \<Longrightarrow> \<not> is_shared_capacity (sb_kind s) \<Longrightarrow> k = claim_slot_key c s \<Longrightarrow>
   k \<in> exclusive_keys c"
  by (auto simp: exclusive_keys_def)

lemma exclusive_keys_identity:
  "claim_identity d = claim_identity c \<Longrightarrow> exclusive_keys d = exclusive_keys c"
  using claim_identity_fields(2,3) [of d c] by (simp add: exclusive_keys_def)

lemma shared_never_locked:
  assumes "no_leaked_lease st" and "is_shared_capacity kind"
  shows "locks_of st (org, node, kind, name) = None"
proof (rule ccontr)
  assume "locks_of st (org, node, kind, name) \<noteq> None"
  then obtain c where "(org, node, kind, name) \<in> exclusive_keys c"
    using assms(1) unfolding no_leaked_lease_def by blast
  with assms(2) show False by (auto simp: exclusive_keys_def claim_slot_key_def)
qed

lemma newly_reserved_locks:
  assumes new: "newly_reserved st r ps c" and wf: "btree_wf (rp_slots st)" and tight: "no_leaked_lease st"
    and slots: "rp_slots st' = insert_leases (rc_id c) ps (rp_slots st)"
  shows "locks_of st' = (\<lambda>k. if k \<in> exclusive_keys c then Some (rc_id c) else locks_of st k)"
    "\<forall>k\<in>exclusive_keys c. locks_of st k = None"
proof -
  note lease = newly_reserved_lease [OF new wf]
  show "\<forall>k\<in>exclusive_keys c. locks_of st k = None"
    using newly_reserved_over_lease(2) [OF new]
    by (fastforce simp: exclusive_keys_def locks_of_def split: option.split)
  show "locks_of st' = (\<lambda>k. if k \<in> exclusive_keys c then Some (rc_id c) else locks_of st k)"
  proof
    fix k
    show "locks_of st' k = (if k \<in> exclusive_keys c then Some (rc_id c) else locks_of st k)"
    proof (cases "k \<in> claim_slot_key c ` set (rc_slots c)")
      case False
      with lease(2) show ?thesis by (auto simp: locks_of_def slots exclusive_keys_def)
    next
      case True
      then obtain s where s: "s \<in> set (rc_slots c)" "k = claim_slot_key c s" by blast
      have "k \<in> exclusive_keys c \<longleftrightarrow> \<not> is_shared_capacity (sb_kind s)"
        using s by (auto simp: exclusive_keys_def claim_slot_key_def)
      moreover have "locks_of st k = None" if "is_shared_capacity (sb_kind s)"
        using shared_never_locked [OF tight that] s(2) by (simp add: claim_slot_key_def)
      ultimately show ?thesis
        using lease(1) [OF s(1)] s(2) by (auto simp: locks_of_def slots slot_lease_def)
    qed
  qed
qed

lemma reserve_new_claim_locks:
  assumes "reserve_new_claim X fresh st r = Inr (st', c)" and "hash_laws X" and inv: "repo_inv X st"
    and tight: "no_leaked_lease st"
  shows "no_leaked_lease st' \<and> lock_step (locks_of st) (locks_of st')"
proof -
  have wf: "btree_wf (rp_claims st)" "btree_wf (rp_slots st)" using inv by (auto simp: repo_inv_def)
  obtain ps where new: "newly_reserved st r ps c"
    and st': "st' = st\<lparr>rp_slots := insert_leases (rc_id c) ps (rp_slots st),
            rp_claims := btree_insert (rc_id c) c (rp_claims st)\<rparr>"
    using reserve_new_claim_facts [OF assms(1,2) wf(1)] by blast
  have c: "btree_get (rp_claims st) (rc_id c) = None" "claim_live c"
    using new by (auto simp: newly_reserved_def)
  have get: "btree_get (rp_claims st') = (btree_get (rp_claims st))(rc_id c \<mapsto> c)"
    using wf by (simp add: st' btree.get_put)
  note locks = newly_reserved_locks [OF new wf(2) tight, of st']
  have locks': "locks_of st' = (\<lambda>k. if k \<in> exclusive_keys c then Some (rc_id c) else locks_of st k)"
    by (rule locks(1)) (simp add: st')
  have free: "\<forall>k\<in>exclusive_keys c. locks_of st k = None"
    by (rule locks(2)) (simp add: st')
  have "\<forall>k. locks_of st k \<noteq> Some (rc_id c)"
    using tight c(1) by (fastforce simp: no_leaked_lease_def)
  with free have "lock_step (locks_of st) (locks_of st')"
    unfolding locks' by (rule lock_step.acquire)
  moreover have "\<exists>d. btree_get (rp_claims st') i = Some d \<and> claim_live d \<and> k \<in> exclusive_keys d"
    if "locks_of st' k = Some i" for k i
  proof (cases "k \<in> exclusive_keys c")
    case True
    with that have "i = rc_id c" by (simp add: locks')
    with True c(2) get show ?thesis by simp
  next
    case False
    with that have "locks_of st k = Some i" by (simp add: locks')
    from no_leaked_leaseD [OF tight this] obtain d
      where "btree_get (rp_claims st) i = Some d" "claim_live d" "k \<in> exclusive_keys d" by blast
    with c(1) get show ?thesis by (cases "i = rc_id c") auto
  qed
  ultimately show ?thesis unfolding no_leaked_lease_def by blast
qed

lemma changed_locks:
  assumes "repo_inv X st" and tight: "no_leaked_lease st" and "btree_get (rp_claims st) i = Some c"
    and step: "claim_step X c c'" and "claim_live c'"
    and st': "st' = st\<lparr>rp_claims := btree_insert i c' (rp_claims st)\<rparr>"
  shows "no_leaked_lease st' \<and> locks_of st' = locks_of st"
proof -
  have get: "btree_get (rp_claims st') = (btree_get (rp_claims st))(i \<mapsto> c')"
    using assms(1) by (simp add: st' repo_inv_def btree.get_put)
  have same: "locks_of st' = locks_of st" by (simp add: fun_eq_iff locks_of_def st')
  have "\<exists>d. btree_get (rp_claims st') j = Some d \<and> claim_live d \<and> k \<in> exclusive_keys d"
    if held: "locks_of st k = Some j" for k j
  proof -
    obtain d where "btree_get (rp_claims st) j = Some d" "claim_live d" "k \<in> exclusive_keys d"
      using no_leaked_leaseD [OF tight held] by blast
    then show ?thesis
      using assms(3,5) get exclusive_keys_identity [OF claim.step_identity [OF step]]
      by (cases "j = i") auto
  qed
  with same show ?thesis unfolding no_leaked_lease_def by simp
qed

lemma released_locks:
  assumes inv: "repo_inv X st" and tight: "no_leaked_lease st" and c: "btree_get (rp_claims st) i = Some c"
    and step: "claim_step X c c'" and live: "claim_live c" and u: "release_slots st c' = (u, Inr ())"
    and st': "st' = u\<lparr>rp_claims := btree_insert i c' (rp_claims u)\<rparr>"
  shows "no_leaked_lease st' \<and>
    locks_of st' = (\<lambda>k. if locks_of st k = Some i then None else locks_of st k)"
proof -
  have spec: "rp_claims u = rp_claims st"
    "\<forall>k. btree_get (rp_slots u) k =
      (if \<exists>s\<in>set (rc_slots c). \<not> is_shared_capacity (sb_kind s) \<and> k = claim_slot_key c s
       then map_option (\<lambda>l. l\<lparr>sl_active_claim_id := None\<rparr>) (btree_get (rp_slots st) k)
       else btree_get (rp_slots st) k)"
    using release_slots_spec [OF inv c live claim.step_identity [OF step]] u by auto
  have own: "locks_of st k = Some i \<longleftrightarrow> k \<in> exclusive_keys c" for k
  proof
    assume "locks_of st k = Some i"
    with tight c show "k \<in> exclusive_keys c" unfolding no_leaked_lease_def by fastforce
  qed (rule locks_of_claim [OF inv c live])
  have locks: "locks_of st' k = (if locks_of st k = Some i then None else locks_of st k)" for k
  proof -
    have keys: "(\<exists>s\<in>set (rc_slots c). \<not> is_shared_capacity (sb_kind s) \<and> k = claim_slot_key c s) \<longleftrightarrow>
        k \<in> exclusive_keys c"
      by (auto simp: exclusive_keys_def)
    have "btree_get (rp_slots st') k = (if k \<in> exclusive_keys c
        then map_option (\<lambda>l. l\<lparr>sl_active_claim_id := None\<rparr>) (btree_get (rp_slots st) k)
        else btree_get (rp_slots st) k)"
      using spec(2) [rule_format, of k] unfolding keys by (simp add: st')
    then show ?thesis unfolding own by (simp add: locks_of_def split: option.split)
  qed
  have get: "btree_get (rp_claims st') = (btree_get (rp_claims st))(i \<mapsto> c')"
    using inv by (simp add: st' spec(1) repo_inv_def btree.get_put)
  have "\<exists>d. btree_get (rp_claims st') j = Some d \<and> claim_live d \<and> k \<in> exclusive_keys d"
    if "locks_of st' k = Some j" for k j
  proof -
    from that locks have "locks_of st k = Some j" "j \<noteq> i" by (auto split: if_split_asm)
    with no_leaked_leaseD [OF tight, of k j] get show ?thesis by auto
  qed
  with locks show ?thesis unfolding no_leaked_lease_def by blast
qed

lemma repo_step_locks:
  assumes "repo_step X admitted st st'" and laws: "hash_laws X" and inv: "repo_inv X st"
    and tight: "no_leaked_lease st"
  shows "no_leaked_lease st' \<and> lock_step\<^sup>*\<^sup>* (locks_of st) (locks_of st')"
  using assms(1)
proof cases
  case (reserve rs batch fresh r)
  have "repo_inv X st' \<and> no_leaked_lease st' \<and> lock_step\<^sup>*\<^sup>* (locks_of st) (locks_of st')"
    using reserve(3)
  proof (rule reserve_atomically_induct)
    show "repo_inv X st \<and> no_leaked_lease st \<and> lock_step\<^sup>*\<^sup>* (locks_of st) (locks_of st)"
      using inv tight by simp
    fix u q v c
    assume u: "repo_inv X u \<and> no_leaked_lease u \<and> lock_step\<^sup>*\<^sup>* (locks_of st) (locks_of u)"
      and q: "reserve_new_claim X fresh u q = Inr (v, c)"
    with reserve_new_claim_locks [OF q laws] reserve_new_claim_inv [OF q laws]
    show "repo_inv X v \<and> no_leaked_lease v \<and> lock_step\<^sup>*\<^sup>* (locks_of st) (locks_of v)"
      by (meson rtranclp.rtrancl_into_rtrancl)
  qed
  then show ?thesis by blast
next
  case (mutate f org i v r)
  from mutate(2,1) inv show ?thesis
  proof (cases rule: repo_mutate_cases)
    case unchanged
    with tight show ?thesis by simp
  next
    case (changed c c')
    from changed_locks [OF inv tight changed(1,2,4,6)] show ?thesis by simp
  next
    case (released c c' u)
    from released_locks [OF inv tight released(1,2,5,7,8)] lock_step.give_back [of "locks_of st" i]
    show ?thesis by (metis r_into_rtranclp)
  qed
qed

lemma repo_run_locks:
  assumes "(repo_step X admitted)\<^sup>*\<^sup>* repo_new st" and "hash_laws X"
  shows "repo_inv X st \<and> no_leaked_lease st \<and> lock_step\<^sup>*\<^sup>* (\<lambda>_. None) (locks_of st)"
  using assms(1)
proof (induction rule: rtranclp_induct)
  case base
  have "locks_of repo_new = (\<lambda>_. None)" by (simp add: fun_eq_iff locks_of_def repo_new_def)
  then show ?case by (simp add: repo_new_inv no_leaked_lease_def)
next
  case (step u v)
  with repo_step_locks [OF step(2) assms(2)] repo_step_inv [OF step(2) assms(2)] show ?case
    by (meson rtranclp_trans)
qed

section \<open>Mutations in a reachable state\<close>

lemma repo_mutate_stores:
  assumes "repo_mutate st org i v f = (st', r)" and "claim_transition X f" and inv: "repo_inv X st"
    and "st' \<noteq> st"
  shows "\<exists>c c'. btree_get (rp_claims st) i = Some c \<and> claim_step X c c' \<and> c' \<noteq> c \<and>
    rc_aggregate_version c = v \<and> btree_get (rp_claims st') i = Some c'"
proof -
  have wf: "btree_wf (rp_claims st)" using inv by (simp add: repo_inv_def)
  from assms(1-3) show ?thesis
  proof (cases rule: repo_mutate_cases)
    case unchanged
    with assms(4) show ?thesis by simp
  next
    case (changed c c')
    with wf show ?thesis by (auto simp: btree.get_put)
  next
    case (released c c' u)
    obtain u' where "release_slots st c' = (u', Inr ())" "rp_claims u' = rp_claims st"
      using release_slots_spec [OF inv released(1,5) claim.step_identity [OF released(2)]] by blast
    with released wf show ?thesis by (auto simp: btree.get_put)
  qed
qed

lemma repo_mutate_succeeds:
  assumes inv: "repo_inv X st" and c: "btree_get (rp_claims st) i = Some c" and "claim_transition X f"
    and f: "f c = (c', Inr ())"
    and "repo_mutate st (rc_organization_id c) i (rc_aggregate_version c) f = (st', res)"
  shows "res = Inr c' \<and> btree_get (rp_claims st') = (btree_get (rp_claims st))(i \<mapsto> c')"
proof (cases "c' = c")
  case True
  with assms show ?thesis by (auto simp: repo_mutate_def repo_find_def ok_or_def)
next
  case False
  have wf: "btree_wf (rp_claims st)" using inv by (simp add: repo_inv_def)
  have "claim_call X c (fst (f c)) (snd (f c))"
    using assms(3) by (simp add: claim_transition_def)
  with f have step: "claim_step X c c'" by (simp add: claim_step_def)
  show ?thesis
  proof (cases "claim_live c'")
    case True
    with assms(5) c f False wf show ?thesis
      by (auto simp: repo_mutate_def repo_find_def ok_or_def claim_live_def btree.get_put)
  next
    case dead: False
    have live: "claim_live c"
      using claim_step_change [OF step] False dead claim_change_edge by (fastforce simp: claim_live_def)
    obtain u where "release_slots st c' = (u, Inr ())" "rp_claims u = rp_claims st"
      using release_slots_spec [OF inv c live claim.step_identity [OF step]] by blast
    with assms(5) c f False dead wf show ?thesis
      by (auto simp: repo_mutate_def repo_find_def ok_or_def claim_live_def btree.get_put)
  qed
qed

lemma list_all2_choice:
  "list_all2 (\<lambda>x y. \<exists>z. P y z \<and> Q x z) xs ys \<Longrightarrow> \<exists>zs. list_all2 P ys zs \<and> list_all2 Q xs zs"
  by (induction rule: list_all2_induct) (auto intro: list_all2_Nil2 simp: list_all2_Cons1)

section \<open>Properties\<close>

text \<open>
  C1. Mutual exclusion with fencing: however reservations, retries and claim transitions are
  interleaved, two stored claims that name the same slot of a node have different slot generations,
  and if the slot is not a shared capacity at most one of them is live. Live claims of one workload
  on one node always belong to the same replica.
\<close>

theorem repo_exclusive_and_fenced:
  assumes "hash_laws X" and "(repo_step X admitted)\<^sup>*\<^sup>* repo_new st"
    and "btree_get (rp_claims st) i = Some c" and "btree_get (rp_claims st) j = Some d" and "i \<noteq> j"
  shows "(\<forall>s\<in>set (rc_slots c). \<forall>t\<in>set (rc_slots d). claim_slot_key c s = claim_slot_key d t \<longrightarrow>
      sb_slot_generation s \<noteq> sb_slot_generation t \<and>
      (is_shared_capacity (sb_kind s) \<or> rc_state c = ClaimReleased \<or> rc_state d = ClaimReleased)) \<and>
    (rc_state c \<noteq> ClaimReleased \<and> rc_state d \<noteq> ClaimReleased \<and>
      rc_organization_id c = rc_organization_id d \<and> rc_workload_id c = rc_workload_id d \<and>
      rc_node_id c = rc_node_id d \<longrightarrow> rc_replica_id c = rc_replica_id d)"
proof -
  have inv: "repo_inv X st" using repo_run_locks [OF assms(2,1)] by blast
  have gens: "sb_slot_generation s \<noteq> sb_slot_generation t"
    if "s \<in> set (rc_slots c)" "t \<in> set (rc_slots d)" "claim_slot_key c s = claim_slot_key d t" for s t
    using inv assms(3-5) that unfolding repo_inv_def slot_generations_unique_def by blast
  have one: "is_shared_capacity (sb_kind s) \<or> rc_state c = ClaimReleased \<or> rc_state d = ClaimReleased"
    if s: "s \<in> set (rc_slots c)" "t \<in> set (rc_slots d)" "claim_slot_key c s = claim_slot_key d t" for s t
  proof (rule ccontr)
    assume *: "\<not> ?thesis"
    have "sb_kind t = sb_kind s" using s(3) by (simp add: claim_slot_key_def)
    with * have "claim_slot_key c s \<in> exclusive_keys c" "claim_slot_key c s \<in> exclusive_keys d"
      using exclusive_keysI [OF s(1) _ refl] exclusive_keysI [OF s(2) _ s(3)] by auto
    with * locks_of_claim [OF inv assms(3)] locks_of_claim [OF inv assms(4)] assms(5) show False
      by (fastforce simp: claim_live_def)
  qed
  have "replicas_anti_affine st" using inv by (simp add: repo_inv_def)
  then have "rc_replica_id c = rc_replica_id d"
    if "rc_state c \<noteq> ClaimReleased \<and> rc_state d \<noteq> ClaimReleased \<and>
      rc_organization_id c = rc_organization_id d \<and> rc_workload_id c = rc_workload_id d \<and>
      rc_node_id c = rc_node_id d"
    using assms(3,4) that unfolding replicas_anti_affine_def claim_live_def by blast
  with gens one show ?thesis by blast
qed

text \<open>
  C2. Shared capacity is never oversubscribed: if the inventories that reservations bring never
  report more than the capacity of the node, the amounts that live claims hold of a shared slot never
  add up to more than it, in any reachable state. The sum is a natural number, so no wrap-around is
  hidden in it.
\<close>

theorem shared_capacity_never_exceeded:
  assumes "hash_laws X" and "(repo_step X (inventory_within capacity))\<^sup>*\<^sup>* repo_new st"
    and "is_shared_capacity (fst key)"
  shows "allocated st org node key \<le> capacity org node key"
proof -
  have "within_capacity capacity repo_new" by (simp add: within_capacity_def allocated_def repo_new_def)
  from repo_run_capacity [OF assms(2,1) repo_new_inv this] assms(3) show ?thesis
    unfolding within_capacity_def by blast
qed


text \<open>
  C28. A batch of reservations is all or nothing, and safe to retry: on an error the repository is
  unchanged; after a success the same batch, sent again at any later time, is answered as a replay
  from the stored claims, in the same order, and writes nothing.
\<close>

theorem reserve_atomic_and_replayable:
  assumes "hash_laws X" and "(repo_step X admitted)\<^sup>*\<^sup>* repo_new st" and "batch \<noteq> []"
    and "repo_reserve_atomically X fresh st batch = (st1, res)"
    and "atomic_reservation_new X rs = Inr batch" and "list_all admitted batch"
    and "(repo_step X admitted)\<^sup>*\<^sup>* st1 st2"
  shows "(\<forall>e. res = Inl e \<longrightarrow> st1 = st) \<and>
    (\<forall>w. res = Inr w \<longrightarrow> (\<exists>cs. list_all2 (\<lambda>c d. (claim_step X)\<^sup>*\<^sup>* c d) (iw_value w) cs \<and>
      repo_reserve_atomically X fresh' st2 batch = (st2, Inr \<lparr>iw_value = cs, iw_replayed = True\<rparr>)))"
proof (intro conjI allI impI)
  show "st1 = st" if "res = Inl e" for e
    using assms(4) that
    by (auto simp: repo_reserve_atomically_def Let_def split: if_split_asm sum.split_asm prod.split_asm)
  fix w
  assume res: "res = Inr w"
  have inv: "repo_inv X st" using repo_run_locks [OF assms(2,1)] by blast
  have "repo_step X admitted st st1"
    by (rule repo_step.reserve [OF assms(5,6,4)])
  then have inv1: "repo_inv X st1" by (rule repo_step_inv [OF _ assms(1) inv])
  have "list_all2 (\<lambda>r c. \<exists>d. (claim_step X)\<^sup>*\<^sup>* c d \<and>
      btree_get (rp_claims st2) (rs_id r) = Some d \<and> reservation_matches r d) batch (iw_value w)"
    using reserve_atomically_stores [OF assms(4) [unfolded res] assms(1) inv]
  proof (rule list_all2_mono)
    fix r c
    assume c: "btree_get (rp_claims st1) (rs_id r) = Some c \<and> reservation_matches r c"
    from repo_run_keeps_claim [OF assms(7,1) inv1] c obtain d
      where "btree_get (rp_claims st2) (rs_id r) = Some d" "(claim_step X)\<^sup>*\<^sup>* c d" by blast
    with c reservation_matches_identity [OF claim.run_identity] show "\<exists>d. (claim_step X)\<^sup>*\<^sup>* c d \<and>
      btree_get (rp_claims st2) (rs_id r) = Some d \<and> reservation_matches r d" by blast
  qed
  from list_all2_choice [OF this] obtain cs where "list_all2 (\<lambda>c d. (claim_step X)\<^sup>*\<^sup>* c d) (iw_value w) cs"
    "list_all2 (\<lambda>r d. btree_get (rp_claims st2) (rs_id r) = Some d \<and> reservation_matches r d) batch cs"
    by blast
  with reserve_atomically_replay [OF _ assms(3)]
  show "\<exists>cs. list_all2 (\<lambda>c d. (claim_step X)\<^sup>*\<^sup>* c d) (iw_value w) cs \<and>
      repo_reserve_atomically X fresh' st2 batch = (st2, Inr \<lparr>iw_value = cs, iw_replayed = True\<rparr>)" by blast
qed

text \<open>
  C12. No update is lost: once a mutation has changed a claim that a client had read at version \<open>v\<close>,
  no mutation that still expects version \<open>v\<close> writes anything, now or at any later time; it can only
  report an error or confirm that the claim already is as it wants.
\<close>

theorem no_lost_update:
  assumes "hash_laws X" and "(repo_step X admitted)\<^sup>*\<^sup>* repo_new st"
    and "claim_transition X f" and "repo_mutate st org i v f = (st1, Inr c1)" and "st1 \<noteq> st"
    and "(repo_step X admitted)\<^sup>*\<^sup>* st1 st2"
    and "claim_transition X g" and "repo_mutate st2 org' i v g = (st3, res)"
  shows "st3 = st2 \<and> (\<forall>c. res = Inr c \<longrightarrow> btree_get (rp_claims st2) i = Some c)"
proof -
  have inv: "repo_inv X st" using repo_run_locks [OF assms(2,1)] by blast
  have step: "repo_step X admitted st st1" by (rule repo_step.mutate [OF assms(3,4)])
  have inv1: "repo_inv X st1" by (rule repo_step_inv [OF step assms(1) inv])
  have inv2: "repo_inv X st2" by (rule repo_run_inv [OF assms(6,1) inv1])
  obtain c c' where c: "btree_get (rp_claims st) i = Some c" "claim_step X c c'" "c' \<noteq> c"
    "rc_aggregate_version c = v" "btree_get (rp_claims st1) i = Some c'"
    using repo_mutate_stores [OF assms(4,3) inv assms(5)] by blast
  obtain d where d: "btree_get (rp_claims st2) i = Some d" "(claim_step X)\<^sup>*\<^sup>* c' d"
    using repo_run_keeps_claim [OF assms(6,1) inv1 c(5)] by blast
  have "v < rc_aggregate_version c'" using claim.step_counts [OF c(2,3)] c(4) by simp
  then have "rc_aggregate_version d \<noteq> v" using claim.run_version [OF d(2)] by auto
  then have "st3 = st2"
    using repo_mutate_stores [OF assms(8,7) inv2] d(1) by fastforce
  moreover have "btree_get (rp_claims st2) i = Some e" if "res = Inr e" for e
    using assms(8) that \<open>rc_aggregate_version d \<noteq> v\<close> d(1)
    by (auto simp: repo_mutate_def repo_find_def ok_or_def
        split: sum.split_asm prod.split_asm if_split_asm option.split_asm)
  ultimately show ?thesis by blast
qed

text \<open>
  C29. Releasing never gets stuck: in a reachable state every claim transition that succeeds on the
  stored claim is carried out if the client has its current version, the lease checks of the release
  included, and when it releases the claim every exclusive slot of it is free for the next one.
\<close>

theorem repo_release_succeeds:
  assumes "hash_laws X" and "(repo_step X admitted)\<^sup>*\<^sup>* repo_new st"
    and "btree_get (rp_claims st) i = Some c" and "claim_transition X f" and "f c = (c', Inr ())"
  shows "\<exists>st'. repo_mutate st (rc_organization_id c) i (rc_aggregate_version c) f = (st', Inr c') \<and>
    btree_get (rp_claims st') i = Some c' \<and>
    (rc_state c \<noteq> ClaimReleased \<and> rc_state c' = ClaimReleased \<longrightarrow>
      (\<forall>k\<in>exclusive_keys c. locks_of st' k = None))"
proof -
  obtain st' res where st': "repo_mutate st (rc_organization_id c) i (rc_aggregate_version c) f = (st', res)"
    by fastforce
  have all: "repo_inv X st" "no_leaked_lease st" using repo_run_locks [OF assms(2,1)] by auto
  have step: "repo_step X admitted st st'" by (rule repo_step.mutate [OF assms(4) st'])
  have tight: "no_leaked_lease st'" using repo_step_locks [OF step assms(1) all] by blast
  have after: "res = Inr c'" "btree_get (rp_claims st') = (btree_get (rp_claims st))(i \<mapsto> c')"
    using repo_mutate_succeeds [OF all(1) assms(3-5) st'] by auto
  have "locks_of st' k = None"
    if "rc_state c \<noteq> ClaimReleased" "rc_state c' = ClaimReleased" "k \<in> exclusive_keys c" for k
  proof (rule ccontr)
    assume "locks_of st' k \<noteq> None"
    then obtain j d where d: "btree_get (rp_claims st') j = Some d" "claim_live d" "k \<in> exclusive_keys d"
      using no_leaked_leaseD [OF tight] by blast
    with after(2) that(2) have "j \<noteq> i" by (auto simp: claim_live_def)
    with d after(2) have "locks_of st k = Some j" using locks_of_claim [OF all(1) _ d(2,3)] by simp
    moreover have "locks_of st k = Some i"
      using locks_of_claim [OF all(1) assms(3) _ that(3)] that(1) by (simp add: claim_live_def)
    ultimately show False using \<open>j \<noteq> i\<close> by simp
  qed
  then show ?thesis using st' after by auto
qed

subsection \<open>Witnesses\<close>

text \<open>Two members of one replica on one node, reserved in one batch; both take a share of the CPU.\<close>

definition second_reservation :: reservation where
  "second_reservation = sample_reservation\<lparr>rs_id := 41,
     rs_binding := sample_current_binding\<lparr>drb_member_id := - 1\<rparr>,
     rs_slots := [\<lparr>sr_kind = Cpu, sr_stable_resource_id = ''cpu'', sr_allocation = Scalar 500 MilliCpu\<rparr>]\<rparr>"

definition second_bindings :: "slot_binding list" where
  "second_bindings =
     [\<lparr>sb_kind = Cpu, sb_stable_resource_id = ''cpu'', sb_allocation = Scalar 500 MilliCpu,
       sb_slot_generation = 2, sb_fence_token = 51\<rparr>]"

definition sample_tokens :: fresh_tokens where
  "sample_tokens i key = (if fst key = Cpu then 51 else 52)"

definition sample_capacity :: "uuid \<Rightarrow> uuid \<Rightarrow> slot_id \<Rightarrow> nat" where
  "sample_capacity org node key = 2000"

lemma second_reservation_valid: "reservation_validate sample_externals second_reservation = Inr ()"
  using sample_inventory_valid sample_digest_valid sample_unit_id_valid
  by (simp add: reservation_validate_def second_reservation_def sample_reservation_def
      sample_current_binding_def
      sample_binding_eval claim_validate_sha256_def validate_runtime_identity_def
      validate_slot_requests_def slot_request_validate_def sr_key_def request_within_inventory_def
      inventory_find_def sample_inventory_def ns_key_def ok_or_def slot_eval)

lemma sample_batch:
  "atomic_reservation_new sample_externals [sample_reservation, second_reservation] =
     Inr [sample_reservation, second_reservation]"
  using sample_reservation_valid second_reservation_valid
  by (simp add: atomic_reservation_new_def reservation_member_generation_def reservation_order_def
      sample_reservation_def second_reservation_def sample_current_binding_def sample_binding_eval Let_def)

lemma sample_batch_within:
  "list_all (inventory_within sample_capacity) [sample_reservation, second_reservation]"
  by (simp add: inventory_within_def sample_reservation_def second_reservation_def sample_inventory_def
      sample_capacity_def)

lemma second_claim_exists:
  "\<exists>c. claim_reserve sample_externals second_reservation second_bindings = Inr c"
proof -
  have "slot_requests_match_bindings (rs_slots second_reservation) second_bindings"
    by (simp add: slot_requests_match_bindings_def second_reservation_def second_bindings_def)
  moreover have "validate_slot_bindings second_bindings = Inr ()"
    by (simp add: second_bindings_def validate_slot_bindings_def slot_binding_validate_def sb_key_def slot_eval)
  ultimately show ?thesis
    using claim_reserve_ok [OF sample_hash_laws second_reservation_valid] by blast
qed

lemma sample_first_reserved:
  assumes "claim_reserve sample_externals sample_reservation sample_bindings = Inr c"
  shows "reserve_new_claim sample_externals sample_tokens repo_new sample_reservation = Inr
    (\<lparr>rp_claims = [(rc_id c, c)],
      rp_slots = [((2, 7, Cpu, ''cpu''), slot_lease (rc_id c) (sample_bindings ! 0)),
                  ((2, 7, Accelerator, ''gpu''), slot_lease (rc_id c) (sample_bindings ! 1))]\<rparr>, c)"
proof -
  have "try_map (reserve_slot sample_tokens repo_new sample_reservation) (rs_slots sample_reservation) =
     Inr (zip [(2, 7, Cpu, ''cpu''), (2, 7, Accelerator, ''gpu'')] sample_bindings)"
    by (simp add: sample_reservation_def reserve_slot_def repo_new_def request_slot_key_def
        validate_shared_capacity_def sr_key_def inventory_find_def sample_inventory_def ns_key_def
        sample_tokens_def sample_bindings_def sample_current_binding_def sample_binding_eval
        checked_add_def ok_or_def)
  then show ?thesis
    using assms by (simp add: reserve_new_claim_def sample_bindings_def repo_new_def sample_reservation_def
        less_resource_kind_def)
qed

lemma sample_claim_fields:
  assumes "claim_reserve sample_externals sample_reservation sample_bindings = Inr c"
  shows "rc_id c = 40" "rc_organization_id c = 2" "rc_node_id c = 7" "rc_slots c = sample_bindings"
    "rc_state c = ReservedInDb" "rc_aggregate_version c = 1" "rc_updated_at c = 6000000"
    "\<not> violates_anti_affinity second_reservation c"
proof -
  note facts = claim_reserve_facts [OF sample_hash_laws assms]
  show "rc_id c = 40" "rc_organization_id c = 2" "rc_node_id c = 7" "rc_slots c = sample_bindings"
    "rc_state c = ReservedInDb" "\<not> violates_anti_affinity second_reservation c"
    using facts by (auto simp: reservation_matches_def sample_reservation_def second_reservation_def
        sample_current_binding_def sample_binding_eval violates_anti_affinity_def Let_def)
  show "rc_aggregate_version c = 1" "rc_updated_at c = 6000000"
    using sample_claim_exists assms by auto
qed

lemma sample_second_reserved:
  assumes c: "claim_reserve sample_externals sample_reservation sample_bindings = Inr c"
    and d: "claim_reserve sample_externals second_reservation second_bindings = Inr d"
  shows "reserve_new_claim sample_externals sample_tokens
     \<lparr>rp_claims = [(rc_id c, c)],
      rp_slots = [((2, 7, Cpu, ''cpu''), slot_lease (rc_id c) (sample_bindings ! 0)),
                  ((2, 7, Accelerator, ''gpu''), slot_lease (rc_id c) (sample_bindings ! 1))]\<rparr>
     second_reservation = Inr
    (\<lparr>rp_claims = [(40, c), (rc_id d, d)],
      rp_slots = [((2, 7, Cpu, ''cpu''), slot_lease (rc_id d) (second_bindings ! 0)),
                  ((2, 7, Accelerator, ''gpu''), slot_lease (rc_id c) (sample_bindings ! 1))]\<rparr>, d)"
    (is "reserve_new_claim _ _ ?st _ = _")
proof -
  note c' = sample_claim_fields [OF c]
  have d': "rc_id d = 41"
    using claim_reserve_facts(2) [OF sample_hash_laws d]
    by (simp add: reservation_matches_def second_reservation_def Let_def)
  have "try_map (reserve_slot sample_tokens ?st second_reservation) (rs_slots second_reservation) =
     Inr (zip [(2, 7, Cpu, ''cpu'')] second_bindings)"
    by (simp add: sample_reservation_def second_reservation_def reserve_slot_def request_slot_key_def
        validate_shared_capacity_def sr_key_def sb_key_def inventory_find_def sample_inventory_def ns_key_def
        sample_tokens_def sample_bindings_def second_bindings_def sample_current_binding_def
        sample_binding_eval checked_add_def ok_or_def c' btree_values_def live_on_node_def btree_get_def
        slot_lease_def is_shared_capacity_def)
  then show ?thesis
    using d c' d' by (simp add: reserve_new_claim_def second_bindings_def second_reservation_def
        btree_get_def btree_values_def)
qed

lemma sample_pair_reserved:
  "\<exists>c d st. repo_reserve_atomically sample_externals sample_tokens repo_new
      [sample_reservation, second_reservation] = (st, Inr \<lparr>iw_value = [c, d], iw_replayed = False\<rparr>) \<and>
    claim_reserve sample_externals sample_reservation sample_bindings = Inr c \<and>
    btree_get (rp_claims st) 40 = Some c \<and> btree_get (rp_claims st) 41 = Some d"
proof -
  obtain c d where cd: "claim_reserve sample_externals sample_reservation sample_bindings = Inr c"
    "claim_reserve sample_externals second_reservation second_bindings = Inr d"
    using sample_claim_exists second_claim_exists by blast
  have "rc_id d = 41"
    using claim_reserve_facts(2) [OF sample_hash_laws cd(2)]
    by (simp add: reservation_matches_def second_reservation_def Let_def)
  then show ?thesis
    using cd sample_first_reserved [OF cd(1)] sample_second_reserved [OF cd]
    by (intro exI [of _ c] exI [of _ d])
      (simp add: repo_reserve_atomically_def existing_claims_def repo_new_def btree_get_def)
qed

lemma sample_pair_run:
  assumes "list_all admitted [sample_reservation, second_reservation]"
    and "repo_reserve_atomically sample_externals sample_tokens repo_new
      [sample_reservation, second_reservation] = (st, r)"
  shows "(repo_step sample_externals admitted)\<^sup>*\<^sup>* repo_new st"
  using repo_step.reserve [OF sample_batch assms] by blast

theorem repo_exclusive_and_fenced_witness:
  "\<exists>(st :: repo) c d. btree_get (rp_claims st) 40 = Some c \<and> btree_get (rp_claims st) 41 = Some d \<and>
     (\<forall>s\<in>set (rc_slots c). \<forall>t\<in>set (rc_slots d). claim_slot_key c s = claim_slot_key d t \<longrightarrow>
       sb_slot_generation s \<noteq> sb_slot_generation t)"
proof -
  obtain c d st r where st: "repo_reserve_atomically sample_externals sample_tokens repo_new
      [sample_reservation, second_reservation] = (st, r)"
    "btree_get (rp_claims st) 40 = Some c" "btree_get (rp_claims st) 41 = Some d"
    using sample_pair_reserved by blast
  have "(repo_step sample_externals (\<lambda>_. True))\<^sup>*\<^sup>* repo_new st"
    by (rule sample_pair_run [OF _ st(1)]) simp
  from repo_exclusive_and_fenced [OF sample_hash_laws this st(2,3)]
  have "\<forall>s\<in>set (rc_slots c). \<forall>t\<in>set (rc_slots d). claim_slot_key c s = claim_slot_key d t \<longrightarrow>
       sb_slot_generation s \<noteq> sb_slot_generation t" by simp
  with st(2,3) show ?thesis by blast
qed

theorem shared_capacity_never_exceeded_witness:
  "\<exists>st. btree_get (rp_claims st) 40 \<noteq> None \<and> btree_get (rp_claims st) 41 \<noteq> None \<and>
     allocated st 2 7 (Cpu, ''cpu'') \<le> sample_capacity 2 7 (Cpu, ''cpu'')"
proof -
  obtain c d st r where st: "repo_reserve_atomically sample_externals sample_tokens repo_new
      [sample_reservation, second_reservation] = (st, r)"
    "btree_get (rp_claims st) 40 = Some c" "btree_get (rp_claims st) 41 = Some d"
    using sample_pair_reserved by blast
  from shared_capacity_never_exceeded
    [OF sample_hash_laws sample_pair_run [OF sample_batch_within st(1)], of "(Cpu, ''cpu'')" 2 7] st(2,3)
  show ?thesis by (intro exI [of _ st]) (simp add: is_shared_capacity_def)
qed


theorem reserve_atomic_and_replayable_witness:
  "\<exists>st cs. st \<noteq> repo_new \<and>
     repo_reserve_atomically sample_externals (\<lambda>_ _. 9) st [sample_reservation, second_reservation] =
       (st, Inr \<lparr>iw_value = cs, iw_replayed = True\<rparr>)"
proof -
  obtain c d st w where st: "repo_reserve_atomically sample_externals sample_tokens repo_new
      [sample_reservation, second_reservation] = (st, Inr w)"
    "btree_get (rp_claims st) 40 = Some c"
    using sample_pair_reserved by blast
  have new: "st \<noteq> repo_new" using st(2) by (auto simp: repo_new_def)
  from reserve_atomic_and_replayable [OF sample_hash_laws rtranclp.rtrancl_refl _ st(1) sample_batch _
      rtranclp.rtrancl_refl, of "\<lambda>_. True" "\<lambda>_ _. 9"] new
  show ?thesis by auto
qed

lemma sample_cancel:
  assumes "claim_reserve sample_externals sample_reservation sample_bindings = Inr c"
  shows "\<exists>c'. claim_cancel_database_reservation c 7000000 = (c', Inr ()) \<and> rc_state c' = ClaimReleased"
proof -
  note fields = sample_claim_fields [OF assms]
  have "claim_validate sample_externals c = Inr ()"
    using claim_reserve_facts(1) [OF sample_hash_laws assms] by (simp add: claim_inv_def)
  then have "validate_slot_bindings (rc_slots c) = Inr ()" "is_sha256_digest (rc_reservation_digest c)"
    by (auto simp: claim_validate_ok claim_static_def)
  moreover from this have "validate_slot_evidence (claim_slot_evidence c) = Inr ()"
    using slot_evidence_of_bindings_valid by (simp add: claim_slot_evidence_def)
  ultimately show ?thesis
    using fields by (simp add: claim_cancel_database_reservation_def claim_record_released_def
        claim_canonical_time_def canonical_timestamp_def timestamp_millis_def claim_validate_sha256_def
        slot_evidence_matches_def claim_bump_def checked_add_def Let_def)
qed

lemma cancel_transition: "claim_transition X (\<lambda>c. claim_cancel_database_reservation c at)"
  unfolding claim_transition_def by (metis claim_call.cancel_database_reservation prod.collapse)

lemma orphan_transition: "claim_transition X (\<lambda>c. claim_orphan c f at)"
  unfolding claim_transition_def by (metis claim_call.orphan prod.collapse)

theorem repo_release_succeeds_witness:
  "\<exists>st st' c c'. btree_get (rp_claims st) 40 = Some c \<and> rc_state c = ReservedInDb \<and>
     repo_cancel_database_reservation st (rc_organization_id c) 40 (rc_aggregate_version c) 7000000 =
       (st', Inr c') \<and>
     (\<forall>k\<in>exclusive_keys c. locks_of st' k = None)"
proof -
  obtain c st r where st: "repo_reserve_atomically sample_externals sample_tokens repo_new
      [sample_reservation, second_reservation] = (st, r)"
    "claim_reserve sample_externals sample_reservation sample_bindings = Inr c"
    "btree_get (rp_claims st) 40 = Some c"
    using sample_pair_reserved by blast
  obtain c' where c': "claim_cancel_database_reservation c 7000000 = (c', Inr ())" "rc_state c' = ClaimReleased"
    using sample_cancel [OF st(2)] by blast
  have "(repo_step sample_externals (\<lambda>_. True))\<^sup>*\<^sup>* repo_new st"
    by (rule sample_pair_run [OF _ st(1)]) simp
  from repo_release_succeeds [OF sample_hash_laws this st(3) cancel_transition c'(1)]
    sample_claim_fields(5) [OF st(2)] c'(2) st(3) show ?thesis
    unfolding repo_cancel_database_reservation_def by fastforce
qed

theorem no_lost_update_witness:
  "\<exists>st st' res. st \<noteq> repo_new \<and> repo_orphan st 2 40 1 ''lost'' 8000000 = (st', res) \<and> st' = st"
proof -
  obtain c st r where st: "repo_reserve_atomically sample_externals sample_tokens repo_new
      [sample_reservation, second_reservation] = (st, r)"
    "claim_reserve sample_externals sample_reservation sample_bindings = Inr c"
    "btree_get (rp_claims st) 40 = Some c"
    using sample_pair_reserved by blast
  note fields = sample_claim_fields [OF st(2)]
  obtain c' where c': "claim_cancel_database_reservation c 7000000 = (c', Inr ())" "rc_state c' = ClaimReleased"
    using sample_cancel [OF st(2)] by blast
  have run: "(repo_step sample_externals (\<lambda>_. True))\<^sup>*\<^sup>* repo_new st"
    by (rule sample_pair_run [OF _ st(1)]) simp
  have inv: "repo_inv sample_externals st" using repo_run_locks [OF run sample_hash_laws] by blast
  obtain st1 res1
    where eq: "repo_mutate st 2 40 1 (\<lambda>c. claim_cancel_database_reservation c 7000000) = (st1, res1)"
    by (metis surj_pair)
  have "res1 = Inr c' \<and> btree_get (rp_claims st1) = (btree_get (rp_claims st))(40 \<mapsto> c')"
    by (rule repo_mutate_succeeds [OF inv st(3) cancel_transition c'(1)]) (simp only: fields eq)
  with eq have st1: "repo_mutate st 2 40 1 (\<lambda>c. claim_cancel_database_reservation c 7000000) = (st1, Inr c')"
      "btree_get (rp_claims st1) 40 = Some c'" by simp_all
  have "st1 \<noteq> st" using st1(2) st(3) c'(2) fields(5) by auto
  obtain st' res where st': "repo_mutate st1 2 40 1 (\<lambda>c. claim_orphan c ''lost'' 8000000) = (st', res)"
    by (metis surj_pair)
  have "st' = st1"
    using no_lost_update [OF sample_hash_laws run cancel_transition st1(1) \<open>st1 \<noteq> st\<close>
      rtranclp.rtrancl_refl orphan_transition st'] by (rule conjunct1)
  moreover have "st1 \<noteq> repo_new" using st1(2) by (auto simp: repo_new_def)
  ultimately show ?thesis using st' unfolding repo_orphan_def by blast
qed

end
