(* ===== verification/Workload_Control.thy ===== *)
theory Workload_Control
  imports Workload Externals
begin

text \<open>
  The control record of a workload, \<open>workloads/domain/entities/workload_control.rs\<close>: the reference to
  the aggregate that manages the workload, the effective placement policy with its digest, the
  constructors of both, and the methods of \<open>WorkloadControl\<close>.

  The built-in constructors call \<open>expect\<close>; a panic is the value \<open>None\<close>.
\<close>

section \<open>Managed owners\<close>

datatype control_error =
    OwnerKindInvalid
  | OwnerReferenceInvalid
  | PolicyInvalid
  | PolicyNotEncoded
  | ControlMismatch
  | AuthorityMismatch
  | DirectOwnershipChanged
  | HandoffNotNext
  | HandoffTimeRegressed
  | ControlVersionOverflowed
  | DirectMutationRejected
  | WrongOwnerAuthority
  | PolicyGenerationChanged u64 u64
  | DesiredUnchanged
  | ReconfigurationTimeRegressed
  | PolicyGenerationOverflowed
  | StoredControlInvalid

text \<open>The predicate on a segment of an owner kind: a lowercase letter first, then also digits and hyphens.\<close>

definition owner_kind_segment :: "string \<Rightarrow> bool" where
  "owner_kind_segment segment \<longleftrightarrow>
     \<not> (segment = [] \<or> length segment > 32 \<or>
        list_ex (\<lambda>(index, byte). \<not> (ascii_lowercase byte
            \<or> index > 0 \<and> ascii_digit byte
            \<or> index > 0 \<and> byte = CHR ''-'')) (List.enumerate 0 segment))"

definition owner_kind_parse :: "string \<Rightarrow> (control_error, string) result" where
  "owner_kind_parse value =
     (if length value > 64 \<or> length (split_on CHR ''.'' value) < 2
         \<or> list_ex (\<lambda>segment. \<not> owner_kind_segment segment) (split_on CHR ''.'' value)
      then Inl OwnerKindInvalid else Inr value)"

record owner_reference =
  mo_kind :: string
  mo_owner_id :: uuid
  mo_owner_generation :: u64
  mo_owner_spec_digest :: string

definition owner_reference_validate :: "owner_reference \<Rightarrow> (control_error, unit) result" where
  "owner_reference_validate self =
     (if is_nil (mo_owner_id self) \<or> mo_owner_generation self = 0
         \<or> \<not> is_sha256_digest (mo_owner_spec_digest self)
      then Inl OwnerReferenceInvalid
      else and_then (owner_kind_parse (mo_kind self)) (\<lambda>_. Inr ()))"

definition owner_reference_new ::
    "string \<Rightarrow> uuid \<Rightarrow> u64 \<Rightarrow> string \<Rightarrow> (control_error, owner_reference) result" where
  "owner_reference_new kind owner_id owner_generation owner_spec_digest =
     (let reference = \<lparr>mo_kind = kind, mo_owner_id = owner_id, mo_owner_generation = owner_generation,
                       mo_owner_spec_digest = owner_spec_digest\<rparr>
      in and_then (owner_reference_validate reference) (\<lambda>_. Inr reference))"

section \<open>Placement policies\<close>

datatype placement_topology = SingleNode | MultiNode

datatype replica_anti_affinity = AntiAffinityRequired

record placement_policy =
  pp_schema :: string
  pp_generation :: u64
  pp_desired_replicas :: u32
  pp_members_per_replica :: u32
  pp_topology :: placement_topology
  pp_replica_anti_affinity :: replica_anti_affinity
  pp_node_pool_id :: "uuid option"
  pp_digest :: string

definition placement_policy_schema :: string where
  "placement_policy_schema = ''a3s.cloud.effective-placement-policy.v3''"

fun topology_json :: "placement_topology \<Rightarrow> json" where
  "topology_json SingleNode = JStr ''single_node''"
| "topology_json MultiNode = JStr ''multi_node''"

definition policy_calculate_digest :: "externals \<Rightarrow> placement_policy \<Rightarrow> (control_error, string) result" where
  "policy_calculate_digest X self =
     ok_or PolicyNotEncoded (sha256_of_json X (JObj
       [(''schema'', JStr (pp_schema self)),
        (''generation'', JNum (unat (pp_generation self))),
        (''desiredReplicas'', JNum (unat (pp_desired_replicas self))),
        (''membersPerReplica'', JNum (unat (pp_members_per_replica self))),
        (''topology'', topology_json (pp_topology self)),
        (''replicaAntiAffinity'', JStr ''required''),
        (''nodePoolId'', case pp_node_pool_id self of None \<Rightarrow> JNull | Some i \<Rightarrow> JUuid i)]))"

definition policy_validate :: "externals \<Rightarrow> placement_policy \<Rightarrow> (control_error, unit) result" where
  "policy_validate X self =
     (if pp_schema self \<noteq> placement_policy_schema
         \<or> pp_generation self = 0
         \<or> pp_desired_replicas self > 100
         \<or> pp_members_per_replica self = 0
         \<or> pp_members_per_replica self > 256
         \<or> (case pp_topology self of
              SingleNode \<Rightarrow> pp_members_per_replica self \<noteq> 1
            | MultiNode \<Rightarrow> pp_members_per_replica self < 2)
         \<or> (case pp_node_pool_id self of None \<Rightarrow> False | Some i \<Rightarrow> is_nil i)
         \<or> \<not> is_sha256_digest (pp_digest self)
      then Inl PolicyInvalid
      else and_then (policy_calculate_digest X self) (\<lambda>digest.
           if digest \<noteq> pp_digest self then Inl PolicyInvalid else Inr ()))"

definition replica_set_in_pool ::
    "externals \<Rightarrow> u64 \<Rightarrow> u32 \<Rightarrow> uuid option \<Rightarrow> (control_error, placement_policy) result" where
  "replica_set_in_pool X generation desired_replicas node_pool_id =
     (let policy = \<lparr>pp_schema = placement_policy_schema, pp_generation = generation,
        pp_desired_replicas = desired_replicas, pp_members_per_replica = 1,
        pp_topology = SingleNode, pp_replica_anti_affinity = AntiAffinityRequired,
        pp_node_pool_id = node_pool_id, pp_digest = []\<rparr> in
      and_then (policy_calculate_digest X policy) (\<lambda>digest.
      let policy = policy\<lparr>pp_digest := digest\<rparr> in
      and_then (policy_validate X policy) (\<lambda>_. Inr policy)))"

definition placement_group_in_pool ::
    "externals \<Rightarrow> u64 \<Rightarrow> u32 \<Rightarrow> u32 \<Rightarrow> uuid option \<Rightarrow> (control_error, placement_policy) result" where
  "placement_group_in_pool X generation desired_replicas members_per_replica node_pool_id =
     (let policy = \<lparr>pp_schema = placement_policy_schema, pp_generation = generation,
        pp_desired_replicas = desired_replicas, pp_members_per_replica = members_per_replica,
        pp_topology = MultiNode, pp_replica_anti_affinity = AntiAffinityRequired,
        pp_node_pool_id = node_pool_id, pp_digest = []\<rparr> in
      and_then (policy_calculate_digest X policy) (\<lambda>digest.
      let policy = policy\<lparr>pp_digest := digest\<rparr> in
      and_then (policy_validate X policy) (\<lambda>_. Inr policy)))"

definition replica_set :: "externals \<Rightarrow> u64 \<Rightarrow> u32 \<Rightarrow> (control_error, placement_policy) result" where
  "replica_set X generation desired_replicas = replica_set_in_pool X generation desired_replicas None"

definition placement_group ::
    "externals \<Rightarrow> u64 \<Rightarrow> u32 \<Rightarrow> u32 \<Rightarrow> (control_error, placement_policy) result" where
  "placement_group X generation desired_replicas members_per_replica =
     placement_group_in_pool X generation desired_replicas members_per_replica None"

definition single_replica :: "externals \<Rightarrow> placement_policy option" where
  "single_replica X = (case replica_set X 1 1 of Inl _ \<Rightarrow> None | Inr policy \<Rightarrow> Some policy)"

section \<open>Control specifications\<close>

record control_spec =
  cs_managed_owner :: "owner_reference option"
  cs_placement_policy :: placement_policy

definition control_spec_validate :: "externals \<Rightarrow> control_spec \<Rightarrow> (control_error, unit) result" where
  "control_spec_validate X self =
     and_then (case cs_managed_owner self of None \<Rightarrow> Inr () | Some owner \<Rightarrow> owner_reference_validate owner)
       (\<lambda>_. policy_validate X (cs_placement_policy self))"

definition unmanaged_replica_set_in_pool ::
    "externals \<Rightarrow> u64 \<Rightarrow> u32 \<Rightarrow> uuid option \<Rightarrow> (control_error, control_spec) result" where
  "unmanaged_replica_set_in_pool X generation desired_replicas node_pool_id =
     and_then (replica_set_in_pool X generation desired_replicas node_pool_id) (\<lambda>policy.
     Inr \<lparr>cs_managed_owner = None, cs_placement_policy = policy\<rparr>)"

definition unmanaged_replica_set :: "externals \<Rightarrow> u64 \<Rightarrow> u32 \<Rightarrow> (control_error, control_spec) result" where
  "unmanaged_replica_set X generation desired_replicas =
     unmanaged_replica_set_in_pool X generation desired_replicas None"

definition unmanaged_single_replica :: "externals \<Rightarrow> control_spec option" where
  "unmanaged_single_replica X =
     (case unmanaged_replica_set X 1 1 of Inl _ \<Rightarrow> None | Inr spec \<Rightarrow> Some spec)"

definition unmanaged_single_replica_in_pool ::
    "externals \<Rightarrow> uuid \<Rightarrow> (control_error, control_spec) result" where
  "unmanaged_single_replica_in_pool X node_pool_id =
     unmanaged_replica_set_in_pool X 1 1 (Some node_pool_id)"

definition unmanaged_placement_group ::
    "externals \<Rightarrow> u64 \<Rightarrow> u32 \<Rightarrow> u32 \<Rightarrow> (control_error, control_spec) result" where
  "unmanaged_placement_group X generation desired_replicas members_per_replica =
     and_then (placement_group X generation desired_replicas members_per_replica) (\<lambda>policy.
     let spec = \<lparr>cs_managed_owner = None, cs_placement_policy = policy\<rparr> in
     and_then (control_spec_validate X spec) (\<lambda>_. Inr spec))"

definition managed_replica_set_in_pool ::
    "externals \<Rightarrow> owner_reference \<Rightarrow> u64 \<Rightarrow> u32 \<Rightarrow> uuid option
      \<Rightarrow> (control_error, control_spec) result" where
  "managed_replica_set_in_pool X owner generation desired_replicas node_pool_id =
     and_then (owner_reference_validate owner) (\<lambda>_.
     and_then (replica_set_in_pool X generation desired_replicas node_pool_id) (\<lambda>policy.
     Inr \<lparr>cs_managed_owner = Some owner, cs_placement_policy = policy\<rparr>))"

definition managed_replica_set ::
    "externals \<Rightarrow> owner_reference \<Rightarrow> u64 \<Rightarrow> u32 \<Rightarrow> (control_error, control_spec) result" where
  "managed_replica_set X owner generation desired_replicas =
     managed_replica_set_in_pool X owner generation desired_replicas None"

definition managed_single_replica ::
    "externals \<Rightarrow> owner_reference \<Rightarrow> (control_error, control_spec) result" where
  "managed_single_replica X owner = managed_replica_set X owner 1 1"

definition managed_placement_group ::
    "externals \<Rightarrow> owner_reference \<Rightarrow> u64 \<Rightarrow> u32 \<Rightarrow> u32 \<Rightarrow> uuid option
      \<Rightarrow> (control_error, control_spec) result" where
  "managed_placement_group X owner generation desired_replicas members_per_replica node_pool_id =
     and_then (owner_reference_validate owner) (\<lambda>_.
     and_then (placement_group_in_pool X generation desired_replicas members_per_replica node_pool_id) (\<lambda>policy.
     let spec = \<lparr>cs_managed_owner = Some owner, cs_placement_policy = policy\<rparr> in
     and_then (control_spec_validate X spec) (\<lambda>_. Inr spec)))"

section \<open>The control record\<close>

record control =
  wc_organization_id :: uuid
  wc_project_id :: uuid
  wc_environment_id :: uuid
  wc_workload_id :: uuid
  wc_spec :: control_spec
  wc_aggregate_version :: u64
  wc_created_at :: timestamp
  wc_updated_at :: timestamp

definition control_validate_against ::
    "externals \<Rightarrow> control \<Rightarrow> workload \<Rightarrow> (control_error, unit) result" where
  "control_validate_against X self w =
     and_then (control_spec_validate X (wc_spec self)) (\<lambda>_.
     if wc_organization_id self \<noteq> wl_organization_id w
        \<or> wc_project_id self \<noteq> wl_project_id w
        \<or> wc_environment_id self \<noteq> wl_environment_id w
        \<or> wc_workload_id self \<noteq> wl_id w
        \<or> wc_aggregate_version self = 0
        \<or> wc_created_at self \<noteq> wl_created_at w
        \<or> wc_updated_at self < wc_created_at self
     then Inl ControlMismatch else Inr ())"

definition control_create ::
    "externals \<Rightarrow> workload \<Rightarrow> control_spec \<Rightarrow> (control_error, control) result" where
  "control_create X w spec =
     and_then (control_spec_validate X spec) (\<lambda>_.
     let control =
       \<lparr>wc_organization_id = wl_organization_id w, wc_project_id = wl_project_id w,
        wc_environment_id = wl_environment_id w, wc_workload_id = wl_id w, wc_spec = spec,
        wc_aggregate_version = 1, wc_created_at = wl_created_at w, wc_updated_at = wl_created_at w\<rparr>
     in and_then (control_validate_against X control w) (\<lambda>_. Inr control))"

definition control_require_authority ::
    "externals \<Rightarrow> control \<Rightarrow> control_spec \<Rightarrow> (control_error, unit) result" where
  "control_require_authority X self requested =
     and_then (control_spec_validate X requested) (\<lambda>_.
     if wc_spec self \<noteq> requested then Inl AuthorityMismatch else Inr ())"

definition control_require_direct_mutation :: "control \<Rightarrow> (control_error, unit) result" where
  "control_require_direct_mutation self =
     (if cs_managed_owner (wc_spec self) \<noteq> None then Inl DirectMutationRejected else Inr ())"

text \<open>The comparison in \<open>authorize_deployment\<close>; its negation is the source's rejected case.\<close>

definition handoff_is_next ::
    "owner_reference \<Rightarrow> owner_reference \<Rightarrow> placement_policy \<Rightarrow> placement_policy \<Rightarrow> bool" where
  "handoff_is_next current_owner requested_owner current_policy requested_policy \<longleftrightarrow>
     \<not> (mo_kind current_owner \<noteq> mo_kind requested_owner
        \<or> mo_owner_id current_owner \<noteq> mo_owner_id requested_owner
        \<or> mo_owner_generation requested_owner \<le> mo_owner_generation current_owner
        \<or> mo_owner_spec_digest current_owner = mo_owner_spec_digest requested_owner
        \<or> checked_add (pp_generation current_policy) 1 \<noteq> Some (pp_generation requested_policy)
        \<or> pp_desired_replicas current_policy \<noteq> pp_desired_replicas requested_policy
        \<or> pp_members_per_replica current_policy \<noteq> pp_members_per_replica requested_policy
        \<or> pp_topology current_policy \<noteq> pp_topology requested_policy
        \<or> pp_replica_anti_affinity current_policy \<noteq> pp_replica_anti_affinity requested_policy
        \<or> pp_node_pool_id current_policy \<noteq> pp_node_pool_id requested_policy)"

definition control_authorize_deployment ::
    "externals \<Rightarrow> control \<Rightarrow> control_spec \<Rightarrow> timestamp \<Rightarrow> (control, control_error, bool) mutation" where
  "control_authorize_deployment X self requested at =
     (case control_spec_validate X requested of
        Inl e \<Rightarrow> (self, Inl e)
      | Inr _ \<Rightarrow>
          if wc_spec self = requested then (self, Inr False)
          else
            case (cs_managed_owner (wc_spec self), cs_managed_owner requested) of
              (Some current_owner, Some requested_owner) \<Rightarrow>
                if \<not> handoff_is_next current_owner requested_owner
                     (cs_placement_policy (wc_spec self)) (cs_placement_policy requested)
                then (self, Inl HandoffNotNext)
                else
                  let at = canonical_timestamp at in
                  if at < wc_updated_at self then (self, Inl HandoffTimeRegressed)
                  else
                    let self = self\<lparr>wc_spec := requested\<rparr> in
                    (case checked_add (wc_aggregate_version self) 1 of
                       None \<Rightarrow> (self, Inl ControlVersionOverflowed)
                     | Some v \<Rightarrow> (self\<lparr>wc_aggregate_version := v, wc_updated_at := at\<rparr>, Inr True))
            | _ \<Rightarrow> (self, Inl DirectOwnershipChanged))"

definition control_reconfigure_replica_set ::
    "externals \<Rightarrow> control \<Rightarrow> u64 \<Rightarrow> u32 \<Rightarrow> owner_reference option \<Rightarrow> timestamp
      \<Rightarrow> (control, control_error, unit) mutation" where
  "control_reconfigure_replica_set X self expected_policy_generation desired_replicas requested_owner at =
     (let policy = cs_placement_policy (wc_spec self) in
      case and_then (control_spec_validate X (wc_spec self)) (\<lambda>_.
        let at = canonical_timestamp at in
        if cs_managed_owner (wc_spec self) \<noteq> requested_owner then Inl WrongOwnerAuthority
        else if pp_generation policy \<noteq> expected_policy_generation
        then Inl (PolicyGenerationChanged expected_policy_generation (pp_generation policy))
        else if pp_desired_replicas policy = desired_replicas then Inl DesiredUnchanged
        else if at < wc_updated_at self then Inl ReconfigurationTimeRegressed
        else
          and_then (ok_or PolicyGenerationOverflowed (checked_add expected_policy_generation 1)) (\<lambda>generation.
          and_then (ok_or ControlVersionOverflowed (checked_add (wc_aggregate_version self) 1)) (\<lambda>version.
          and_then (case pp_topology policy of
              SingleNode \<Rightarrow> replica_set_in_pool X generation desired_replicas (pp_node_pool_id policy)
            | MultiNode \<Rightarrow> placement_group_in_pool X generation desired_replicas
                (pp_members_per_replica policy) (pp_node_pool_id policy)) (\<lambda>policy.
          Inr (policy, version, at))))) of
        Inl e \<Rightarrow> (self, Inl e)
      | Inr (policy, version, at) \<Rightarrow>
          (self\<lparr>wc_spec := (wc_spec self)\<lparr>cs_placement_policy := policy\<rparr>,
                wc_aggregate_version := version, wc_updated_at := at\<rparr>, Inr ()))"

definition control_restore ::
    "externals \<Rightarrow> uuid \<Rightarrow> uuid \<Rightarrow> uuid \<Rightarrow> uuid \<Rightarrow> control_spec \<Rightarrow> u64 \<Rightarrow> timestamp \<Rightarrow> timestamp
      \<Rightarrow> (control_error, control) result" where
  "control_restore X organization_id project_id environment_id workload_id spec version created_at updated_at =
     and_then (control_spec_validate X spec) (\<lambda>_.
     let created_at = canonical_timestamp created_at; updated_at = canonical_timestamp updated_at in
     if version = 0 \<or> updated_at < created_at then Inl StoredControlInvalid
     else Inr \<lparr>wc_organization_id = organization_id, wc_project_id = project_id,
       wc_environment_id = environment_id, wc_workload_id = workload_id, wc_spec = spec,
       wc_aggregate_version = version, wc_created_at = created_at, wc_updated_at = updated_at\<rparr>)"

inductive control_step :: "externals \<Rightarrow> control \<Rightarrow> control \<Rightarrow> bool" for X where
  authorize: "control_authorize_deployment X s requested at = (t, Inr changed) \<Longrightarrow> control_step X s t"
| reconfigure: "control_reconfigure_replica_set X s g n owner at = (t, Inr ()) \<Longrightarrow> control_step X s t"

section \<open>Policies\<close>

lemma policy_validate_ok:
  assumes "hash_laws X"
  shows "policy_validate X p = Inr () \<longleftrightarrow>
    pp_schema p = placement_policy_schema \<and> pp_generation p \<noteq> 0 \<and> pp_desired_replicas p \<le> 100 \<and>
    (case pp_topology p of SingleNode \<Rightarrow> pp_members_per_replica p = 1
     | MultiNode \<Rightarrow> 2 \<le> pp_members_per_replica p \<and> pp_members_per_replica p \<le> 256) \<and>
    pp_node_pool_id p \<noteq> Some 0 \<and> policy_calculate_digest X p = Inr (pp_digest p)"
proof -
  have digest: "is_sha256_digest d" if "policy_calculate_digest X p = Inr d" for d
    using that assms by (simp add: policy_calculate_digest_def sha256_of_json_digest)
  have two: "x \<noteq> 0" if "2 \<le> x" for x :: u32
    using that by (auto simp: word_le_nat_alt)
  show ?thesis
    using digest two
    by (cases "pp_topology p") (auto simp: policy_validate_def not_less split: option.split_asm if_split_asm option.split)
qed

lemma policy_digest_cong: "policy_calculate_digest X (p\<lparr>pp_digest := d\<rparr>) = policy_calculate_digest X p"
  by (simp add: policy_calculate_digest_def)

lemma policy_digest_total:
  assumes "hash_laws X"
  obtains d where "policy_calculate_digest X p = Inr d"
  using assms by (metis ok_or_Inr_iff policy_calculate_digest_def sha256_of_json_Some)

lemma replica_set_in_pool_facts:
  assumes "replica_set_in_pool X g n pool = Inr p"
  shows "policy_validate X p = Inr ()" "pp_generation p = g" "pp_desired_replicas p = n"
    "pp_members_per_replica p = 1" "pp_topology p = SingleNode" "pp_node_pool_id p = pool"
  using assms by (auto simp: replica_set_in_pool_def Let_def)

lemma placement_group_in_pool_facts:
  assumes "placement_group_in_pool X g n k pool = Inr p"
  shows "policy_validate X p = Inr ()" "pp_generation p = g" "pp_desired_replicas p = n"
    "pp_members_per_replica p = k" "pp_topology p = MultiNode" "pp_node_pool_id p = pool"
  using assms by (auto simp: placement_group_in_pool_def Let_def)

lemma replica_set_in_pool_ok:
  assumes "hash_laws X"
  shows "is_ok (replica_set_in_pool X g n pool) \<longleftrightarrow> g \<noteq> 0 \<and> n \<le> 100 \<and> pool \<noteq> Some 0"
proof -
  let ?p = "\<lparr>pp_schema = placement_policy_schema, pp_generation = g, pp_desired_replicas = n,
    pp_members_per_replica = 1, pp_topology = SingleNode, pp_replica_anti_affinity = AntiAffinityRequired,
    pp_node_pool_id = pool, pp_digest = []\<rparr>"
  obtain d where d: "policy_calculate_digest X ?p = Inr d"
    by (rule policy_digest_total [OF assms])
  then show ?thesis
    using policy_validate_ok [OF assms, of "?p\<lparr>pp_digest := d\<rparr>"] policy_digest_cong [where p = ?p and d = d and X = X]
    by (auto simp: replica_set_in_pool_def Let_def is_ok_iff)
qed

lemma placement_group_in_pool_ok:
  assumes "hash_laws X"
  shows "is_ok (placement_group_in_pool X g n k pool) \<longleftrightarrow>
    g \<noteq> 0 \<and> n \<le> 100 \<and> 2 \<le> k \<and> k \<le> 256 \<and> pool \<noteq> Some 0"
proof -
  let ?p = "\<lparr>pp_schema = placement_policy_schema, pp_generation = g, pp_desired_replicas = n,
    pp_members_per_replica = k, pp_topology = MultiNode, pp_replica_anti_affinity = AntiAffinityRequired,
    pp_node_pool_id = pool, pp_digest = []\<rparr>"
  obtain d where d: "policy_calculate_digest X ?p = Inr d"
    by (rule policy_digest_total [OF assms])
  then show ?thesis
    using policy_validate_ok [OF assms, of "?p\<lparr>pp_digest := d\<rparr>"] policy_digest_cong [where p = ?p and d = d and X = X]
    by (auto simp: placement_group_in_pool_def Let_def is_ok_iff)
qed

section \<open>Changes of a control record\<close>

fun same_owner :: "owner_reference option \<Rightarrow> owner_reference option \<Rightarrow> bool" where
  "same_owner None None \<longleftrightarrow> True"
| "same_owner (Some a) (Some b) \<longleftrightarrow>
     mo_kind a = mo_kind b \<and> mo_owner_id a = mo_owner_id b \<and> mo_owner_generation a \<le> mo_owner_generation b"
| "same_owner _ _ \<longleftrightarrow> False"

text \<open>What no change of a control record touches.\<close>

definition control_identity ::
    "control \<Rightarrow> (uuid \<times> uuid \<times> uuid \<times> uuid \<times> timestamp) \<times>
      placement_topology \<times> u32 \<times> replica_anti_affinity \<times> uuid option \<times> (string \<times> uuid) option" where
  "control_identity c =
     (let p = cs_placement_policy (wc_spec c) in
      ((wc_organization_id c, wc_project_id c, wc_environment_id c, wc_workload_id c, wc_created_at c),
       pp_topology p, pp_members_per_replica p, pp_replica_anti_affinity p, pp_node_pool_id p,
       map_option (\<lambda>o'. (mo_kind o', mo_owner_id o')) (cs_managed_owner (wc_spec c))))"

definition control_next :: "externals \<Rightarrow> control \<Rightarrow> control \<Rightarrow> bool" where
  "control_next X s t \<longleftrightarrow>
     control_identity t = control_identity s \<and>
     control_spec_validate X (wc_spec t) = Inr () \<and>
     same_owner (cs_managed_owner (wc_spec s)) (cs_managed_owner (wc_spec t)) \<and>
     checked_add (pp_generation (cs_placement_policy (wc_spec s))) 1 =
       Some (pp_generation (cs_placement_policy (wc_spec t))) \<and>
     checked_add (wc_aggregate_version s) 1 = Some (wc_aggregate_version t) \<and>
     wc_updated_at s \<le> wc_updated_at t \<and>
     (canonical_timestamp (wc_updated_at t) = wc_updated_at t)"

lemma same_owner_refl [simp]: "same_owner x x"
  by (cases x) auto

lemma anti_affinity_unique: "(a :: replica_anti_affinity) = b"
  by (cases a; cases b) simp

lemma authorize_next:
  assumes "control_authorize_deployment X s requested at = (t, Inr changed)"
  shows "t = s \<or> control_next X s t"
  using assms
  by (auto simp: control_authorize_deployment_def control_next_def control_identity_def handoff_is_next_def
      Let_def split: sum.split_asm if_split_asm option.split_asm)

lemma reconfigure_next:
  assumes "control_reconfigure_replica_set X s g n owner at = (t, Inr ())"
  shows "control_next X s t \<and> pp_desired_replicas (cs_placement_policy (wc_spec t)) = n \<and>
    pp_generation (cs_placement_policy (wc_spec s)) = g \<and> cs_managed_owner (wc_spec s) = owner"
proof -
  let ?p = "cs_placement_policy (wc_spec s)"
  obtain generation version p where valid: "control_spec_validate X (wc_spec s) = Inr ()"
    and owner: "cs_managed_owner (wc_spec s) = owner" "pp_generation ?p = g"
    and time: "wc_updated_at s \<le> canonical_timestamp at"
    and inc: "checked_add g 1 = Some generation" "checked_add (wc_aggregate_version s) 1 = Some version"
    and p: "(case pp_topology ?p of
              SingleNode \<Rightarrow> replica_set_in_pool X generation n (pp_node_pool_id ?p)
            | MultiNode \<Rightarrow> placement_group_in_pool X generation n
                (pp_members_per_replica ?p) (pp_node_pool_id ?p)) = Inr p"
    and t: "t = s\<lparr>wc_spec := (wc_spec s)\<lparr>cs_placement_policy := p\<rparr>,
                wc_aggregate_version := version, wc_updated_at := canonical_timestamp at\<rparr>"
    using assms by (auto simp: control_reconfigure_replica_set_def Let_def
        split: sum.split_asm if_split_asm)
  have valid': "policy_validate X ?p = Inr ()"
    using valid by (simp add: control_spec_validate_def)
  then have single: "pp_topology ?p = SingleNode \<Longrightarrow> pp_members_per_replica ?p = 1"
    by (auto simp: policy_validate_def split: if_split_asm)
  have facts: "policy_validate X p = Inr ()" "pp_generation p = generation" "pp_desired_replicas p = n"
    "pp_members_per_replica p = pp_members_per_replica ?p" "pp_topology p = pp_topology ?p"
    "pp_node_pool_id p = pp_node_pool_id ?p"
    using p single replica_set_in_pool_facts placement_group_in_pool_facts
    by (cases "pp_topology ?p"; simp)+
  show ?thesis
    using facts valid owner time inc
    by (simp add: t control_next_def control_identity_def control_spec_validate_def Let_def
        anti_affinity_unique)
qed

lemma control_step_next: "control_step X s t \<Longrightarrow> t = s \<or> control_next X s t"
  by (erule control_step.cases) (blast dest: authorize_next reconfigure_next)+

definition control_inv :: "externals \<Rightarrow> control \<Rightarrow> bool" where
  "control_inv X c \<longleftrightarrow>
     control_spec_validate X (wc_spec c) = Inr () \<and> wc_aggregate_version c \<noteq> 0 \<and>
     wc_created_at c \<le> wc_updated_at c"

lemma control_identity_created: "control_identity t = control_identity s \<Longrightarrow> wc_created_at t = wc_created_at s"
  by (simp add: control_identity_def Let_def)

interpretation control: optimistic_aggregate "control_step X" control_identity wc_updated_at
  "control_inv X" wc_aggregate_version for X
proof unfold_locales
  fix s t
  assume "control_step X s t"
  then have step: "t = s \<or> control_next X s t" by (rule control_step_next)
  show "control_identity t = control_identity s" "wc_updated_at s \<le> wc_updated_at t"
    "wc_aggregate_version s \<le> wc_aggregate_version t"
    using step by (auto simp: control_next_def checked_inc_le)
  show "wc_aggregate_version s < wc_aggregate_version t" if "t \<noteq> s"
    using step that by (auto simp: control_next_def checked_inc_less)
  show "control_inv X t" if "control_inv X s"
    using step that control_identity_created [of t s]
    by (auto simp: control_next_def control_inv_def dest: checked_inc_pos)
qed

text \<open>The placement generation and the version count the same changes.\<close>

lemma control_run_lockstep:
  "(control_step X)\<^sup>*\<^sup>* s t \<Longrightarrow>
   unat (pp_generation (cs_placement_policy (wc_spec t))) + unat (wc_aggregate_version s) =
   unat (pp_generation (cs_placement_policy (wc_spec s))) + unat (wc_aggregate_version t)"
proof (induction rule: rtranclp_induct)
  case (step u v)
  from control_step_next [OF step(2)] step(3) show ?case
    by (auto simp: control_next_def dest!: checked_inc_unat)
qed simp

lemma control_run_newer:
  assumes "(control_step X)\<^sup>*\<^sup>* s t" and "t \<noteq> s"
  shows "pp_generation (cs_placement_policy (wc_spec s)) < pp_generation (cs_placement_policy (wc_spec t))"
proof -
  have "wc_aggregate_version s < wc_aggregate_version t"
    using control.run_version [OF assms(1)] control.run_same_version [OF assms(1)] assms(2) by force
  with control_run_lockstep [OF assms(1)] show ?thesis
    by (simp add: word_less_nat_alt)
qed

lemma same_owner_trans: "same_owner a b \<Longrightarrow> same_owner b c \<Longrightarrow> same_owner a c"
  by (cases a; cases b; cases c) auto

lemma control_run_owner:
  "(control_step X)\<^sup>*\<^sup>* s t \<Longrightarrow> same_owner (cs_managed_owner (wc_spec s)) (cs_managed_owner (wc_spec t))"
proof (induction rule: rtranclp_induct)
  case (step u v)
  from control_step_next [OF step(2)] step(3) show ?case
    by (auto simp: control_next_def intro: same_owner_trans)
qed simp

lemma control_create_facts:
  assumes "control_create X w spec = Inr c"
  shows "control_inv X c" "wc_spec c = spec" "wc_aggregate_version c = 1"
    "wc_organization_id c = wl_organization_id w" "wc_project_id c = wl_project_id w"
    "wc_environment_id c = wl_environment_id w" "wc_workload_id c = wl_id w"
    "wc_created_at c = wl_created_at w" "wc_updated_at c = wl_created_at w"
  using assms by (auto simp: control_create_def control_validate_against_def control_inv_def Let_def
      split: if_split_asm)

lemma control_run_canonical:
  "(control_step X)\<^sup>*\<^sup>* s t \<Longrightarrow> canonical_timestamp (wc_updated_at s) = wc_updated_at s \<Longrightarrow>
   canonical_timestamp (wc_updated_at t) = wc_updated_at t"
proof (induction rule: rtranclp_induct)
  case (step u v)
  from control_step_next [OF step(2)] step(3,4) show ?case by (auto simp: control_next_def)
qed simp

section \<open>Properties\<close>

text \<open>
  C32. A control record created for a workload always matches it, whatever handoffs and
  reconfigurations follow; the shape of its placement and the identity of its owner never change,
  the owner's generation never goes back, and the placement generation counts the changes without a
  gap: it is the initial generation plus the number of versions since.
\<close>

theorem control_lifecycle:
  assumes "control_create X w spec = Inr c0" and "(control_step X)\<^sup>*\<^sup>* c0 c"
  shows "control_validate_against X c w = Inr () \<and>
    control_identity c = control_identity c0 \<and>
    same_owner (cs_managed_owner spec) (cs_managed_owner (wc_spec c)) \<and>
    unat (pp_generation (cs_placement_policy (wc_spec c))) + 1 =
      unat (pp_generation (cs_placement_policy spec)) + unat (wc_aggregate_version c)"
proof (intro conjI)
  note facts = control_create_facts [OF assms(1)]
  have identity: "control_identity c = control_identity c0"
    by (rule control.run_identity [OF assms(2)])
  then show "control_identity c = control_identity c0" .
  show "control_validate_against X c w = Inr ()"
    using control.run_invar [OF assms(2) facts(1)] identity facts
    by (simp add: control_validate_against_def control_inv_def control_identity_def Let_def)
  show "same_owner (cs_managed_owner spec) (cs_managed_owner (wc_spec c))"
    using control_run_owner [OF assms(2)] facts(2) by simp
  show "unat (pp_generation (cs_placement_policy (wc_spec c))) + 1 =
      unat (pp_generation (cs_placement_policy spec)) + unat (wc_aggregate_version c)"
    using control_run_lockstep [OF assms(2)] facts(2,3) by simp
qed

text \<open>
  C33. Stale authority is refused for good: once a control record has changed, every later state
  refuses the old specification, refuses to go back to it, and refuses a reconfiguration that
  expects the old placement generation; none of the refused calls changes anything.
\<close>

theorem stale_authority_refused:
  assumes "(control_step X)\<^sup>*\<^sup>* s t" and "t \<noteq> s"
  shows "control_require_authority X t (wc_spec s) \<noteq> Inr () \<and>
    (\<exists>e. control_authorize_deployment X t (wc_spec s) at = (t, Inl e)) \<and>
    (\<exists>e. control_reconfigure_replica_set X t (pp_generation (cs_placement_policy (wc_spec s))) n owner at =
      (t, Inl e))"
proof -
  let ?g = "\<lambda>c. pp_generation (cs_placement_policy (wc_spec c))"
  have less: "?g s < ?g t" by (rule control_run_newer [OF assms])
  then have neq: "wc_spec t \<noteq> wc_spec s" by auto
  have "checked_add (?g t) 1 \<noteq> Some (?g s)"
    using less checked_inc_less by fastforce
  then have "\<exists>e. control_authorize_deployment X t (wc_spec s) at = (t, Inl e)"
    using neq by (auto simp: control_authorize_deployment_def handoff_is_next_def Let_def
        split: sum.split option.split)
  moreover have "\<exists>e. control_reconfigure_replica_set X t (?g s) n owner at = (t, Inl e)"
    using less by (auto simp: control_reconfigure_replica_set_def Let_def and_then_Inl_iff
        split: sum.split)
  ultimately show ?thesis
    using neq by (simp add: control_require_authority_def)
qed

text \<open>
  C35. The policy constructors succeed exactly on their documented bounds, what they build validates,
  and the built-in single replica specifications that are taken with \<open>expect\<close> never panic.
\<close>

theorem policy_constructors_correct:
  assumes "hash_laws X"
  shows "(is_ok (replica_set_in_pool X g n pool) \<longleftrightarrow> g \<noteq> 0 \<and> n \<le> 100 \<and> pool \<noteq> Some 0) \<and>
    (is_ok (placement_group_in_pool X g n k pool) \<longleftrightarrow>
      g \<noteq> 0 \<and> n \<le> 100 \<and> 2 \<le> k \<and> k \<le> 256 \<and> pool \<noteq> Some 0) \<and>
    (\<forall>p. replica_set_in_pool X g n pool = Inr p \<or> placement_group_in_pool X g n k pool = Inr p \<longrightarrow>
      policy_validate X p = Inr ()) \<and>
    single_replica X \<noteq> None \<and> unmanaged_single_replica X \<noteq> None"
proof -
  have "is_ok (replica_set_in_pool X 1 1 None)"
    using replica_set_in_pool_ok [OF assms] by simp
  then have "single_replica X \<noteq> None" "unmanaged_single_replica X \<noteq> None"
    by (auto simp: is_ok_iff single_replica_def replica_set_def unmanaged_single_replica_def
        unmanaged_replica_set_def unmanaged_replica_set_in_pool_def)
  moreover have "policy_validate X p = Inr ()"
    if "replica_set_in_pool X g n pool = Inr p \<or> placement_group_in_pool X g n k pool = Inr p" for p
    using that replica_set_in_pool_facts(1) placement_group_in_pool_facts(1) by metis
  ultimately show ?thesis
    using replica_set_in_pool_ok [OF assms, of g n pool] placement_group_in_pool_ok [OF assms, of g n k pool]
    by simp
qed

text \<open>
  C34. Storing and restoring: a control record reachable from its creation for a stored workload is
  rebuilt exactly by \<open>restore\<close> from its columns.
\<close>

theorem control_restore_roundtrip:
  assumes "control_create X w spec = Inr c0" and "(control_step X)\<^sup>*\<^sup>* c0 c" and "workload_inv w"
  shows "control_restore X (wc_organization_id c) (wc_project_id c) (wc_environment_id c)
    (wc_workload_id c) (wc_spec c) (wc_aggregate_version c) (wc_created_at c) (wc_updated_at c) = Inr c"
proof -
  note facts = control_create_facts [OF assms(1)]
  have "wc_created_at c = wl_created_at w"
    using control_identity_created [OF control.run_identity [OF assms(2)]] facts(8) by simp
  then have "canonical_timestamp (wc_created_at c) = wc_created_at c"
    using assms(3) by (simp add: workload_inv_def)
  moreover have "canonical_timestamp (wc_updated_at c) = wc_updated_at c"
    using control_run_canonical [OF assms(2)] facts(9) assms(3) by (simp add: workload_inv_def)
  ultimately show ?thesis
    using control.run_invar [OF assms(2) facts(1)]
    by (auto simp: control_restore_def control_inv_def Let_def)
qed

subsection \<open>Witnesses\<close>

lemma sample_control_run:
  "\<exists>spec c0 c. unmanaged_replica_set sample_externals 1 1 = Inr spec \<and>
     control_create sample_externals sample_workload spec = Inr c0 \<and>
     control_reconfigure_replica_set sample_externals c0 1 3 None 6000 = (c, Inr ()) \<and>
     (control_step sample_externals)\<^sup>*\<^sup>* c0 c \<and> c \<noteq> c0 \<and>
     pp_generation (cs_placement_policy (wc_spec c0)) = 1"
proof -
  have ok: "\<exists>p. replica_set_in_pool sample_externals g n None = Inr p" if "g \<noteq> 0" "n \<le> 100" for g n
    using replica_set_in_pool_ok [OF sample_hash_laws, of g n None] that by (simp add: is_ok_iff)
  obtain p where p: "replica_set_in_pool sample_externals 1 1 None = Inr p" using ok [of 1 1] by auto
  obtain q where q: "replica_set_in_pool sample_externals 2 3 None = Inr q" using ok [of 2 3] by auto
  note pf = replica_set_in_pool_facts [OF p]
  let ?spec = "\<lparr>cs_managed_owner = None, cs_placement_policy = p\<rparr>"
  have valid: "control_spec_validate sample_externals ?spec = Inr ()"
    using pf(1) by (simp add: control_spec_validate_def)
  obtain c0 where c0: "control_create sample_externals sample_workload ?spec = Inr c0"
    using valid by (simp add: control_create_def control_validate_against_def Let_def)
  note cf = control_create_facts [OF c0]
  have "wc_updated_at c0 = 5000"
    using cf(9) by (simp add: sample_workload_def workload_create_def canonical_timestamp_def)
  then obtain c where c: "control_reconfigure_replica_set sample_externals c0 1 3 None 6000 = (c, Inr ())"
    using cf(2,3) valid pf q
    by (simp add: control_reconfigure_replica_set_def canonical_timestamp_def checked_add_def ok_or_def)
  have "c \<noteq> c0"
    using reconfigure_next [OF c] cf(2) pf(3) by auto
  moreover have "(control_step sample_externals)\<^sup>*\<^sup>* c0 c"
    using control_step.reconfigure [OF c] by blast
  ultimately show ?thesis
    using c0 c p cf(2) pf(2) by (auto simp: unmanaged_replica_set_def unmanaged_replica_set_in_pool_def)
qed

theorem control_lifecycle_witness:
  "\<exists>c. control_validate_against sample_externals c sample_workload = Inr () \<and>
     unat (pp_generation (cs_placement_policy (wc_spec c))) = unat (wc_aggregate_version c)"
proof -
  obtain spec c0 c where "control_create sample_externals sample_workload spec = Inr c0"
    "(control_step sample_externals)\<^sup>*\<^sup>* c0 c" "pp_generation (cs_placement_policy (wc_spec c0)) = 1"
    using sample_control_run by blast
  with control_lifecycle [OF this(1,2)] control_create_facts(2) [OF this(1)] show ?thesis by auto
qed

theorem stale_authority_refused_witness:
  "\<exists>s t. control_reconfigure_replica_set sample_externals s 1 3 None 6000 = (t, Inr ()) \<and>
     control_require_authority sample_externals t (wc_spec s) \<noteq> Inr ()"
proof -
  obtain s t where "control_reconfigure_replica_set sample_externals s 1 3 None 6000 = (t, Inr ())"
    "(control_step sample_externals)\<^sup>*\<^sup>* s t" "t \<noteq> s"
    using sample_control_run by blast
  with stale_authority_refused [OF this(2,3)] show ?thesis by blast
qed

theorem policy_constructors_correct_witness:
  "is_ok (replica_set_in_pool sample_externals 1 100 None) \<and>
   \<not> is_ok (placement_group_in_pool sample_externals 1 100 1 None) \<and>
   unmanaged_single_replica sample_externals \<noteq> None"
  using policy_constructors_correct [OF sample_hash_laws, of 1 100 None 1] by (simp add: word_le_nat_alt)

theorem control_restore_roundtrip_witness:
  "\<exists>c. wc_aggregate_version c = 2 \<and>
    control_restore sample_externals (wc_organization_id c) (wc_project_id c) (wc_environment_id c)
    (wc_workload_id c) (wc_spec c) (wc_aggregate_version c) (wc_created_at c) (wc_updated_at c) = Inr c"
proof -
  obtain spec c0 c where c: "control_create sample_externals sample_workload spec = Inr c0"
    "control_reconfigure_replica_set sample_externals c0 1 3 None 6000 = (c, Inr ())"
    "(control_step sample_externals)\<^sup>*\<^sup>* c0 c"
    using sample_control_run by blast
  have "workload_inv sample_workload"
    by (simp add: workload_inv_def sample_workload_def workload_create_def Let_def)
  note restored = control_restore_roundtrip [OF c(1,3) this]
  have "checked_add (1 :: u64) 1 = Some (wc_aggregate_version c)"
    using reconfigure_next [OF c(2)] control_create_facts(3) [OF c(1)] by (simp add: control_next_def)
  then have "wc_aggregate_version c = 2" by (simp add: checked_add_def split: if_split_asm)
  with restored show ?thesis by blast
qed

end
