(* ===== verification/Replica_Set.thy ===== *)
theory Replica_Set
  imports Workload_Control Workload_Replica
begin

text \<open>
  Planning a change of the number of replicas,
  \<open>workloads/domain/services/replica_set_reconfiguration.rs\<close>. The function owns the vector of replicas
  and drops it on an error, so a plan is a value of a result type. The ranges
  \<open>desired..previous\<close> and \<open>previous..desired\<close> are lists of ordinals.
\<close>

section \<open>Definitions\<close>

datatype replica_set_error =
    ConflictControlVersion u64 u64
  | ConflictControl control_error
  | ConflictReplica replica_error
  | ConflictStillRetiring u32
  | InvariantControl control_error
  | InvariantReplica replica_error
  | InvariantEmpty
  | InvariantIdentities
  | InvariantNoOrdinalZero
  | InvariantNoCanonicalRevision
  | InvariantDesiredMissing u32
  | InvariantAlreadyDesired u32
  | InvariantPrefixMissing u32
  | InvariantNotPrefix

record reconfiguration =
  rcf_control :: control
  rcf_replicas :: "replica list"
  rcf_members_to_create :: "member list"

definition u32_range :: "u32 \<Rightarrow> u32 \<Rightarrow> u32 list" where
  "u32_range a b = map of_nat [unat a ..< unat b]"

text \<open>The place of the first replica with an ordinal, for the update in place.\<close>

fun replica_for_ordinal_mut :: "replica list \<Rightarrow> u32 \<Rightarrow> nat option" where
  "replica_for_ordinal_mut [] ordinal = None"
| "replica_for_ordinal_mut (r # rs) ordinal =
     (if wr_ordinal r = ordinal then Some 0
      else map_option Suc (replica_for_ordinal_mut rs ordinal))"

definition replica_order :: "replica \<Rightarrow> u32 \<times> uuid" where
  "replica_order r = (wr_ordinal r, wr_id r)"

definition validate_desired_prefix :: "replica list \<Rightarrow> u32 \<Rightarrow> (replica_set_error, unit) result" where
  "validate_desired_prefix replicas desired_replicas =
     and_then (try_for_each (\<lambda>ordinal.
         if (case find (\<lambda>r. wr_ordinal r = ordinal) replicas of
               None \<Rightarrow> True | Some r \<Rightarrow> wr_lifecycle r \<noteq> LcDesired)
         then Inl (InvariantPrefixMissing ordinal) else Inr ()) (u32_range 0 desired_replicas)) (\<lambda>_.
     if list_ex (\<lambda>r. wr_ordinal r \<ge> desired_replicas \<and> wr_lifecycle r = LcDesired) replicas
     then Inl InvariantNotPrefix else Inr ())"

text \<open>The loop with the two \<open>BTreeSet\<close>s of \<open>validate_current_set\<close>.\<close>

fun check_identities ::
    "externals \<Rightarrow> workload \<Rightarrow> uuid list \<Rightarrow> u32 list \<Rightarrow> replica list \<Rightarrow> (replica_set_error, unit) result" where
  "check_identities X w ids ordinals [] = Inr ()"
| "check_identities X w ids ordinals (r # rs) =
     and_then (map_err InvariantReplica (replica_validate X r)) (\<lambda>_.
     if wr_organization_id r \<noteq> wl_organization_id w
        \<or> wr_project_id r \<noteq> wl_project_id w
        \<or> wr_environment_id r \<noteq> wl_environment_id w
        \<or> wr_workload_id r \<noteq> wl_id w
        \<or> wr_id r \<in> set ids
        \<or> wr_ordinal r \<in> set ordinals
     then Inl InvariantIdentities
     else check_identities X w (wr_id r # ids) (wr_ordinal r # ordinals) rs)"

definition validate_current_set ::
    "externals \<Rightarrow> workload \<Rightarrow> control \<Rightarrow> revision \<Rightarrow> replica list
      \<Rightarrow> (replica_set_error, replica list) result" where
  "validate_current_set X w control revision replicas =
     and_then (map_err InvariantControl (control_validate_against X control w)) (\<lambda>_.
     let replicas = sort_key replica_order replicas in
     if replicas = [] then Inl InvariantEmpty
     else
     and_then (check_identities X w [] [] replicas) (\<lambda>_.
     and_then (ok_or InvariantNoOrdinalZero (find (\<lambda>r. wr_ordinal r = 0) replicas)) (\<lambda>canonical.
     if rv_workload_id revision \<noteq> wl_id w
        \<or> wr_revision_id canonical \<noteq> rv_id revision
        \<or> wr_revision_generation canonical \<noteq> rv_generation revision
     then Inl InvariantNoCanonicalRevision
     else
     and_then (validate_desired_prefix replicas (pp_desired_replicas (cs_placement_policy (wc_spec control))))
       (\<lambda>_. Inr replicas))))"

text \<open>One turn of the loop that retires the ordinals beyond the new count.\<close>

definition retire_ordinal ::
    "timestamp \<Rightarrow> u32 \<Rightarrow> replica list \<Rightarrow> (replica_set_error, replica list) result" where
  "retire_ordinal at ordinal replicas =
     and_then (ok_or (InvariantDesiredMissing ordinal) (replica_for_ordinal_mut replicas ordinal)) (\<lambda>i.
     case replica_request_retirement (replicas ! i) at of
       (_, Inl e) \<Rightarrow> Inl (ConflictReplica e)
     | (r, Inr _) \<Rightarrow> Inr (replicas[i := r]))"

fun retire_ordinals ::
    "timestamp \<Rightarrow> u32 list \<Rightarrow> replica list \<Rightarrow> (replica_set_error, replica list) result" where
  "retire_ordinals at [] replicas = Inr replicas"
| "retire_ordinals at (ordinal # ordinals) replicas =
     and_then (retire_ordinal at ordinal replicas) (retire_ordinals at ordinals)"

text \<open>One turn of the loop that brings up the ordinals below the new count.\<close>

definition add_ordinal ::
    "externals \<Rightarrow> workload \<Rightarrow> revision \<Rightarrow> timestamp \<Rightarrow> u32 \<Rightarrow> replica list \<times> member list
      \<Rightarrow> (replica_set_error, replica list \<times> member list) result" where
  "add_ordinal X w revision at ordinal = (\<lambda>(replicas, members).
     case replica_for_ordinal_mut replicas ordinal of
       Some i \<Rightarrow>
         (case wr_lifecycle (replicas ! i) of
            LcRetired \<Rightarrow>
              (case replica_reactivate (replicas ! i) revision at of
                 (_, Inl e) \<Rightarrow> Inl (ConflictReplica e)
               | (r, Inr _) \<Rightarrow> Inr (replicas[i := r], members))
          | LcRetiring \<Rightarrow> Inl (ConflictStillRetiring (wr_ordinal (replicas ! i)))
          | LcDesired \<Rightarrow> Inl (InvariantAlreadyDesired ordinal))
     | None \<Rightarrow>
         and_then (map_err InvariantReplica (replica_for_ordinal X w revision ordinal)) (\<lambda>r.
         and_then (map_err InvariantReplica (member_for_replica X w r)) (\<lambda>m.
         Inr (replicas @ [r], members @ [m]))))"

fun add_ordinals ::
    "externals \<Rightarrow> workload \<Rightarrow> revision \<Rightarrow> timestamp \<Rightarrow> u32 list \<Rightarrow> replica list \<times> member list
      \<Rightarrow> (replica_set_error, replica list \<times> member list) result" where
  "add_ordinals X w revision at [] st = Inr st"
| "add_ordinals X w revision at (ordinal # ordinals) st =
     and_then (add_ordinal X w revision at ordinal st) (add_ordinals X w revision at ordinals)"

definition member_order :: "member \<Rightarrow> uuid \<times> u32 \<times> uuid" where
  "member_order m = (wm_replica_id m, wm_ordinal m, wm_id m)"

definition plan_replica_set_reconfiguration ::
    "externals \<Rightarrow> workload \<Rightarrow> control \<Rightarrow> revision \<Rightarrow> replica list \<Rightarrow> u64 \<Rightarrow> u64 \<Rightarrow> u32
      \<Rightarrow> owner_reference option \<Rightarrow> timestamp \<Rightarrow> (replica_set_error, reconfiguration) result" where
  "plan_replica_set_reconfiguration X w control revision replicas expected_control_version
     expected_policy_generation desired_replicas requested_owner requested_at =
     and_then (validate_current_set X w control revision replicas) (\<lambda>replicas.
     if wc_aggregate_version control \<noteq> expected_control_version
     then Inl (ConflictControlVersion expected_control_version (wc_aggregate_version control))
     else
     let previous_desired = pp_desired_replicas (cs_placement_policy (wc_spec control)) in
     case control_reconfigure_replica_set X control expected_policy_generation desired_replicas
            requested_owner requested_at of
       (_, Inl e) \<Rightarrow> Inl (ConflictControl e)
     | (control, Inr _) \<Rightarrow>
         and_then
           (if desired_replicas < previous_desired then
              and_then (retire_ordinals requested_at (u32_range desired_replicas previous_desired) replicas)
                (\<lambda>replicas. Inr (replicas, []))
            else add_ordinals X w revision requested_at (u32_range previous_desired desired_replicas)
                   (replicas, [])) (\<lambda>(replicas, members_to_create).
         let replicas = sort_key replica_order replicas;
             members_to_create = sort_key member_order members_to_create in
         and_then (validate_desired_prefix replicas desired_replicas) (\<lambda>_.
         Inr \<lparr>rcf_control = control, rcf_replicas = replicas,
              rcf_members_to_create = members_to_create\<rparr>)))"

section \<open>Ordinals and prefixes\<close>

lemma unat_of_nat_u32: "n < unat (b :: u32) \<Longrightarrow> unat (of_nat n :: u32) = n"
proof -
  assume "n < unat b"
  moreover have "unat b < 2 ^ LENGTH(32)" by (rule unsigned_less)
  ultimately show ?thesis by (simp add: unat_of_nat take_bit_nat_eq_self)
qed

lemma set_u32_range: "set (u32_range a b) = {a ..< b}"
proof (intro set_eqI iffI)
  fix x
  assume "x \<in> set (u32_range a b)"
  then obtain n where n: "x = of_nat n" "unat a \<le> n" "n < unat b" by (auto simp: u32_range_def)
  with unat_of_nat_u32 [OF n(3)] show "x \<in> {a ..< b}" by (simp add: word_le_nat_alt word_less_nat_alt)
next
  fix x
  assume "x \<in> {a ..< b}"
  then have "unat x \<in> {unat a ..< unat b}" by (simp add: word_le_nat_alt word_less_nat_alt)
  then have "(of_nat (unat x) :: u32) \<in> set (u32_range a b)"
    unfolding u32_range_def set_map set_upt by (rule imageI)
  then show "x \<in> set (u32_range a b)" by simp
qed

lemma distinct_u32_range: "distinct (u32_range a b)"
proof -
  have "inj_on (of_nat :: nat \<Rightarrow> u32) {unat a ..< unat b}"
    by (rule inj_on_inverseI [where g = unat]) (rule unat_of_nat_u32 [of _ b], simp)
  then show ?thesis by (simp add: u32_range_def distinct_map)
qed

lemma find_SomeD: "find P xs = Some x \<Longrightarrow> x \<in> set xs \<and> P x"
  by (induction xs) (auto split: if_split_asm)

lemma find_ordinal:
  assumes "distinct (map wr_ordinal rs)" and "r \<in> set rs"
  shows "find (\<lambda>q. wr_ordinal q = wr_ordinal r) rs = Some r"
  using assms by (induction rs) (auto simp: image_iff)

lemma find_ordinal_None: "find (\<lambda>q. wr_ordinal q = o') rs = None \<longleftrightarrow> o' \<notin> wr_ordinal ` set rs"
  by (auto simp: find_None_iff)

lemma ordinal_not_desired:
  assumes "distinct (map wr_ordinal rs)"
  shows "(case find (\<lambda>r. wr_ordinal r = o') rs of None \<Rightarrow> True | Some r \<Rightarrow> wr_lifecycle r \<noteq> LcDesired) \<longleftrightarrow>
    \<not> (\<exists>r\<in>set rs. wr_ordinal r = o' \<and> wr_lifecycle r = LcDesired)"
proof (cases "find (\<lambda>r. wr_ordinal r = o') rs")
  case None
  then have "\<forall>r\<in>set rs. wr_ordinal r \<noteq> o'" by (auto simp: find_None_iff)
  with None show ?thesis by auto
next
  case (Some r)
  then have r: "r \<in> set rs" "wr_ordinal r = o'" using find_SomeD [OF Some] by auto
  have "q = r" if "q \<in> set rs" "wr_ordinal q = o'" for q
    using find_ordinal [OF assms that(1)] that(2) Some by simp
  with r show ?thesis unfolding Some option.case by blast
qed

lemma validate_desired_prefix_iff:
  assumes "distinct (map wr_ordinal rs)"
  shows "validate_desired_prefix rs n = Inr () \<longleftrightarrow>
    (\<forall>o'. o' < n \<longrightarrow> (\<exists>r\<in>set rs. wr_ordinal r = o' \<and> wr_lifecycle r = LcDesired)) \<and>
    \<not> (\<exists>r\<in>set rs. n \<le> wr_ordinal r \<and> wr_lifecycle r = LcDesired)"
  unfolding validate_desired_prefix_def ordinal_not_desired [OF assms]
  by (simp add: set_u32_range list_ex_iff) (simp add: Ball_def)

lemma validate_desired_prefix_ok:
  assumes "distinct (map wr_ordinal rs)"
  shows "validate_desired_prefix rs n = Inr () \<longleftrightarrow>
    (\<forall>o'<n. o' \<in> wr_ordinal ` set rs) \<and> (\<forall>r\<in>set rs. wr_lifecycle r = LcDesired \<longleftrightarrow> wr_ordinal r < n)"
    (is "?l \<longleftrightarrow> ?r")
proof
  assume l: ?l
  note both = l [unfolded validate_desired_prefix_iff [OF assms]]
  have unique: "q = r" if "q \<in> set rs" "r \<in> set rs" "wr_ordinal q = wr_ordinal r" for q r
    using that assms by (auto simp: distinct_map dest: inj_onD)
  have "wr_lifecycle r = LcDesired" if r: "r \<in> set rs" "wr_ordinal r < n" for r
  proof -
    obtain q where "q \<in> set rs" "wr_ordinal q = wr_ordinal r" "wr_lifecycle q = LcDesired"
      using both r(2) by blast
    with unique [OF _ r(1)] show ?thesis by blast
  qed
  moreover have "wr_ordinal r < n" if "r \<in> set rs" "wr_lifecycle r = LcDesired" for r
    using both that not_less by blast
  moreover have "o' \<in> wr_ordinal ` set rs" if "o' < n" for o'
    using both that by blast
  ultimately show ?r by blast
next
  assume r: ?r
  have "\<exists>r\<in>set rs. wr_ordinal r = o' \<and> wr_lifecycle r = LcDesired" if "o' < n" for o'
    using r that by blast
  moreover have "\<not> (\<exists>r\<in>set rs. n \<le> wr_ordinal r \<and> wr_lifecycle r = LcDesired)"
    using r not_less by blast
  ultimately show ?l unfolding validate_desired_prefix_iff [OF assms] by blast
qed

lemma check_identities_ok:
  "check_identities X w ids ords rs = Inr () \<longleftrightarrow>
   (\<forall>r\<in>set rs. replica_validate X r = Inr () \<and> wr_organization_id r = wl_organization_id w \<and>
      wr_project_id r = wl_project_id w \<and> wr_environment_id r = wl_environment_id w \<and>
      wr_workload_id r = wl_id w) \<and>
   distinct (map wr_id rs) \<and> distinct (map wr_ordinal rs) \<and>
   set ids \<inter> wr_id ` set rs = {} \<and> set ords \<inter> wr_ordinal ` set rs = {}"
  by (induction X w ids ords rs rule: check_identities.induct) auto

section \<open>The loops\<close>

text \<open>
  What a plan may do to a replica: nothing, or one step of its protocol, and only if its ordinal is
  among those that change; its revision stays or becomes the current one.
\<close>

definition evolved :: "revision \<Rightarrow> u32 list \<Rightarrow> replica \<Rightarrow> replica \<Rightarrow> bool" where
  "evolved rv os r q \<longleftrightarrow>
     (q = r \<or> replica_step r q) \<and> (wr_ordinal r \<notin> set os \<longrightarrow> q = r) \<and>
     (wr_revision_id q = wr_revision_id r \<and> wr_revision_generation q = wr_revision_generation r \<or>
      wr_revision_id q = rv_id rv \<and> wr_revision_generation q = rv_generation rv)"

lemma evolved_refl [simp]: "evolved rv os r r"
  by (simp add: evolved_def)

lemma evolved_identity: "evolved rv os r q \<Longrightarrow> replica_identity q = replica_identity r"
  by (auto simp: evolved_def dest: replica.step_identity)

lemma evolved_ordinal: "evolved rv os r q \<Longrightarrow> wr_ordinal q = wr_ordinal r"
  by (drule evolved_identity) (simp add: replica_identity_def)

lemma evolved_more:
  assumes "evolved rv os q p" and "evolved rv [o'] r q" and "o' \<notin> set os"
  shows "evolved rv (o' # os) r p"
  using assms evolved_ordinal [OF assms(2)] by (auto simp: evolved_def)

lemma evolved_map_ordinal: "list_all2 (evolved rv os) rs qs \<Longrightarrow> map wr_ordinal qs = map wr_ordinal rs"
  by (induction rule: list_all2_induct) (auto dest: evolved_ordinal)

lemma replica_for_ordinal_mut_Some:
  "replica_for_ordinal_mut rs o' = Some i \<Longrightarrow> i < length rs \<and> wr_ordinal (rs ! i) = o'"
  by (induction rs o' arbitrary: i rule: replica_for_ordinal_mut.induct) (auto split: if_split_asm)

lemma replica_for_ordinal_mut_None:
  "replica_for_ordinal_mut rs o' = None \<longleftrightarrow> o' \<notin> wr_ordinal ` set rs"
  by (induction rs o' rule: replica_for_ordinal_mut.induct) auto

lemma list_all2_update_right:
  "i < length xs \<Longrightarrow> P (xs ! i) y \<Longrightarrow> (\<And>x. P x x) \<Longrightarrow> list_all2 P xs (xs[i := y])"
  by (auto simp: list_all2_conv_all_nth nth_list_update)

lemma retire_ordinal_evolved:
  assumes "retire_ordinal at o' rs = Inr qs"
  shows "list_all2 (evolved rv [o']) rs qs"
proof -
  obtain i where i0: "replica_for_ordinal_mut rs o' = Some i"
    using assms by (auto simp: retire_ordinal_def)
  obtain r res where r0: "replica_request_retirement (rs ! i) at = (r, res)" by (rule prod.exhaust)
  have i: "replica_for_ordinal_mut rs o' = Some i" "qs = rs[i := r]"
    and r: "replica_request_retirement (rs ! i) at = (r, Inr ())"
    using assms i0 r0 by (auto simp: retire_ordinal_def split: sum.split_asm)
  have "wr_revision_id r = wr_revision_id (rs ! i) \<and>
      wr_revision_generation r = wr_revision_generation (rs ! i)"
    using r by (auto simp: replica_op_defs replica_bump_Inr split: outcome_splits)
  then have "evolved rv [o'] (rs ! i) r"
    using replica_step.request_retirement [OF r] replica_for_ordinal_mut_Some [OF i(1)]
    by (simp add: evolved_def)
  with replica_for_ordinal_mut_Some [OF i(1)] i(2) show ?thesis
    by (auto intro: list_all2_update_right)
qed

lemma list_all2_evolved_more:
  assumes "list_all2 (evolved rv [o']) rs qs" and "list_all2 (evolved rv os) qs ps" and "o' \<notin> set os"
  shows "list_all2 (evolved rv (o' # os)) rs ps"
  by (rule list_all2_trans [OF _ assms(1,2)]) (use assms(3) evolved_more in blast)

lemma retire_ordinals_evolved:
  "retire_ordinals at os rs = Inr qs \<Longrightarrow> distinct os \<Longrightarrow> list_all2 (evolved rv os) rs qs"
proof (induction os arbitrary: rs)
  case Nil
  then show ?case by (simp add: list_all2_same)
next
  case (Cons o' os)
  then obtain ps where ps: "retire_ordinal at o' rs = Inr ps" "retire_ordinals at os ps = Inr qs" by auto
  from list_all2_evolved_more [OF retire_ordinal_evolved [OF ps(1)] Cons.IH [OF ps(2)]] Cons.prems(2)
  show ?case by auto
qed

text \<open>A replica the plan adds, with its member.\<close>

definition added :: "externals \<Rightarrow> workload \<Rightarrow> revision \<Rightarrow> replica \<Rightarrow> member \<Rightarrow> bool" where
  "added X w rv r m \<longleftrightarrow>
     replica_for_ordinal X w rv (wr_ordinal r) = Inr r \<and> member_for_replica X w r = Inr m"

lemma add_ordinal_cases:
  assumes "add_ordinal X w rv at o' (rs, ms) = Inr (qs, ns)" and "rv_id rv \<noteq> 0"
  obtains (updated) "list_all2 (evolved rv [o']) rs qs" "ns = ms"
    | (fresh) r m where "qs = rs @ [r]" "ns = ms @ [m]" "added X w rv r m" "wr_ordinal r = o'"
        "o' \<notin> wr_ordinal ` set rs"
proof (cases "replica_for_ordinal_mut rs o'")
  case None
  with assms(1) obtain r m where r: "replica_for_ordinal X w rv o' = Inr r" "member_for_replica X w r = Inr m"
    "qs = rs @ [r]" "ns = ms @ [m]"
    by (auto simp: add_ordinal_def)
  have "wr_ordinal r = o'"
    using r(1) by (auto simp: replica_for_ordinal_def Let_def split: if_split_asm)
  with r None fresh show ?thesis
    by (auto simp: added_def replica_for_ordinal_mut_None)
next
  case (Some i)
  with assms(1) obtain r where r: "replica_reactivate (rs ! i) rv at = (r, Inr ())" "qs = rs[i := r]" "ns = ms"
    by (auto simp: add_ordinal_def split: replica_lifecycle.split_asm prod.split_asm sum.split_asm)
  have "wr_revision_id r = rv_id rv \<and> wr_revision_generation r = rv_generation rv"
    using r(1) by (auto simp: replica_op_defs replica_bump_Inr split: outcome_splits)
  then have "evolved rv [o'] (rs ! i) r"
    using replica_step.reactivate [OF assms(2) r(1)] replica_for_ordinal_mut_Some [OF Some]
    by (simp add: evolved_def)
  with replica_for_ordinal_mut_Some [OF Some] have "list_all2 (evolved rv [o']) rs qs"
    unfolding r(2) by (intro list_all2_update_right) auto
  with r(3) updated show ?thesis by blast
qed

lemma add_ordinals_facts:
  "add_ordinals X w rv at os (rs, ms) = Inr (qs, ns) \<Longrightarrow> distinct os \<Longrightarrow> rv_id rv \<noteq> 0 \<Longrightarrow>
   \<exists>es fs ls. qs = es @ fs \<and> ns = ms @ ls \<and> list_all2 (evolved rv os) rs es \<and>
     list_all2 (added X w rv) fs ls \<and> distinct (map wr_ordinal fs) \<and>
     wr_ordinal ` set fs \<subseteq> set os - wr_ordinal ` set rs"
proof (induction os arbitrary: rs ms)
  case Nil
  then show ?case by (auto simp: list_all2_same intro!: exI [of _ "[]"])
next
  case (Cons o' os)
  obtain ps ks where p: "add_ordinal X w rv at o' (rs, ms) = Inr (ps, ks)"
    "add_ordinals X w rv at os (ps, ks) = Inr (qs, ns)"
    using Cons.prems(1) by (auto simp del: split_paired_Ex)
  have os: "distinct os" "o' \<notin> set os" using Cons.prems(2) by auto
  obtain es fs ls where IH: "qs = es @ fs" "ns = ks @ ls" "list_all2 (evolved rv os) ps es"
    "list_all2 (added X w rv) fs ls" "distinct (map wr_ordinal fs)"
    "wr_ordinal ` set fs \<subseteq> set os - wr_ordinal ` set ps"
    using Cons.IH [OF p(2) os(1) Cons.prems(3)] by blast
  from p(1) Cons.prems(3) show ?case
  proof (cases rule: add_ordinal_cases)
    case updated
    have "wr_ordinal ` set ps = wr_ordinal ` set rs"
      using evolved_map_ordinal [OF updated(1)] by (metis list.set_map)
    with IH updated list_all2_evolved_more [OF updated(1) IH(3) os(2)] show ?thesis
      by (intro exI [of _ es] exI [of _ fs] exI [of _ ls]) auto
  next
    case (fresh r m)
    obtain es' r' where es: "es = es' @ [r']" "list_all2 (evolved rv os) rs es'" "evolved rv os r r'"
      using IH(3) fresh(1) by (auto simp: list_all2_append1 list_all2_Cons1)
    have "r' = r" using es(3) fresh(4) os(2) by (auto simp: evolved_def)
    moreover have "list_all2 (evolved rv (o' # os)) rs es'"
      using es(2) fresh(5) by (rule_tac list_all2_mono [OF es(2)]) (auto simp: evolved_def)
    ultimately show ?thesis
      using IH es(1) fresh by (intro exI [of _ es'] exI [of _ "r # fs"] exI [of _ "m # ls"]) auto
  qed
qed

section \<open>Plans\<close>

lemma validate_current_set_ok:
  assumes "validate_current_set X w c rv rs = Inr qs"
  shows "qs = sort_key replica_order rs" "control_validate_against X c w = Inr ()"
    "check_identities X w [] [] qs = Inr ()"
    "\<exists>r\<in>set qs. wr_ordinal r = 0 \<and> wr_revision_id r = rv_id rv \<and> wr_revision_generation r = rv_generation rv"
    "rv_workload_id rv = wl_id w"
    "validate_desired_prefix qs (pp_desired_replicas (cs_placement_policy (wc_spec c))) = Inr ()"
proof -
  obtain r where r: "find (\<lambda>q. wr_ordinal q = 0) (sort_key replica_order rs) = Some r"
    and rest: "qs = sort_key replica_order rs" "control_validate_against X c w = Inr ()"
    "check_identities X w [] [] qs = Inr ()" "wr_revision_id r = rv_id rv"
    "wr_revision_generation r = rv_generation rv" "rv_workload_id rv = wl_id w"
    "validate_desired_prefix qs (pp_desired_replicas (cs_placement_policy (wc_spec c))) = Inr ()"
    using assms by (fastforce simp: validate_current_set_def Let_def split: if_split_asm)
  then show "qs = sort_key replica_order rs" "control_validate_against X c w = Inr ()"
    "check_identities X w [] [] qs = Inr ()" "rv_workload_id rv = wl_id w"
    "validate_desired_prefix qs (pp_desired_replicas (cs_placement_policy (wc_spec c))) = Inr ()"
    by simp_all
  have "r \<in> set qs" "wr_ordinal r = 0"
    using find_SomeD [OF r] rest(1) by auto
  with rest show "\<exists>r\<in>set qs. wr_ordinal r = 0 \<and> wr_revision_id r = rv_id rv \<and>
    wr_revision_generation r = rv_generation rv" by blast
qed

lemma validate_current_set_intro:
  assumes "sorted (map replica_order qs)" and "control_validate_against X c w = Inr ()"
    and ids: "check_identities X w [] [] qs = Inr ()"
    and r: "r \<in> set qs" "wr_ordinal r = 0" "wr_revision_id r = rv_id rv" "wr_revision_generation r = rv_generation rv"
    and "rv_workload_id rv = wl_id w"
    and "validate_desired_prefix qs (pp_desired_replicas (cs_placement_policy (wc_spec c))) = Inr ()"
  shows "validate_current_set X w c rv qs = Inr qs"
proof -
  have "distinct (map wr_ordinal qs)" using ids by (simp add: check_identities_ok)
  from find_ordinal [OF this r(1)] r(2) have "find (\<lambda>q. wr_ordinal q = 0) qs = Some r" by simp
  moreover have "qs \<noteq> []" using r(1) by auto
  ultimately show ?thesis
    using assms by (simp add: validate_current_set_def sort_key_id_if_sorted ok_or_def)
qed

text \<open>
  The outcome of a plan: the old replicas, each evolved by at most one step, and the added ones with
  their members, in order.
\<close>

lemma plan_parts:
  assumes "plan_replica_set_reconfiguration X w c rv rs version g n owner at = Inr p"
  shows "\<exists>qs es fs ls os. validate_current_set X w c rv rs = Inr qs \<and>
    control_reconfigure_replica_set X c g n owner at = (rcf_control p, Inr ()) \<and>
    wc_aggregate_version c = version \<and>
    rcf_replicas p = sort_key replica_order (es @ fs) \<and>
    rcf_members_to_create p = sort_key member_order ls \<and>
    list_all2 (evolved rv os) qs es \<and> list_all2 (added X w rv) fs ls \<and>
    distinct (map wr_ordinal fs) \<and> wr_ordinal ` set fs \<inter> wr_ordinal ` set qs = {} \<and>
    validate_desired_prefix (rcf_replicas p) n = Inr ()"
proof -
  obtain qs where qs: "validate_current_set X w c rv rs = Inr qs"
    using assms by (auto simp: plan_replica_set_reconfiguration_def)
  obtain r where r: "r \<in> set qs" "wr_revision_id r = rv_id rv" and "check_identities X w [] [] qs = Inr ()"
    using validate_current_set_ok [OF qs] by blast
  then have rv: "rv_id rv \<noteq> 0"
    by (auto simp: check_identities_ok replica_validate_ok)
  let ?d = "pp_desired_replicas (cs_placement_policy (wc_spec c))"
  obtain c' res where c0: "control_reconfigure_replica_set X c g n owner at = (c', res)" by (rule prod.exhaust)
  obtain es ls where c': "res = Inr ()" "wc_aggregate_version c = version"
    and loop: "(if n < ?d then and_then (retire_ordinals at (u32_range n ?d) qs) (\<lambda>es. Inr (es, []))
       else add_ordinals X w rv at (u32_range ?d n) (qs, [])) = Inr (es, ls)"
    and p: "p = \<lparr>rcf_control = c', rcf_replicas = sort_key replica_order es,
       rcf_members_to_create = sort_key member_order ls\<rparr>"
    and prefix: "validate_desired_prefix (sort_key replica_order es) n = Inr ()"
    using assms qs c0 by (auto simp: plan_replica_set_reconfiguration_def Let_def
        split: if_split_asm sum.split_asm simp del: split_paired_Ex)
  have "\<exists>es' fs os. es = es' @ fs \<and> list_all2 (evolved rv os) qs es' \<and> list_all2 (added X w rv) fs ls \<and>
    distinct (map wr_ordinal fs) \<and> wr_ordinal ` set fs \<inter> wr_ordinal ` set qs = {}"
  proof (cases "n < ?d")
    case True
    with loop have "retire_ordinals at (u32_range n ?d) qs = Inr es" "ls = []" by auto
    with retire_ordinals_evolved [OF this(1) distinct_u32_range] show ?thesis
      by (intro exI [of _ es] exI [of _ "[]"] exI [of _ "u32_range n ?d"]) simp
  next
    case False
    with loop have "add_ordinals X w rv at (u32_range ?d n) (qs, []) = Inr (es, ls)" by simp
    from add_ordinals_facts [OF this distinct_u32_range rv] show ?thesis by fastforce
  qed
  then obtain es' fs os where "es = es' @ fs" "list_all2 (evolved rv os) qs es'"
    "list_all2 (added X w rv) fs ls" "distinct (map wr_ordinal fs)"
    "wr_ordinal ` set fs \<inter> wr_ordinal ` set qs = {}" by blast
  with qs c0 c' p prefix show ?thesis
    by (intro exI [of _ qs] exI [of _ es'] exI [of _ fs] exI [of _ ls] exI [of _ os]) simp
qed

lemma replica_for_ordinal_facts:
  "replica_for_ordinal X w rv o' = Inr r \<Longrightarrow> wr_lifecycle r = LcDesired \<and> wr_ordinal r = o'"
  by (auto simp: replica_for_ordinal_def Let_def split: if_split_asm)

lemma added_facts:
  assumes "added X w rv r m"
  shows "replica_validate X r = Inr ()" "wr_organization_id r = wl_organization_id w"
    "wr_project_id r = wl_project_id w" "wr_environment_id r = wl_environment_id w"
    "wr_workload_id r = wl_id w" "wr_lifecycle r = LcDesired" "wm_replica_id m = wr_id r" "wm_ordinal m = 0"
    "member_validate X m = Inr ()"
proof -
  have r: "replica_for_ordinal X w rv (wr_ordinal r) = Inr r" and m: "member_for_ordinal X w r 0 = Inr m"
    using assms by (simp_all add: added_def member_for_replica_def)
  show "wr_lifecycle r = LcDesired" using replica_for_ordinal_facts [OF r] by simp
  show "replica_validate X r = Inr ()" "wr_organization_id r = wl_organization_id w"
    "wr_project_id r = wl_project_id w" "wr_environment_id r = wl_environment_id w"
    "wr_workload_id r = wl_id w" "wm_replica_id m = wr_id r" "wm_ordinal m = 0" "member_validate X m = Inr ()"
    using m by (auto simp: member_for_ordinal_def Let_def split: if_split_asm)
qed

lemma evolved_facts:
  assumes "evolved rv os r q" and "replica_validate X r = Inr ()"
  shows "replica_validate X q = Inr ()" "replica_identity q = replica_identity r"
  using assms replica_step_valid evolved_identity by (auto simp: evolved_def)

lemma set_list_all2: "list_all2 P xs ys \<Longrightarrow> x \<in> set xs \<Longrightarrow> \<exists>y\<in>set ys. P x y"
  by (induction rule: list_all2_induct) auto

lemma set_list_all2_right: "list_all2 P xs ys \<Longrightarrow> y \<in> set ys \<Longrightarrow> \<exists>x\<in>set xs. P x y"
  by (induction rule: list_all2_induct) auto

text \<open>The replicas of a plan are well formed.\<close>

lemma plan_replicas_valid:
  assumes qs: "check_identities X w [] [] qs = Inr ()"
    and es: "list_all2 (evolved rv os) qs es" and fs: "list_all2 (added X w rv) fs ls"
    and "distinct (map wr_ordinal fs)" and "wr_ordinal ` set fs \<inter> wr_ordinal ` set qs = {}"
  shows "\<forall>r\<in>set (es @ fs). replica_validate X r = Inr () \<and> wr_organization_id r = wl_organization_id w \<and>
      wr_project_id r = wl_project_id w \<and> wr_environment_id r = wl_environment_id w \<and> wr_workload_id r = wl_id w"
    "distinct (map wr_ordinal (es @ fs))"
proof -
  have old: "replica_validate X r = Inr () \<and> wr_organization_id r = wl_organization_id w \<and>
      wr_project_id r = wl_project_id w \<and> wr_environment_id r = wl_environment_id w \<and> wr_workload_id r = wl_id w"
    if r: "r \<in> set es" for r
  proof -
    obtain q where q: "q \<in> set qs" "evolved rv os q r" using set_list_all2_right [OF es r] by blast
    then have "replica_validate X q = Inr ()" using qs by (simp add: check_identities_ok)
    from evolved_facts [OF q(2) this] q(1) qs show ?thesis
      by (auto simp: check_identities_ok replica_identity_def)
  qed
  moreover have "replica_validate X r = Inr () \<and> wr_organization_id r = wl_organization_id w \<and>
      wr_project_id r = wl_project_id w \<and> wr_environment_id r = wl_environment_id w \<and> wr_workload_id r = wl_id w"
    if r: "r \<in> set fs" for r
  proof -
    obtain m where "added X w rv r m" using set_list_all2 [OF fs r] by blast
    from added_facts [OF this] show ?thesis by simp
  qed
  ultimately show "\<forall>r\<in>set (es @ fs). replica_validate X r = Inr () \<and> wr_organization_id r = wl_organization_id w \<and>
      wr_project_id r = wl_project_id w \<and> wr_environment_id r = wl_environment_id w \<and> wr_workload_id r = wl_id w"
    by auto
  have "map wr_ordinal es = map wr_ordinal qs" by (rule evolved_map_ordinal [OF es])
  moreover from this have "wr_ordinal ` set es = wr_ordinal ` set qs" by (metis list.set_map)
  ultimately show "distinct (map wr_ordinal (es @ fs))"
    using assms(4,5) qs by (simp add: check_identities_ok Int_commute)
qed

lemma reconfigured_control_matches:
  assumes "control_reconfigure_replica_set X c g n owner at = (c', Inr ())"
    and "control_validate_against X c w = Inr ()"
  shows "control_validate_against X c' w = Inr ()" "pp_desired_replicas (cs_placement_policy (wc_spec c')) = n"
proof -
  have step: "control_step X c c'" by (rule control_step.reconfigure [OF assms(1)])
  have "control_inv X c" using assms(2) by (auto simp: control_validate_against_def control_inv_def split: if_split_asm)
  then have "control_inv X c'" by (rule control.step_invar) (rule step)
  with control.step_identity [OF step] assms(2) show "control_validate_against X c' w = Inr ()"
    by (auto simp: control_validate_against_def control_inv_def control_identity_def Let_def split: if_split_asm)
  show "pp_desired_replicas (cs_placement_policy (wc_spec c')) = n"
    using reconfigure_next [OF assms(1)] by blast
qed

lemma distinct_map_sort_key: "distinct (map f (sort_key k xs)) \<longleftrightarrow> distinct (map f xs)"
  by (metis distinct_map distinct_sort set_sort)

section \<open>Properties\<close>

text \<open>
  C30. A successful plan has exactly the requested replicas in the desired state, one for each ordinal
  below the new count and none above, all of them valid. No replica is lost: each one is kept as it
  was or makes one step of its own protocol, and every replica that is not such a continuation is new,
  built from the current revision, with its leader member among the members to create.
\<close>

theorem replica_set_plan_correct:
  assumes "plan_replica_set_reconfiguration X w c rv rs version g n owner at = Inr p"
  shows "(\<forall>o'<n. o' \<in> wr_ordinal ` set (rcf_replicas p)) \<and> distinct (map wr_ordinal (rcf_replicas p)) \<and>
    (\<forall>r\<in>set (rcf_replicas p). replica_validate X r = Inr () \<and>
      (wr_lifecycle r = LcDesired \<longleftrightarrow> wr_ordinal r < n)) \<and>
    (\<forall>r\<in>set rs. \<exists>q\<in>set (rcf_replicas p). q = r \<or> replica_step r q) \<and>
    (\<forall>q\<in>set (rcf_replicas p). (\<exists>r\<in>set rs. q = r \<or> replica_step r q) \<or>
      replica_for_ordinal X w rv (wr_ordinal q) = Inr q \<and>
      (\<exists>m\<in>set (rcf_members_to_create p). member_for_replica X w q = Inr m))"
proof -
  obtain qs es fs ls os where qs: "validate_current_set X w c rv rs = Inr qs"
    and p: "rcf_replicas p = sort_key replica_order (es @ fs)" "rcf_members_to_create p = sort_key member_order ls"
    and es: "list_all2 (evolved rv os) qs es" and fs: "list_all2 (added X w rv) fs ls"
    and ords: "distinct (map wr_ordinal fs)" "wr_ordinal ` set fs \<inter> wr_ordinal ` set qs = {}"
    and prefix: "validate_desired_prefix (rcf_replicas p) n = Inr ()"
    using plan_parts [OF assms] by blast
  note valid = plan_replicas_valid [OF validate_current_set_ok(3) [OF qs] es fs ords]
  have set: "set (rcf_replicas p) = set es \<union> set fs" "set qs = set rs"
    using p(1) validate_current_set_ok(1) [OF qs] by auto
  have distinct: "distinct (map wr_ordinal (rcf_replicas p))"
    using valid(2) p(1) by (simp add: distinct_map_sort_key)
  show ?thesis
  proof (intro conjI)
    show "\<forall>o'<n. o' \<in> wr_ordinal ` set (rcf_replicas p)"
      "\<forall>r\<in>set (rcf_replicas p). replica_validate X r = Inr () \<and> (wr_lifecycle r = LcDesired \<longleftrightarrow> wr_ordinal r < n)"
      using prefix valid(1) set(1) unfolding validate_desired_prefix_ok [OF distinct] by auto
    show "\<forall>r\<in>set rs. \<exists>q\<in>set (rcf_replicas p). q = r \<or> replica_step r q"
      using set_list_all2 [OF es] set by (fastforce simp: evolved_def)
    show "\<forall>q\<in>set (rcf_replicas p). (\<exists>r\<in>set rs. q = r \<or> replica_step r q) \<or>
      replica_for_ordinal X w rv (wr_ordinal q) = Inr q \<and>
      (\<exists>m\<in>set (rcf_members_to_create p). member_for_replica X w q = Inr m)"
      using set_list_all2_right [OF es] set_list_all2 [OF fs] set p(2) by (fastforce simp: evolved_def added_def)
  qed (rule distinct)
qed


subsection \<open>Witnesses\<close>

definition sample_replica_at :: "uuid \<Rightarrow> u32 \<Rightarrow> replica" where
  "sample_replica_at i ordinal = sample_replica\<lparr>wr_id := i, wr_ordinal := ordinal\<rparr>"

definition sample_member_of :: "uuid \<Rightarrow> member" where
  "sample_member_of i = sample_member\<lparr>wm_id := i, wm_replica_id := i\<rparr>"

lemma u32_range_1_3: "u32_range 1 3 = [1, 2]"
  by (simp add: u32_range_def upt_rec)

lemma sample_v5_ids:
  "replica_deterministic_id sample_externals 1 1 = Inr 5719"
  "replica_deterministic_id sample_externals 1 2 = Inr 5721"
  by (simp_all add: replica_deterministic_id_def sample_externals_def decimal.simps word_le_nat_alt)

lemma sample_added:
  "replica_for_ordinal sample_externals sample_workload sample_revision 1 = Inr (sample_replica_at 5719 1)"
  "replica_for_ordinal sample_externals sample_workload sample_revision 2 = Inr (sample_replica_at 5721 2)"
  "member_for_replica sample_externals sample_workload (sample_replica_at 5719 1) = Inr (sample_member_of 5719)"
  "member_for_replica sample_externals sample_workload (sample_replica_at 5721 2) = Inr (sample_member_of 5721)"
  using sample_v5_ids
  by (simp_all add: replica_for_ordinal_def member_for_replica_def member_for_ordinal_def sample_workload_def
      workload_create_def sample_revision_def sample_replica_def sample_replica_at_def sample_member_def
      sample_member_of_def replica_validate_def member_validate_def member_deterministic_id_def
      canonical_timestamp_def Let_def)

lemma sample_plan:
  "\<exists>c p. plan_replica_set_reconfiguration sample_externals sample_workload c sample_revision
     [sample_replica] 1 1 3 None 6000 = Inr p \<and>
     rcf_replicas p = [sample_replica, sample_replica_at 5719 1, sample_replica_at 5721 2]"
proof -
  obtain spec c0 c where c: "unmanaged_replica_set sample_externals 1 1 = Inr spec"
    "control_create sample_externals sample_workload spec = Inr c0"
    "control_reconfigure_replica_set sample_externals c0 1 3 None 6000 = (c, Inr ())"
    using sample_control_run by blast
  have "wc_spec c0 = spec" "wc_aggregate_version c0 = 1"
    using control_create_facts [OF c(2)] by auto
  moreover have "pp_desired_replicas (cs_placement_policy spec) = 1"
    using c(1) replica_set_in_pool_facts(3)
    by (auto simp: unmanaged_replica_set_def unmanaged_replica_set_in_pool_def)
  moreover have "control_validate_against sample_externals c0 sample_workload = Inr ()"
    using c(2) by (auto simp: control_create_def Let_def)
  moreover have "validate_current_set sample_externals sample_workload c0 sample_revision [sample_replica] =
      Inr [sample_replica]"
    using calculation
    by (simp add: validate_current_set_def sample_replica_def sample_revision_def sample_workload_def
        workload_create_def replica_validate_def replica_deterministic_id_def validate_desired_prefix_def
        u32_range_def ok_or_def Let_def)
  moreover have "add_ordinals sample_externals sample_workload sample_revision 6000 (u32_range 1 3)
      ([sample_replica], []) = Inr ([sample_replica, sample_replica_at 5719 1, sample_replica_at 5721 2],
        [sample_member_of 5719, sample_member_of 5721])"
    using sample_added
    by (simp add: u32_range_1_3 add_ordinal_def) (simp add: sample_replica_def sample_replica_at_def)
  moreover have "sort_key replica_order [sample_replica, sample_replica_at 5719 1, sample_replica_at 5721 2] =
      [sample_replica, sample_replica_at 5719 1, sample_replica_at 5721 2]"
    by (simp add: replica_order_def sample_replica_def sample_replica_at_def)
  moreover have "validate_desired_prefix
      [sample_replica, sample_replica_at 5719 1, sample_replica_at 5721 2] 3 = Inr ()"
    by (simp add: validate_desired_prefix_def u32_range_def upt_rec sample_replica_def sample_replica_at_def
        word_le_nat_alt)
  ultimately show ?thesis
    using c(3) by (intro exI [of _ c0]) (simp add: plan_replica_set_reconfiguration_def)
qed

theorem replica_set_plan_correct_witness:
  "\<exists>p :: reconfiguration. length (rcf_replicas p) = 3 \<and> distinct (map wr_ordinal (rcf_replicas p)) \<and>
     (\<forall>r\<in>set (rcf_replicas p). wr_lifecycle r = LcDesired)"
proof -
  obtain c p where p: "plan_replica_set_reconfiguration sample_externals sample_workload c sample_revision
     [sample_replica] 1 1 3 None 6000 = Inr p"
     "rcf_replicas p = [sample_replica, sample_replica_at 5719 1, sample_replica_at 5721 2]"
    using sample_plan by blast
  from replica_set_plan_correct [OF p(1)] p(2) show ?thesis
    by (intro exI [of _ p]) (simp add: sample_replica_def sample_replica_at_def)
qed


end
