(* ===== verification/Node_Claim.thy ===== *)
theory Node_Claim
  imports Resource_Claim Ordered_Map
begin

text \<open>
  The resource-claim messages of the node protocol, \<open>contracts/src/node/resource_claim.rs\<close>: the
  binding of a claim to an agent's inventory and a Runtime unit, the prepare and release requests
  and the evidence that answers them, with \<open>ResourceClaim::node_binding\<close>, which the control plane
  uses to build a binding from its own aggregate. The Runtime's contract types belong to the crate
  \<open>a3s_runtime\<close>: the fields this code reads are fields of the records below, the rest of a value is
  the document in its last field, and the crate's own checks are the functions of the record
  \<open>runtime_contract\<close>, a parameter.
\<close>

section \<open>The Runtime contract\<close>

record runtime_spec =
  us_unit_id :: string
  us_generation :: u64
  us_cpu_millis :: u64
  us_memory_bytes :: u64
  us_ephemeral_storage_bytes :: "u64 option"
  us_rest :: json

record runtime_evidence =
  ev_provider_build :: string
  ev_spec_digest :: string
  ev_semantics_profile_digest :: "string option"
  ev_identity_attachment_digest :: "string option"
  ev_claims :: "(string, string) btree_map"

record observation =
  ob_unit_id :: string
  ob_generation :: u64
  ob_state :: string
  ob_provider_resource_id :: "string option"
  ob_provider_build :: "string option"
  ob_spec_digest :: string
  ob_evidence :: "runtime_evidence option"
  ob_rest :: json

record apply_request =
  aq_spec :: runtime_spec
  aq_rest :: json

record action_request =
  ar_request_id :: string
  ar_unit_id :: string
  ar_generation :: u64
  ar_rest :: json

datatype inspection = InspectionFound observation json | InspectionNotFound string json

record removal =
  rm_request_id :: string
  rm_unit_id :: string
  rm_generation :: u64
  rm_rest :: json

record runtime_contract =
  rt_validate_spec :: "runtime_spec \<Rightarrow> (string, unit) result"
  rt_spec_digest :: "runtime_spec \<Rightarrow> (string, string) result"
  rt_validate_apply :: "apply_request \<Rightarrow> (string, unit) result"
  rt_apply_schema :: string
  rt_apply_json :: "apply_request \<Rightarrow> json"
  rt_validate_action :: "action_request \<Rightarrow> (string, unit) result"
  rt_action_json :: "action_request \<Rightarrow> json"
  rt_validate_observation :: "observation \<Rightarrow> (string, unit) result"
  rt_observation_against :: "observation \<Rightarrow> runtime_spec \<Rightarrow> (string, unit) result"
  rt_validate_inspection :: "inspection \<Rightarrow> (string, unit) result"
  rt_validate_removal :: "removal \<Rightarrow> (string, unit) result"
  rt_is_terminal :: "string \<Rightarrow> bool"

section \<open>Messages\<close>

record node_binding =
  nb_schema :: string
  nb_claim_id :: uuid
  nb_node_id :: uuid
  nb_agent_instance_id :: uuid
  nb_inventory_generation :: u64
  nb_inventory_digest :: string
  nb_runtime_unit_id :: string
  nb_runtime_generation :: u64
  nb_topology_digest :: string
  nb_slots :: "slot_binding list"

record claim_prepare =
  pq_schema :: string
  pq_claim_generation :: u64
  pq_claim_digest :: string
  pq_binding :: node_binding

record claim_prepared =
  pd_schema :: string
  pd_claim_id :: uuid
  pd_claim_generation :: u64
  pd_claim_digest :: string
  pd_binding_digest :: string
  pd_slots :: "slot_evidence list"
  pd_prepared_at :: timestamp

record claim_release =
  rq_schema :: string
  rq_claim_generation :: u64
  rq_claim_digest :: string
  rq_binding :: node_binding

record claim_released =
  rd_schema :: string
  rd_claim_id :: uuid
  rd_claim_generation :: u64
  rd_claim_digest :: string
  rd_binding_digest :: string
  rd_slots :: "slot_evidence list"
  rd_released_at :: timestamp

datatype node_claim_error =
    NodeResource resource_error
  | NodeRuntime string
  | NodeSchema string
  | NodeSingleLine string
  | BindingGenerations
  | InventoryNotCurrent
  | BindingSlotAbsent string
  | BindingSlotExceeds string
  | RuntimeUnitMismatch
  | ScalarOmitted resource_kind
  | ScalarWrongUnit resource_kind
  | ScalarMultiple resource_kind
  | ScalarLimits
  | ExclusiveUnenforced
  | ObservationUnproven
  | ReservedClaimConflict string
  | EvidenceOmitted
  | EvidenceInconsistent
  | RequestGeneration
  | EvidenceGenerationOrTime
  | EvidenceMismatch
  | EvidenceEncoding

section \<open>Bindings\<close>

text \<open>\<open>validate_single_line\<close> of \<open>contracts/src/node/mod.rs\<close>.\<close>

definition validate_single_line :: "string \<Rightarrow> string \<Rightarrow> nat \<Rightarrow> (node_claim_error, unit) result" where
  "validate_single_line label v bound =
     (if is_blank v \<or> length v > bound \<or> contains_any v [CHR 0x00] \<or> contains_any v [CHR 0x0D, CHR 0x0A]
      then Inl (NodeSingleLine label) else Inr ())"

definition node_binding_schema :: string where
  "node_binding_schema = ''a3s.cloud.node-resource-claim-binding.v1''"

definition node_binding_validate :: "node_binding \<Rightarrow> (node_claim_error, unit) result" where
  "node_binding_validate b =
     (if nb_schema b \<noteq> node_binding_schema then Inl (NodeSchema (nb_schema b))
      else
      and_then (map_err NodeResource (validate_uuid ''claim_id'' (nb_claim_id b))) (\<lambda>_.
      and_then (map_err NodeResource (validate_uuid ''node_id'' (nb_node_id b))) (\<lambda>_.
      and_then (map_err NodeResource (validate_uuid ''agent_instance_id'' (nb_agent_instance_id b))) (\<lambda>_.
      if nb_inventory_generation b = 0 \<or> nb_runtime_generation b = 0 then Inl BindingGenerations
      else
      and_then (map_err NodeResource
        (contract_validate_sha256 ''resource inventory digest'' (nb_inventory_digest b))) (\<lambda>_.
      and_then (map_err NodeResource
        (contract_validate_sha256 ''resource topology digest'' (nb_topology_digest b))) (\<lambda>_.
      and_then (validate_single_line ''Runtime unit ID'' (nb_runtime_unit_id b) 512) (\<lambda>_.
      map_err NodeResource (validate_slot_bindings (nb_slots b)))))))))"

text \<open>\<open>canonical_digest\<close>: the digest of a document that validates.\<close>

definition canonical_digest ::
    "externals \<Rightarrow> json \<Rightarrow> (node_claim_error, unit) result \<Rightarrow> (node_claim_error, string) result" where
  "canonical_digest X d validation =
     and_then validation (\<lambda>_. ok_or EvidenceEncoding (sha256_of_json X d))"

definition node_binding_json :: "node_binding \<Rightarrow> json" where
  "node_binding_json b = JObj
     [(''schema'', JStr (nb_schema b)),
      (''claim_id'', JUuid (nb_claim_id b)),
      (''node_id'', JUuid (nb_node_id b)),
      (''agent_instance_id'', JUuid (nb_agent_instance_id b)),
      (''inventory_generation'', JNum (unat (nb_inventory_generation b))),
      (''inventory_digest'', JStr (nb_inventory_digest b)),
      (''runtime_unit_id'', JStr (nb_runtime_unit_id b)),
      (''runtime_generation'', JNum (unat (nb_runtime_generation b))),
      (''topology_digest'', JStr (nb_topology_digest b)),
      (''slots'', JArr (map slot_binding_json (nb_slots b)))]"

definition node_binding_digest :: "externals \<Rightarrow> node_binding \<Rightarrow> (node_claim_error, string) result" where
  "node_binding_digest X b = canonical_digest X (node_binding_json b) (node_binding_validate b)"

definition binding_slot_within :: "inventory \<Rightarrow> slot_binding \<Rightarrow> (node_claim_error, unit) result" where
  "binding_slot_within i requested =
     and_then (ok_or (BindingSlotAbsent (sb_stable_resource_id requested))
       (inventory_find i (sb_key requested))) (\<lambda>capacity.
     if \<not> allocation_contains (ns_allocation capacity) (sb_allocation requested)
     then Inl (BindingSlotExceeds (sb_stable_resource_id requested)) else Inr ())"

definition node_binding_validate_inventory ::
    "externals \<Rightarrow> node_binding \<Rightarrow> inventory \<Rightarrow> (node_claim_error, unit) result" where
  "node_binding_validate_inventory X b i =
     and_then (node_binding_validate b) (\<lambda>_.
     and_then (map_err NodeResource (inventory_validate X i)) (\<lambda>_.
     if inv_node_id i \<noteq> nb_node_id b \<or> inv_agent_instance_id i \<noteq> nb_agent_instance_id b
        \<or> inv_generation i \<noteq> nb_inventory_generation b \<or> inv_digest i \<noteq> nb_inventory_digest b
     then Inl InventoryNotCurrent
     else try_for_each (binding_slot_within i) (nb_slots b)))"

definition optional_scalar ::
    "slot_binding list \<Rightarrow> resource_kind \<Rightarrow> resource_unit \<Rightarrow> (node_claim_error, u64 option) result" where
  "optional_scalar slots k u =
     (case filter (\<lambda>s. sb_kind s = k) slots of
        [] \<Rightarrow> Inr None
      | [slot] \<Rightarrow>
          (case sb_allocation slot of
             Scalar amount actual \<Rightarrow> if actual = u then Inr (Some amount) else Inl (ScalarWrongUnit k)
           | _ \<Rightarrow> Inl (ScalarWrongUnit k))
      | _ \<Rightarrow> Inl (ScalarMultiple k))"

definition required_scalar ::
    "slot_binding list \<Rightarrow> resource_kind \<Rightarrow> resource_unit \<Rightarrow> (node_claim_error, u64) result" where
  "required_scalar slots k u =
     and_then (optional_scalar slots k u) (\<lambda>amount. ok_or (ScalarOmitted k) amount)"

definition node_binding_validate_runtime_spec ::
    "runtime_contract \<Rightarrow> node_binding \<Rightarrow> runtime_spec \<Rightarrow> (node_claim_error, unit) result" where
  "node_binding_validate_runtime_spec R b spec =
     and_then (node_binding_validate b) (\<lambda>_.
     and_then (map_err NodeRuntime (rt_validate_spec R spec)) (\<lambda>_.
     if nb_runtime_unit_id b \<noteq> us_unit_id spec \<or> nb_runtime_generation b \<noteq> us_generation spec
     then Inl RuntimeUnitMismatch
     else
     and_then (required_scalar (nb_slots b) Cpu MilliCpu) (\<lambda>cpu.
     and_then (required_scalar (nb_slots b) Memory Byte) (\<lambda>memory.
     and_then (optional_scalar (nb_slots b) EphemeralStorage Byte) (\<lambda>ephemeral.
     if cpu \<noteq> us_cpu_millis spec \<or> memory \<noteq> us_memory_bytes spec
        \<or> ephemeral \<noteq> us_ephemeral_storage_bytes spec
     then Inl ScalarLimits
     else if list_ex (\<lambda>s. sb_kind s \<notin> {Cpu, Memory, EphemeralStorage}) (nb_slots b)
     then Inl ExclusiveUnenforced
     else Inr ())))))"

section \<open>Observations\<close>

definition runtime_resource_claim_id_key :: string where
  "runtime_resource_claim_id_key = ''a3s.cloud.resource-claim.id''"

definition runtime_resource_binding_digest_key :: string where
  "runtime_resource_binding_digest_key = ''a3s.cloud.resource-claim.binding-digest''"

definition insert_exact_claim ::
    "(string, string) btree_map \<Rightarrow> string \<Rightarrow> string
      \<Rightarrow> (node_claim_error, (string, string) btree_map) result" where
  "insert_exact_claim claims key v =
     (if (case btree_get claims key of None \<Rightarrow> False | Some existing \<Rightarrow> existing \<noteq> v)
      then Inl (ReservedClaimConflict key)
      else Inr (btree_insert key v claims))"

text \<open>
  \<open>bind_runtime_observation\<close> writes into the caller's observation; its callers drop the observation
  when it fails, so the function returns the observation after a successful call.
\<close>

definition node_binding_bind_observation ::
    "externals \<Rightarrow> runtime_contract \<Rightarrow> node_binding \<Rightarrow> observation
      \<Rightarrow> (node_claim_error, observation) result" where
  "node_binding_bind_observation X R b ob =
     and_then (node_binding_validate b) (\<lambda>_.
     and_then (map_err NodeRuntime (rt_validate_observation R ob)) (\<lambda>_.
     if ob_unit_id ob \<noteq> nb_runtime_unit_id b \<or> ob_generation ob \<noteq> nb_runtime_generation b
        \<or> ob_provider_resource_id ob = None
     then Inl ObservationUnproven
     else
     and_then (node_binding_digest X b) (\<lambda>binding_digest.
     let evidence =
       (case ob_evidence ob of
          Some e \<Rightarrow> e
        | None \<Rightarrow>
            \<lparr>ev_provider_build = (case ob_provider_build ob of None \<Rightarrow> ''unknown'' | Some p \<Rightarrow> p),
             ev_spec_digest = ob_spec_digest ob, ev_semantics_profile_digest = None,
             ev_identity_attachment_digest = None, ev_claims = []\<rparr>)
     in
     and_then (insert_exact_claim (ev_claims evidence) runtime_resource_claim_id_key
       (ext_uuid_display X (nb_claim_id b))) (\<lambda>claims.
     and_then (insert_exact_claim claims runtime_resource_binding_digest_key binding_digest) (\<lambda>claims.
     let ob = ob\<lparr>ob_evidence := Some (evidence\<lparr>ev_claims := claims\<rparr>)\<rparr> in
     and_then (map_err NodeRuntime (rt_validate_observation R ob)) (\<lambda>_. Inr ob))))))"

definition node_binding_validate_observation ::
    "externals \<Rightarrow> runtime_contract \<Rightarrow> node_binding \<Rightarrow> observation
      \<Rightarrow> (node_claim_error, unit) result" where
  "node_binding_validate_observation X R b ob =
     and_then (node_binding_validate b) (\<lambda>_.
     and_then (map_err NodeRuntime (rt_validate_observation R ob)) (\<lambda>_.
     and_then (ok_or EvidenceOmitted (ob_evidence ob)) (\<lambda>evidence.
     if ob_unit_id ob \<noteq> nb_runtime_unit_id b \<or> ob_generation ob \<noteq> nb_runtime_generation b
        \<or> btree_get (ev_claims evidence) runtime_resource_claim_id_key
             \<noteq> Some (ext_uuid_display X (nb_claim_id b))
     then Inl EvidenceInconsistent
     else
     and_then (node_binding_digest X b) (\<lambda>digest.
     if btree_get (ev_claims evidence) runtime_resource_binding_digest_key \<noteq> Some digest
     then Inl EvidenceInconsistent else Inr ()))))"

section \<open>Preparation\<close>

definition claim_prepare_schema :: string where
  "claim_prepare_schema = ''a3s.cloud.node-resource-claim-prepare.v1''"

definition claim_prepare_validate :: "claim_prepare \<Rightarrow> (node_claim_error, unit) result" where
  "claim_prepare_validate q =
     (if pq_schema q \<noteq> claim_prepare_schema then Inl (NodeSchema (pq_schema q))
      else if pq_claim_generation q = 0 then Inl RequestGeneration
      else
      and_then (map_err NodeResource
        (contract_validate_sha256 ''resource claim digest'' (pq_claim_digest q))) (\<lambda>_.
      node_binding_validate (pq_binding q)))"

definition claim_prepared_schema :: string where
  "claim_prepared_schema = ''a3s.cloud.node-resource-claim-prepared.v1''"

definition claim_prepared_validate :: "claim_prepared \<Rightarrow> (node_claim_error, unit) result" where
  "claim_prepared_validate p =
     (if pd_schema p \<noteq> claim_prepared_schema then Inl (NodeSchema (pd_schema p))
      else
      and_then (map_err NodeResource (validate_uuid ''claim_id'' (pd_claim_id p))) (\<lambda>_.
      if pd_claim_generation p = 0 \<or> timestamp_millis (pd_prepared_at p) \<le> 0
      then Inl EvidenceGenerationOrTime
      else
      and_then (map_err NodeResource
        (contract_validate_sha256 ''resource claim digest'' (pd_claim_digest p))) (\<lambda>_.
      and_then (map_err NodeResource
        (contract_validate_sha256 ''resource binding digest'' (pd_binding_digest p))) (\<lambda>_.
      map_err NodeResource (validate_slot_evidence (pd_slots p))))))"

definition claim_prepared_validate_for ::
    "externals \<Rightarrow> claim_prepared \<Rightarrow> claim_prepare \<Rightarrow> (node_claim_error, unit) result" where
  "claim_prepared_validate_for X p q =
     and_then (claim_prepared_validate p) (\<lambda>_.
     and_then (claim_prepare_validate q) (\<lambda>_.
     let expected_slots = map slot_binding_evidence (nb_slots (pq_binding q)) in
     if pd_claim_id p \<noteq> nb_claim_id (pq_binding q) \<or> pd_claim_generation p \<noteq> pq_claim_generation q
        \<or> pd_claim_digest p \<noteq> pq_claim_digest q
     then Inl EvidenceMismatch
     else
     and_then (node_binding_digest X (pq_binding q)) (\<lambda>digest.
     if pd_binding_digest p \<noteq> digest \<or> pd_slots p \<noteq> expected_slots
     then Inl EvidenceMismatch else Inr ())))"

definition claim_prepared_new ::
    "externals \<Rightarrow> claim_prepare \<Rightarrow> timestamp \<Rightarrow> (node_claim_error, claim_prepared) result" where
  "claim_prepared_new X q prepared_at =
     and_then (claim_prepare_validate q) (\<lambda>_.
     and_then (node_binding_digest X (pq_binding q)) (\<lambda>digest.
     let p = \<lparr>pd_schema = claim_prepared_schema, pd_claim_id = nb_claim_id (pq_binding q),
              pd_claim_generation = pq_claim_generation q, pd_claim_digest = pq_claim_digest q,
              pd_binding_digest = digest,
              pd_slots = map slot_binding_evidence (nb_slots (pq_binding q)),
              pd_prepared_at = prepared_at\<rparr>
     in and_then (claim_prepared_validate_for X p q) (\<lambda>_. Inr p)))"

section \<open>Release\<close>

definition claim_release_schema :: string where
  "claim_release_schema = ''a3s.cloud.node-resource-claim-release.v1''"

definition claim_release_validate :: "claim_release \<Rightarrow> (node_claim_error, unit) result" where
  "claim_release_validate q =
     (if rq_schema q \<noteq> claim_release_schema then Inl (NodeSchema (rq_schema q))
      else if rq_claim_generation q = 0 then Inl RequestGeneration
      else
      and_then (map_err NodeResource
        (contract_validate_sha256 ''resource claim digest'' (rq_claim_digest q))) (\<lambda>_.
      node_binding_validate (rq_binding q)))"

definition claim_released_schema :: string where
  "claim_released_schema = ''a3s.cloud.node-resource-claim-released.v1''"

definition claim_released_validate :: "claim_released \<Rightarrow> (node_claim_error, unit) result" where
  "claim_released_validate p =
     (if rd_schema p \<noteq> claim_released_schema then Inl (NodeSchema (rd_schema p))
      else
      and_then (map_err NodeResource (validate_uuid ''claim_id'' (rd_claim_id p))) (\<lambda>_.
      if rd_claim_generation p = 0 \<or> timestamp_millis (rd_released_at p) \<le> 0
      then Inl EvidenceGenerationOrTime
      else
      and_then (map_err NodeResource
        (contract_validate_sha256 ''resource claim digest'' (rd_claim_digest p))) (\<lambda>_.
      and_then (map_err NodeResource
        (contract_validate_sha256 ''resource binding digest'' (rd_binding_digest p))) (\<lambda>_.
      map_err NodeResource (validate_slot_evidence (rd_slots p))))))"

definition claim_released_validate_for ::
    "externals \<Rightarrow> claim_released \<Rightarrow> claim_release \<Rightarrow> (node_claim_error, unit) result" where
  "claim_released_validate_for X p q =
     and_then (claim_released_validate p) (\<lambda>_.
     and_then (claim_release_validate q) (\<lambda>_.
     let expected_slots = map slot_binding_evidence (nb_slots (rq_binding q)) in
     if rd_claim_id p \<noteq> nb_claim_id (rq_binding q) \<or> rd_claim_generation p \<noteq> rq_claim_generation q
        \<or> rd_claim_digest p \<noteq> rq_claim_digest q
     then Inl EvidenceMismatch
     else
     and_then (node_binding_digest X (rq_binding q)) (\<lambda>digest.
     if rd_binding_digest p \<noteq> digest \<or> rd_slots p \<noteq> expected_slots
     then Inl EvidenceMismatch else Inr ())))"

definition claim_released_new ::
    "externals \<Rightarrow> claim_release \<Rightarrow> timestamp \<Rightarrow> (node_claim_error, claim_released) result" where
  "claim_released_new X q released_at =
     and_then (claim_release_validate q) (\<lambda>_.
     and_then (node_binding_digest X (rq_binding q)) (\<lambda>digest.
     let p = \<lparr>rd_schema = claim_released_schema, rd_claim_id = nb_claim_id (rq_binding q),
              rd_claim_generation = rq_claim_generation q, rd_claim_digest = rq_claim_digest q,
              rd_binding_digest = digest,
              rd_slots = map slot_binding_evidence (nb_slots (rq_binding q)),
              rd_released_at = released_at\<rparr>
     in and_then (claim_released_validate_for X p q) (\<lambda>_. Inr p)))"

definition slot_evidence_json :: "slot_evidence \<Rightarrow> json" where
  "slot_evidence_json s =
     JObj [(''kind'', JStr (resource_kind_as_str (se_kind s))),
           (''stableResourceId'', JStr (se_stable_resource_id s)),
           (''slotGeneration'', JNum (unat (se_slot_generation s))),
           (''fenceToken'', JUuid (se_fence_token s))]"

definition claim_released_json :: "claim_released \<Rightarrow> json" where
  "claim_released_json p = JObj
     [(''schema'', JStr (rd_schema p)),
      (''claim_id'', JUuid (rd_claim_id p)),
      (''claim_generation'', JNum (unat (rd_claim_generation p))),
      (''claim_digest'', JStr (rd_claim_digest p)),
      (''binding_digest'', JStr (rd_binding_digest p)),
      (''slots'', JArr (map slot_evidence_json (rd_slots p))),
      (''released_at'', JTime (rd_released_at p))]"

definition claim_released_evidence_digest ::
    "externals \<Rightarrow> claim_released \<Rightarrow> (node_claim_error, string) result" where
  "claim_released_evidence_digest X p =
     canonical_digest X (claim_released_json p) (claim_released_validate p)"

section \<open>The control plane's side\<close>

datatype node_binding_error = BindingClaim claim_error | BindingMessage node_claim_error

text \<open>\<open>ResourceClaim::node_binding\<close>.\<close>

definition claim_node_binding ::
    "externals \<Rightarrow> claim \<Rightarrow> uuid \<Rightarrow> (node_binding_error, node_binding) result" where
  "claim_node_binding X c agent_instance_id =
     and_then (map_err BindingClaim (claim_validate X c)) (\<lambda>_.
     let b = \<lparr>nb_schema = node_binding_schema, nb_claim_id = rc_id c, nb_node_id = rc_node_id c,
              nb_agent_instance_id = agent_instance_id,
              nb_inventory_generation = rc_inventory_generation c,
              nb_inventory_digest = rc_inventory_digest c,
              nb_runtime_unit_id = rc_runtime_unit_id c,
              nb_runtime_generation = rc_runtime_generation c,
              nb_topology_digest = rc_topology_digest c, nb_slots = rc_slots c\<rparr>
     in and_then (map_err BindingMessage (node_binding_validate b)) (\<lambda>_. Inr b))"

text \<open>
  The requests that the deployment flow builds from the claim and its binding, and the release
  evidence it builds from the agent's answer (\<open>prepare\<close> and \<open>release\<close> of
  \<open>deployment_flow/steps/resource_claims.rs\<close>).
\<close>

definition flow_prepare_request :: "claim \<Rightarrow> node_binding \<Rightarrow> claim_prepare" where
  "flow_prepare_request c b =
     \<lparr>pq_schema = claim_prepare_schema, pq_claim_generation = rc_claim_generation c,
      pq_claim_digest = rc_claim_digest c, pq_binding = b\<rparr>"

definition flow_release_request :: "claim \<Rightarrow> node_binding \<Rightarrow> claim_release" where
  "flow_release_request c b =
     \<lparr>rq_schema = claim_release_schema, rq_claim_generation = rc_claim_generation c,
      rq_claim_digest = rc_claim_digest c, rq_binding = b\<rparr>"

definition flow_release_evidence ::
    "externals \<Rightarrow> uuid \<Rightarrow> claim_released \<Rightarrow> (node_claim_error, release_evidence) result" where
  "flow_release_evidence X command_id p =
     and_then (claim_released_evidence_digest X p) (\<lambda>digest.
     Inr (AgentReleased command_id (rd_slots p) digest (rd_released_at p)))"

definition flow_prepare_command_id :: "externals \<Rightarrow> claim \<Rightarrow> uuid" where
  "flow_prepare_command_id X c =
     ext_uuid_v5 X (rc_id c) (''resource-claim-prepare:'' @ decimal (unat (rc_claim_generation c)))"

definition flow_release_command_id :: "externals \<Rightarrow> claim \<Rightarrow> u64 \<Rightarrow> uuid" where
  "flow_release_command_id X c generation =
     ext_uuid_v5 X (rc_id c) (''resource-claim-release:'' @ decimal (unat generation))"

section \<open>Lemmas\<close>

lemma node_binding_digest_ok:
  assumes "hash_laws X" and "node_binding_validate b = Inr ()"
  obtains d where "node_binding_digest X b = Inr d" and "is_sha256_digest d"
proof -
  obtain d where "sha256_of_json X (node_binding_json b) = Some d" and "is_sha256_digest d"
    by (rule sha256_of_json_Some [OF assms(1)])
  then show ?thesis
    using assms(2) by (intro that [of d]) (simp_all add: node_binding_digest_def canonical_digest_def ok_or_def)
qed

lemma node_binding_digest_valid:
  "node_binding_digest X b = Inr d \<Longrightarrow> node_binding_validate b = Inr ()"
  by (auto simp: node_binding_digest_def canonical_digest_def)

lemma node_binding_digest_format:
  "hash_laws X \<Longrightarrow> node_binding_digest X b = Inr d \<Longrightarrow> is_sha256_digest d"
  by (auto simp: node_binding_digest_def canonical_digest_def intro: sha256_of_json_digest)

lemma node_binding_slots_valid:
  "node_binding_validate b = Inr () \<Longrightarrow> validate_slot_bindings (nb_slots b) = Inr ()"
  by (auto simp: node_binding_validate_def split: if_split_asm)

lemma node_binding_claim_id: "node_binding_validate b = Inr () \<Longrightarrow> nb_claim_id b \<noteq> 0"
  by (auto simp: node_binding_validate_def validate_uuid_def split: if_split_asm)

text \<open>The evidence a constructor builds is the only evidence its validator accepts.\<close>

lemma claim_prepared_exact:
  "claim_prepared_validate_for X p q = Inr () \<longleftrightarrow> claim_prepared_new X q (pd_prepared_at p) = Inr p"
proof
  assume acc: "claim_prepared_validate_for X p q = Inr ()"
  then have "pd_schema p = claim_prepared_schema" "pd_claim_id p = nb_claim_id (pq_binding q)"
      "pd_claim_generation p = pq_claim_generation q" "pd_claim_digest p = pq_claim_digest q"
      "node_binding_digest X (pq_binding q) = Inr (pd_binding_digest p)"
      "pd_slots p = map slot_binding_evidence (nb_slots (pq_binding q))"
      "claim_prepare_validate q = Inr ()"
    by (auto simp: claim_prepared_validate_for_def claim_prepared_validate_def Let_def split: if_split_asm)
  moreover from this have rebuild: "\<lparr>pd_schema = claim_prepared_schema,
      pd_claim_id = nb_claim_id (pq_binding q), pd_claim_generation = pq_claim_generation q,
      pd_claim_digest = pq_claim_digest q, pd_binding_digest = pd_binding_digest p,
      pd_slots = map slot_binding_evidence (nb_slots (pq_binding q)), pd_prepared_at = pd_prepared_at p\<rparr> = p"
    by (cases p) simp
  ultimately show "claim_prepared_new X q (pd_prepared_at p) = Inr p"
    using acc by (simp add: claim_prepared_new_def Let_def rebuild)
qed (auto simp: claim_prepared_new_def Let_def)

lemma claim_released_exact:
  "claim_released_validate_for X p q = Inr () \<longleftrightarrow> claim_released_new X q (rd_released_at p) = Inr p"
proof
  assume acc: "claim_released_validate_for X p q = Inr ()"
  then have "rd_schema p = claim_released_schema" "rd_claim_id p = nb_claim_id (rq_binding q)"
      "rd_claim_generation p = rq_claim_generation q" "rd_claim_digest p = rq_claim_digest q"
      "node_binding_digest X (rq_binding q) = Inr (rd_binding_digest p)"
      "rd_slots p = map slot_binding_evidence (nb_slots (rq_binding q))"
      "claim_release_validate q = Inr ()"
    by (auto simp: claim_released_validate_for_def claim_released_validate_def Let_def split: if_split_asm)
  moreover from this have rebuild: "\<lparr>rd_schema = claim_released_schema,
      rd_claim_id = nb_claim_id (rq_binding q), rd_claim_generation = rq_claim_generation q,
      rd_claim_digest = rq_claim_digest q, rd_binding_digest = rd_binding_digest p,
      rd_slots = map slot_binding_evidence (nb_slots (rq_binding q)), rd_released_at = rd_released_at p\<rparr> = p"
    by (cases p) simp
  ultimately show "claim_released_new X q (rd_released_at p) = Inr p"
    using acc by (simp add: claim_released_new_def Let_def rebuild)
qed (auto simp: claim_released_new_def Let_def)

lemma claim_prepared_new_ok:
  assumes "hash_laws X" and "claim_prepare_validate q = Inr ()" and "timestamp_millis at > 0"
  shows "\<exists>p. claim_prepared_new X q at = Inr p \<and>
    node_binding_digest X (pq_binding q) = Inr (pd_binding_digest p) \<and> is_sha256_digest (pd_binding_digest p)"
proof -
  have vb: "node_binding_validate (pq_binding q) = Inr ()" and g: "pq_claim_generation q \<noteq> 0"
      and d: "contract_validate_sha256 ''resource claim digest'' (pq_claim_digest q) = Inr ()"
    using assms(2) by (auto simp: claim_prepare_validate_def split: if_split_asm)
  obtain h where h: "node_binding_digest X (pq_binding q) = Inr h" "is_sha256_digest h"
    by (rule node_binding_digest_ok [OF assms(1) vb])
  show ?thesis
    using assms(2,3) g d h node_binding_claim_id [OF vb] contract_accepts_digest [OF h(2)]
      slot_evidence_of_bindings_valid [OF node_binding_slots_valid [OF vb]]
    by (simp add: claim_prepared_new_def claim_prepared_validate_for_def claim_prepared_validate_def
        validate_uuid_def Let_def)
qed

lemma claim_released_new_ok:
  assumes "hash_laws X" and "claim_release_validate q = Inr ()" and "timestamp_millis at > 0"
  shows "\<exists>p. claim_released_new X q at = Inr p \<and> rd_released_at p = at \<and>
    rd_slots p = map slot_binding_evidence (nb_slots (rq_binding q)) \<and> claim_released_validate p = Inr ()"
proof -
  have vb: "node_binding_validate (rq_binding q) = Inr ()" and g: "rq_claim_generation q \<noteq> 0"
      and d: "contract_validate_sha256 ''resource claim digest'' (rq_claim_digest q) = Inr ()"
    using assms(2) by (auto simp: claim_release_validate_def split: if_split_asm)
  obtain h where h: "node_binding_digest X (rq_binding q) = Inr h" "is_sha256_digest h"
    by (rule node_binding_digest_ok [OF assms(1) vb])
  show ?thesis
    using assms(2,3) g d h node_binding_claim_id [OF vb] contract_accepts_digest [OF h(2)]
      slot_evidence_of_bindings_valid [OF node_binding_slots_valid [OF vb]]
    by (simp add: claim_released_new_def claim_released_validate_for_def claim_released_validate_def
        validate_uuid_def Let_def)
qed

text \<open>The binding a valid claim sends to an agent always validates, and depends on its identity only.\<close>

lemma claim_node_binding_ok:
  assumes "claim_validate X c = Inr ()" and "agent \<noteq> 0"
  shows "\<exists>b. claim_node_binding X c agent = Inr b \<and> node_binding_validate b = Inr () \<and>
    nb_slots b = rc_slots c \<and> nb_claim_id b = rc_id c"
proof -
  have st: "claim_static X c"
    using assms(1) by (simp add: claim_validate_ok)
  then have "validate_single_line ''Runtime unit ID'' (rc_runtime_unit_id c) 512 = Inr ()"
    by (auto simp: claim_static_def validate_runtime_identity_def validate_single_line_def
        contains_any_def list_ex_iff split: if_split_asm)
  moreover have "rc_runtime_generation c \<noteq> 0"
    using st by (simp add: claim_static_def)
  ultimately show ?thesis
    using st assms by (simp add: claim_node_binding_def Let_def node_binding_validate_def
        validate_uuid_def claim_static_def contract_accepts_digest)
qed

lemma claim_node_binding_cong:
  assumes "claim_identity c' = claim_identity c"
    and "claim_validate X c = Inr ()" and "claim_validate X c' = Inr ()"
  shows "claim_node_binding X c' agent = claim_node_binding X c agent"
  using assms by (simp add: claim_node_binding_def claim_identity_def)

lemma flow_prepare_request_valid:
  assumes "claim_validate X c = Inr ()" and "node_binding_validate b = Inr ()"
  shows "claim_prepare_validate (flow_prepare_request c b) = Inr ()"
  using assms by (simp add: flow_prepare_request_def claim_prepare_validate_def claim_validate_ok
      claim_dynamic_def contract_accepts_digest)

lemma flow_release_request_valid:
  assumes "claim_validate X c = Inr ()" and "node_binding_validate b = Inr ()"
  shows "claim_release_validate (flow_release_request c b) = Inr ()"
  using assms by (simp add: flow_release_request_def claim_release_validate_def claim_validate_ok
      claim_dynamic_def contract_accepts_digest)

text \<open>The agent's answer is evidence that the claim's own method accepts.\<close>

lemma flow_release_evidence_ok:
  assumes "hash_laws X" and "claim_released_validate p = Inr ()"
  obtains d where "flow_release_evidence X i p = Inr (AgentReleased i (rd_slots p) d (rd_released_at p))"
    and "is_sha256_digest d"
proof -
  obtain d where "sha256_of_json X (claim_released_json p) = Some d" and "is_sha256_digest d"
    by (rule sha256_of_json_Some [OF assms(1)])
  then show ?thesis
    using assms(2) by (intro that [of d]) (simp_all add: flow_release_evidence_def
        claim_released_evidence_digest_def canonical_digest_def ok_or_def)
qed

lemma begin_preparation_succeeds:
  assumes "rc_state c = ReservedInDb" and "i \<noteq> 0" and "rc_updated_at c \<le> canonical_timestamp at"
    and "rc_aggregate_version c \<noteq> - 1"
  shows "\<exists>c' v. claim_begin_preparation c i at = (c', Inr ()) \<and> rc_state c' = PreparingOnAgent \<and>
    rc_prepare_command_id c' = Some i \<and> rc_updated_at c' = canonical_timestamp at \<and>
    rc_aggregate_version c' = v \<and> checked_add (rc_aggregate_version c) 1 = Some v \<and>
    rc_claim_generation c' = rc_claim_generation c"
  using assms checked_add_None_iff [of "rc_aggregate_version c"]
  by (auto simp: claim_begin_preparation_def claim_canonical_time_def claim_bump_def Let_def
      split: option.split)

lemma record_prepared_succeeds:
  assumes "rc_state c = PreparingOnAgent" and "rc_prepare_command_id c = Some i" and "is_sha256_digest d"
    and "rc_updated_at c \<le> canonical_timestamp at" and "rc_aggregate_version c \<noteq> - 1"
  shows "\<exists>c' v. claim_record_prepared c i d at = (c', Inr ()) \<and> rc_state c' = PreparedOnAgent \<and>
    rc_prepared_binding_digest c' = Some d \<and> rc_updated_at c' = canonical_timestamp at \<and>
    rc_aggregate_version c' = v \<and> checked_add (rc_aggregate_version c) 1 = Some v \<and>
    rc_claim_generation c' = rc_claim_generation c"
  using assms checked_add_None_iff [of "rc_aggregate_version c"]
  by (auto simp: claim_record_prepared_def claim_canonical_time_def claim_bump_def Let_def
      claim_validate_sha256_def split: option.split)

lemma begin_release_succeeds:
  assumes "rc_state c = PreparedOnAgent" and "i \<noteq> 0" and "rc_updated_at c \<le> canonical_timestamp at"
    and "rc_aggregate_version c \<noteq> - 1" and "rc_claim_generation c \<noteq> - 1" and "hash_laws X"
  shows "\<exists>c' v. claim_begin_release X c i at = (c', Inr ()) \<and> rc_state c' = ClaimReleasing \<and>
    rc_release_command_id c' = Some i \<and> rc_updated_at c' = canonical_timestamp at \<and>
    rc_aggregate_version c' = v \<and> checked_add (rc_aggregate_version c) 1 = Some v"
proof -
  obtain g v where "checked_add (rc_claim_generation c) 1 = Some g"
      "checked_add (rc_aggregate_version c) 1 = Some v"
    using assms(4,5) checked_add_None_iff by fastforce
  moreover obtain d where "calculate_claim_digest X (c\<lparr>rc_claim_generation := g\<rparr>) = Inr d"
    using claim_digest_defined [OF assms(6)] by (metis obj_sumE)
  ultimately show ?thesis
    using assms by (simp add: claim_begin_release_def claim_canonical_time_def claim_bump_def Let_def)
qed

lemma agent_release_recorded:
  assumes "rc_state c = ClaimReleasing" and "rc_release_command_id c = Some i" and "i \<noteq> 0"
    and "validate_slot_bindings (rc_slots c) = Inr ()" and "is_sha256_digest d"
    and "rc_updated_at c \<le> canonical_timestamp at" and "rc_aggregate_version c \<noteq> - 1"
    and "timestamp_millis r > 0" and "r \<le> at"
  shows "\<exists>c'. claim_record_released c (AgentReleased i (claim_slot_evidence c) d r) at = (c', Inr ()) \<and>
    rc_state c' = ClaimReleased"
proof -
  have "validate_slot_evidence (claim_slot_evidence c) = Inr ()"
    using slot_evidence_of_bindings_valid [OF assms(4)] by (simp add: claim_slot_evidence_def)
  moreover have "canonical_timestamp r \<le> canonical_timestamp at"
    by (rule canonical_timestamp_mono [OF assms(9)])
  moreover obtain v where "checked_add (rc_aggregate_version c) 1 = Some v"
    using assms(7) checked_add_None_iff by fastforce
  ultimately show ?thesis
    using assms by (simp add: claim_record_released_def claim_canonical_time_def Let_def claim_bump_def
        release_evidence_tail_def claim_validate_sha256_def slot_evidence_matches_def)
qed

lemma claim_step_inv: "claim_step X c c' \<Longrightarrow> hash_laws X \<Longrightarrow> claim_inv X c \<Longrightarrow> claim_inv X c'"
  using claim_step_change claim_change_inv by metis

lemma claim_step_identity: "claim_step X c c' \<Longrightarrow> claim_identity c' = claim_identity c"
  using claim_step_change claim_change_identity by metis

lemma below_max: "unat v + n < 2 ^ 64 \<Longrightarrow> n > 0 \<Longrightarrow> v \<noteq> - 1" for v :: u64
  by (auto simp: unsigned_minus_1_eq_mask mask_eq_exp_minus_1)
lemma insert_exact_claim_Inr:
  "insert_exact_claim m k v = Inr m' \<longleftrightarrow> btree_get m k \<in> {None, Some v} \<and> m' = btree_insert k v m"
  by (auto simp: insert_exact_claim_def split: option.splits)

lemma reserved_keys_differ: "runtime_resource_claim_id_key \<noteq> runtime_resource_binding_digest_key"
  by (simp add: runtime_resource_claim_id_key_def runtime_resource_binding_digest_key_def)

text \<open>What a successful call writes: the two reserved claims and nothing else.\<close>

definition observation_claims :: "observation \<Rightarrow> (string, string) btree_map" where
  "observation_claims ob = (case ob_evidence ob of None \<Rightarrow> [] | Some e \<Rightarrow> ev_claims e)"

lemma bind_observation_writes:
  assumes "node_binding_bind_observation X R b ob = Inr ob'"
  shows "\<exists>e d. ob' = ob\<lparr>ob_evidence := Some e\<rparr> \<and> node_binding_digest X b = Inr d \<and>
    ev_claims e = btree_insert runtime_resource_binding_digest_key d
      (btree_insert runtime_resource_claim_id_key (ext_uuid_display X (nb_claim_id b))
        (observation_claims ob)) \<and>
    rt_validate_observation R ob' = Inr () \<and> node_binding_validate b = Inr () \<and>
    ob_unit_id ob = nb_runtime_unit_id b \<and> ob_generation ob = nb_runtime_generation b \<and>
    ob_provider_resource_id ob \<noteq> None"
proof -
  define evidence where "evidence = (case ob_evidence ob of Some e \<Rightarrow> e
    | None \<Rightarrow> \<lparr>ev_provider_build = (case ob_provider_build ob of None \<Rightarrow> ''unknown'' | Some p \<Rightarrow> p),
             ev_spec_digest = ob_spec_digest ob, ev_semantics_profile_digest = None,
             ev_identity_attachment_digest = None, ev_claims = []\<rparr>)"
  have claims: "ev_claims evidence = observation_claims ob"
    by (simp add: evidence_def observation_claims_def split: option.split)
  from assms obtain d where "node_binding_digest X b = Inr d"
      "ob' = ob\<lparr>ob_evidence := Some (evidence\<lparr>ev_claims :=
         btree_insert runtime_resource_binding_digest_key d
           (btree_insert runtime_resource_claim_id_key (ext_uuid_display X (nb_claim_id b))
             (ev_claims evidence))\<rparr>)\<rparr>"
      "rt_validate_observation R ob' = Inr ()" "node_binding_validate b = Inr ()"
      "ob_unit_id ob = nb_runtime_unit_id b" "ob_generation ob = nb_runtime_generation b"
      "ob_provider_resource_id ob \<noteq> None"
    unfolding node_binding_bind_observation_def Let_def evidence_def [symmetric]
    by (simp add: insert_exact_claim_Inr split: if_split_asm) blast
  then show ?thesis
    unfolding claims by (intro exI conjI) (assumption | simp)+
qed

lemma bind_observation_validates:
  assumes "node_binding_bind_observation X R b ob = Inr ob'"
  shows "node_binding_validate_observation X R b ob' = Inr ()"
proof -
  obtain e d where w: "ob' = ob\<lparr>ob_evidence := Some e\<rparr>" "node_binding_digest X b = Inr d"
      "ev_claims e = btree_insert runtime_resource_binding_digest_key d
           (btree_insert runtime_resource_claim_id_key (ext_uuid_display X (nb_claim_id b))
             (observation_claims ob))"
      "rt_validate_observation R ob' = Inr ()" "node_binding_validate b = Inr ()"
      "ob_unit_id ob = nb_runtime_unit_id b" "ob_generation ob = nb_runtime_generation b"
    using bind_observation_writes [OF assms] by metis
  then show ?thesis
    using reserved_keys_differ by (simp add: node_binding_validate_observation_def btree_get_insert)
qed

lemma bind_observation_idem:
  assumes "node_binding_bind_observation X R b ob = Inr ob'" and "btree_wf (observation_claims ob)"
  shows "node_binding_bind_observation X R b ob' = Inr ob'"
proof -
  obtain e d where w: "ob' = ob\<lparr>ob_evidence := Some e\<rparr>" "node_binding_digest X b = Inr d"
      "ev_claims e = btree_insert runtime_resource_binding_digest_key d
           (btree_insert runtime_resource_claim_id_key (ext_uuid_display X (nb_claim_id b))
             (observation_claims ob))"
      "rt_validate_observation R ob' = Inr ()" "node_binding_validate b = Inr ()"
      "ob_unit_id ob = nb_runtime_unit_id b" "ob_generation ob = nb_runtime_generation b"
      "ob_provider_resource_id ob \<noteq> None"
    using bind_observation_writes [OF assms(1)] by metis
  have wf: "btree_wf (ev_claims e)"
    unfolding w(3) by (intro btree_wf_insert assms(2))
  have g: "btree_get (ev_claims e) runtime_resource_claim_id_key = Some (ext_uuid_display X (nb_claim_id b))"
      "btree_get (ev_claims e) runtime_resource_binding_digest_key = Some d"
    unfolding w(3) using reserved_keys_differ by (simp_all add: btree_get_insert)
  have i: "insert_exact_claim (ev_claims e) runtime_resource_claim_id_key
        (ext_uuid_display X (nb_claim_id b)) = Inr (ev_claims e)"
      "insert_exact_claim (ev_claims e) runtime_resource_binding_digest_key d = Inr (ev_claims e)"
    using g by (simp_all add: insert_exact_claim_Inr btree_insert_same [OF wf])
  from w(2,4-8) i show ?thesis
    by (simp add: node_binding_bind_observation_def w(1))
qed

lemma handshake_prepared:
  assumes "hash_laws X" and "uuid_laws X" and "claim_inv X c" and "rc_state c = ReservedInDb"
    and "claim_node_binding X c agent = Inr b" and "unat (rc_aggregate_version c) + 2 < 2 ^ 64"
    and "rc_updated_at c \<le> canonical_timestamp t1" and "t1 \<le> t2" and "timestamp_millis p_at > 0"
  shows "\<exists>c1 p c2. claim_begin_preparation c (flow_prepare_command_id X c) t1 = (c1, Inr ()) \<and>
    claim_prepared_new X (flow_prepare_request c1 b) p_at = Inr p \<and>
    claim_record_prepared c1 (flow_prepare_command_id X c) (pd_binding_digest p) t2 = (c2, Inr ()) \<and>
    claim_inv X c1 \<and> claim_inv X c2 \<and> rc_state c2 = PreparedOnAgent \<and>
    claim_identity c2 = claim_identity c \<and> rc_updated_at c2 = canonical_timestamp t2 \<and>
    rc_claim_generation c2 = rc_claim_generation c \<and>
    unat (rc_aggregate_version c2) = unat (rc_aggregate_version c) + 2"
proof -
  let ?i = "flow_prepare_command_id X c"
  have id: "?i \<noteq> 0"
    using assms(2) by (simp add: uuid_laws_def flow_prepare_command_id_def)
  have vb: "node_binding_validate b = Inr ()"
    using assms(5) by (auto simp: claim_node_binding_def Let_def)
  obtain c1 where c1: "claim_begin_preparation c ?i t1 = (c1, Inr ())" "rc_state c1 = PreparingOnAgent"
      "rc_prepare_command_id c1 = Some ?i" "rc_updated_at c1 = canonical_timestamp t1"
      "checked_add (rc_aggregate_version c) 1 = Some (rc_aggregate_version c1)"
      "rc_claim_generation c1 = rc_claim_generation c"
    using begin_preparation_succeeds [OF assms(4) id assms(7) below_max [OF assms(6)]] by auto
  have s1: "claim_step X c c1"
    unfolding claim_step_def by (rule claim_call.begin_preparation [OF c1(1)])
  have i1: "claim_inv X c1"
    by (rule claim_step_inv [OF s1 assms(1,3)])
  then have v1: "claim_validate X c1 = Inr ()"
    by (simp add: claim_inv_def)
  obtain p where p: "claim_prepared_new X (flow_prepare_request c1 b) p_at = Inr p"
      "is_sha256_digest (pd_binding_digest p)"
    using claim_prepared_new_ok [OF assms(1) flow_prepare_request_valid [OF v1 vb] assms(9)] by blast
  have n1: "unat (rc_aggregate_version c1) = unat (rc_aggregate_version c) + 1"
    using checked_inc_unat [OF c1(5)] by simp
  have "rc_aggregate_version c1 \<noteq> - 1" and "rc_updated_at c1 \<le> canonical_timestamp t2"
    using below_max [of "rc_aggregate_version c1" 1] n1 assms(6) c1(4) canonical_timestamp_mono [OF assms(8)]
    by simp_all
  then obtain c2 where c2: "claim_record_prepared c1 ?i (pd_binding_digest p) t2 = (c2, Inr ())"
      "rc_state c2 = PreparedOnAgent" "rc_updated_at c2 = canonical_timestamp t2"
      "checked_add (rc_aggregate_version c1) 1 = Some (rc_aggregate_version c2)"
      "rc_claim_generation c2 = rc_claim_generation c1"
    using record_prepared_succeeds [OF c1(2,3) p(2)] by blast
  have s2: "claim_step X c1 c2"
    unfolding claim_step_def by (rule claim_call.record_prepared [OF c2(1)])
  have "unat (rc_aggregate_version c2) = unat (rc_aggregate_version c) + 2"
    using checked_inc_unat [OF c2(4)] n1 by simp
  then show ?thesis
    using c1 c2 p i1 claim_step_inv [OF s2 assms(1) i1] claim_step_identity [OF s1] claim_step_identity [OF s2]
    by (intro exI conjI) (assumption | simp)+
qed

lemma handshake_released:
  assumes "hash_laws X" and "uuid_laws X" and "claim_inv X c" and "rc_state c = PreparedOnAgent"
    and "claim_node_binding X c agent = Inr b" and "unat (rc_aggregate_version c) + 2 < 2 ^ 64"
    and "rc_claim_generation c \<noteq> - 1" and "rc_updated_at c \<le> canonical_timestamp t3" and "t3 \<le> t4"
    and "timestamp_millis r_at > 0" and "r_at \<le> t4"
  shows "\<exists>c3 r e c4.
    claim_begin_release X c (flow_release_command_id X c (rc_claim_generation c + 1)) t3 = (c3, Inr ()) \<and>
    claim_node_binding X c3 agent = Inr b \<and>
    claim_released_new X (flow_release_request c3 b) r_at = Inr r \<and>
    flow_release_evidence X (flow_release_command_id X c (rc_claim_generation c + 1)) r = Inr e \<and>
    claim_record_released c3 e t4 = (c4, Inr ()) \<and>
    rc_state c4 = ClaimReleased \<and> claim_inv X c3 \<and> claim_inv X c4"
proof -
  let ?j = "flow_release_command_id X c (rc_claim_generation c + 1)"
  have id: "?j \<noteq> 0"
    using assms(2) by (simp add: uuid_laws_def flow_release_command_id_def)
  have vb: "node_binding_validate b = Inr ()" and bs: "nb_slots b = rc_slots c"
    using assms(5) by (auto simp: claim_node_binding_def Let_def)
  obtain c3 where c3: "claim_begin_release X c ?j t3 = (c3, Inr ())" "rc_state c3 = ClaimReleasing"
      "rc_release_command_id c3 = Some ?j" "rc_updated_at c3 = canonical_timestamp t3"
      "checked_add (rc_aggregate_version c) 1 = Some (rc_aggregate_version c3)"
    using begin_release_succeeds [OF assms(4) id assms(8) below_max [OF assms(6)] assms(7,1)] by auto
  have s3: "claim_step X c c3"
    unfolding claim_step_def by (rule claim_call.begin_release [OF c3(1)])
  have i3: "claim_inv X c3"
    by (rule claim_step_inv [OF s3 assms(1,3)])
  have v: "claim_validate X c = Inr ()" and v3: "claim_validate X c3 = Inr ()"
    using i3 assms(3) by (simp_all add: claim_inv_def)
  obtain r where r: "claim_released_new X (flow_release_request c3 b) r_at = Inr r" "rd_released_at r = r_at"
      "rd_slots r = map slot_binding_evidence (nb_slots b)" "claim_released_validate r = Inr ()"
    using claim_released_new_ok [OF assms(1) flow_release_request_valid [OF v3 vb] assms(10)]
    by (auto simp: flow_release_request_def)
  obtain d where d: "flow_release_evidence X ?j r = Inr (AgentReleased ?j (rd_slots r) d r_at)"
      "is_sha256_digest d"
    using flow_release_evidence_ok [OF assms(1) r(4)] r(2) by metis
  have slots: "rd_slots r = claim_slot_evidence c3" "validate_slot_bindings (rc_slots c3) = Inr ()"
    using r(3) bs claim_step_identity [OF s3] v3
    by (simp_all add: claim_slot_evidence_def claim_identity_def claim_validate_ok claim_static_def)
  have "rc_aggregate_version c3 \<noteq> - 1" and "rc_updated_at c3 \<le> canonical_timestamp t4"
    using below_max [of "rc_aggregate_version c3" 1] checked_inc_unat [OF c3(5)] assms(6) c3(4)
      canonical_timestamp_mono [OF assms(9)] by simp_all
  then obtain c4 where c4: "claim_record_released c3 (AgentReleased ?j (rd_slots r) d r_at) t4 = (c4, Inr ())"
      "rc_state c4 = ClaimReleased"
    using agent_release_recorded [OF c3(2,3) id slots(2) d(2) _ _ assms(10,11)] slots(1) by auto
  have s4: "claim_step X c3 c4"
    unfolding claim_step_def by (rule claim_call.record_released [OF c4(1)])
  have b3: "claim_node_binding X c3 agent = Inr b"
    using claim_node_binding_cong [OF claim_step_identity [OF s3] v v3] assms(5) by simp
  from c3(1) b3 r(1) d(1) c4 i3 claim_step_inv [OF s4 assms(1) i3] show ?thesis
    by blast
qed

section \<open>Properties\<close>


text \<open>
  The evidence validators accept exactly what the evidence constructors build: prepared and
  released evidence validates for a request if and only if constructing the evidence for that
  request at the stated time gives it back. Evidence of another claim, generation, digest, binding
  or slot set is refused.
\<close>

lemma agent_evidence_is_exact:
  "(claim_prepared_validate_for X p q = Inr () \<longleftrightarrow> claim_prepared_new X q (pd_prepared_at p) = Inr p) \<and>
   (claim_released_validate_for X p' q' = Inr () \<longleftrightarrow> claim_released_new X q' (rd_released_at p') = Inr p')"
  by (simp add: claim_prepared_exact claim_released_exact)


subsection \<open>Witnesses\<close>

definition sample_runtime :: runtime_contract where
  "sample_runtime = \<lparr>rt_validate_spec = (\<lambda>s. if us_unit_id s = [] then Inl ''unit'' else Inr ()),
     rt_spec_digest = (\<lambda>s. Inr sample_digest), rt_validate_apply = (\<lambda>q. Inr ()),
     rt_apply_schema = ''a3s.runtime.apply-request.v1'', rt_apply_json = aq_rest,
     rt_validate_action = (\<lambda>q. Inr ()), rt_action_json = ar_rest,
     rt_validate_observation = (\<lambda>ob. if ob_unit_id ob = [] then Inl ''unit'' else Inr ()),
     rt_observation_against = (\<lambda>ob s. if ob_unit_id ob = us_unit_id s then Inr () else Inl ''unit''),
     rt_validate_inspection = (\<lambda>i. Inr ()), rt_validate_removal = (\<lambda>r. Inr ()),
     rt_is_terminal = (\<lambda>s. s = ''stopped'')\<rparr>"

definition sample_node_binding :: node_binding where
  "sample_node_binding = \<lparr>nb_schema = node_binding_schema, nb_claim_id = 40, nb_node_id = 7,
     nb_agent_instance_id = 8, nb_inventory_generation = 1, nb_inventory_digest = sample_digest,
     nb_runtime_unit_id = ''unit'', nb_runtime_generation = 1, nb_topology_digest = sample_digest,
     nb_slots = sample_bindings\<rparr>"

definition sample_observation :: observation where
  "sample_observation = \<lparr>ob_unit_id = ''unit'', ob_generation = 1, ob_state = ''running'',
     ob_provider_resource_id = Some ''vm'', ob_provider_build = None, ob_spec_digest = sample_digest,
     ob_evidence = None, ob_rest = JNull\<rparr>"

lemma sample_node_binding_valid: "node_binding_validate sample_node_binding = Inr ()"
  using contract_accepts_digest [OF sample_digest_valid] sample_bindings_valid
  by (simp add: node_binding_validate_def sample_node_binding_def validate_uuid_def
      validate_single_line_def contains_any_def ws1_def ws2_def ws3_def)



end
