(* ===== verification/Node_Command.thy ===== *)
theory Node_Command
  imports Node_Claim
begin

text \<open>
  Node commands and their acknowledgements, \<open>contracts/src/node/command.rs\<close>: the payloads, the
  envelope the control plane sends, the result and the acknowledgement the agent returns, and the
  checks both sides run on them. The commands that touch resource claims and Runtime units are
  modelled in full. The fifteen other kinds (gateway, box build, plugin host, agent provider, code
  agent, durable cell) are the constructor \<open>OtherCommand\<close> with the document of the command, and
  their own checks are the functions of the record \<open>other_commands\<close>, of the envelope's fields that
  they read (node, aggregate, issue and expiry times; command and node; acknowledgement schema,
  issue and completion times); what is proved holds for every choice of them.
\<close>

section \<open>Payloads and envelopes\<close>

datatype payload =
    ResourceClaimPrepare claim_prepare
  | RuntimeApply apply_request "node_binding option"
  | RuntimeInspect string u64
  | RuntimeStop action_request
  | RuntimeRemove action_request
  | ResourceClaimRelease claim_release
  | OtherCommand json

record command_metadata =
  cm_command_id :: uuid
  cm_lease_id :: uuid
  cm_node_id :: uuid
  cm_sequence :: u64
  cm_aggregate_id :: uuid
  cm_issued_at :: timestamp
  cm_not_after :: timestamp
  cm_correlation_id :: uuid

record envelope =
  ce_schema :: string
  ce_command_id :: uuid
  ce_lease_id :: uuid
  ce_node_id :: uuid
  ce_sequence :: u64
  ce_aggregate_id :: uuid
  ce_generation :: u64
  ce_payload_schema :: string
  ce_payload_digest :: string
  ce_issued_at :: timestamp
  ce_not_after :: timestamp
  ce_correlation_id :: uuid
  ce_payload :: payload

datatype command_result =
    ResourceClaimPrepared claim_prepared
  | RuntimeApplied observation
  | RuntimeInspected inspection
  | RuntimeStopped inspection
  | RuntimeRemoved removal
  | ResourceClaimReleased claim_released
  | OtherResult json

record command_failure =
  cf_code :: string
  cf_message :: string
  cf_retryable :: bool

datatype outcome =
    Succeeded command_result
  | Rejected command_failure
  | Failed command_failure

record command_ack =
  ak_schema :: string
  ak_command_id :: uuid
  ak_lease_id :: uuid
  ak_node_id :: uuid
  ak_sequence :: u64
  ak_payload_digest :: string
  ak_completed_at :: timestamp
  ak_outcome :: outcome

record ack_receipt =
  rp_schema :: string
  rp_command_id :: uuid
  rp_node_id :: uuid
  rp_replayed :: bool

text \<open>
  The events of a journal that the projections of agent runs read: an accepted command of one of the
  other kinds and the removal of a Runtime unit.
\<close>

datatype run_event = RunAccepted json json | RunUnitRemoved string u64

record other_commands =
  oc_schema :: "json \<Rightarrow> string"
  oc_generation :: "json \<Rightarrow> u64"
  oc_validate :: "json \<Rightarrow> (string, unit) result"
  oc_validate_envelope :: "uuid \<Rightarrow> uuid \<Rightarrow> timestamp \<Rightarrow> timestamp \<Rightarrow> json \<Rightarrow> (string, unit) result"
  oc_state_digest :: "json \<Rightarrow> (string, string option) result"
  oc_validate_result :: "json \<Rightarrow> (string, unit) result"
  oc_result_against :: "uuid \<Rightarrow> uuid \<Rightarrow> json \<Rightarrow> json \<Rightarrow> (string, unit) result"
  oc_validate_ack :: "string \<Rightarrow> timestamp \<Rightarrow> timestamp \<Rightarrow> json \<Rightarrow> json \<Rightarrow> (string, unit) result"
  oc_evidence_at :: "json \<Rightarrow> timestamp option"
  oc_code_runs :: "run_event list \<Rightarrow> (string, json) result"
  oc_provider_runs :: "run_event list \<Rightarrow> (string, json) result"

record protocol =
  px :: externals
  pr :: runtime_contract
  po :: other_commands

datatype command_error =
    CommandClaim node_claim_error
  | CommandRuntime string
  | CommandOther string
  | CommandSchema string
  | CommandNumbers
  | CommandExpiry
  | CommandIdentity
  | CommandGeneration
  | CommandPayloadSchema
  | CommandPayloadDigest
  | CommandEncoding
  | InspectGeneration
  | ResultIdentity
  | ResultKind
  | InspectionIdentity
  | AckSchema string
  | AckIdentity
  | AckPredates
  | AckEvidenceTime
  | AckOutdatedSchema

abbreviation command_uuid :: "string \<Rightarrow> uuid \<Rightarrow> (command_error, unit) result" where
  "command_uuid label u \<equiv> map_err (CommandClaim \<circ> NodeResource) (validate_uuid label u)"

section \<open>Payload methods\<close>

fun payload_schema :: "protocol \<Rightarrow> payload \<Rightarrow> string" where
  "payload_schema P (ResourceClaimPrepare q) = claim_prepare_schema"
| "payload_schema P (RuntimeApply q (Some b)) = ''a3s.cloud.runtime-resource-bound-apply.v1''"
| "payload_schema P (RuntimeApply q None) = rt_apply_schema (pr P)"
| "payload_schema P (RuntimeInspect u g) = ''a3s.runtime.inspect-request.v1''"
| "payload_schema P (RuntimeStop q) = ''a3s.runtime.stop-request.v1''"
| "payload_schema P (RuntimeRemove q) = ''a3s.runtime.remove-request.v1''"
| "payload_schema P (ResourceClaimRelease q) = claim_release_schema"
| "payload_schema P (OtherCommand d) = oc_schema (po P) d"

fun payload_generation :: "protocol \<Rightarrow> payload \<Rightarrow> u64" where
  "payload_generation P (ResourceClaimPrepare q) = pq_claim_generation q"
| "payload_generation P (RuntimeApply q b) = us_generation (aq_spec q)"
| "payload_generation P (RuntimeInspect u g) = g"
| "payload_generation P (RuntimeStop q) = ar_generation q"
| "payload_generation P (RuntimeRemove q) = ar_generation q"
| "payload_generation P (ResourceClaimRelease q) = rq_claim_generation q"
| "payload_generation P (OtherCommand d) = oc_generation (po P) d"

fun payload_validate :: "protocol \<Rightarrow> payload \<Rightarrow> (command_error, unit) result" where
  "payload_validate P (ResourceClaimPrepare q) = map_err CommandClaim (claim_prepare_validate q)"
| "payload_validate P (RuntimeApply q b) =
     and_then (map_err CommandRuntime (rt_validate_apply (pr P) q)) (\<lambda>_.
     case b of
       Some b \<Rightarrow> map_err CommandClaim (node_binding_validate_runtime_spec (pr P) b (aq_spec q))
     | None \<Rightarrow> Inr ())"
| "payload_validate P (RuntimeInspect u g) =
     and_then (map_err CommandClaim (validate_single_line ''Runtime unit ID'' u 512)) (\<lambda>_.
     if g = 0 then Inl InspectGeneration else Inr ())"
| "payload_validate P (RuntimeStop q) = map_err CommandRuntime (rt_validate_action (pr P) q)"
| "payload_validate P (RuntimeRemove q) = map_err CommandRuntime (rt_validate_action (pr P) q)"
| "payload_validate P (ResourceClaimRelease q) = map_err CommandClaim (claim_release_validate q)"
| "payload_validate P (OtherCommand d) = map_err CommandOther (oc_validate (po P) d)"

definition claim_prepare_json :: "claim_prepare \<Rightarrow> json" where
  "claim_prepare_json q = JObj
     [(''schema'', JStr (pq_schema q)), (''claim_generation'', JNum (unat (pq_claim_generation q))),
      (''claim_digest'', JStr (pq_claim_digest q)), (''binding'', node_binding_json (pq_binding q))]"

definition claim_release_json :: "claim_release \<Rightarrow> json" where
  "claim_release_json q = JObj
     [(''schema'', JStr (rq_schema q)), (''claim_generation'', JNum (unat (rq_claim_generation q))),
      (''claim_digest'', JStr (rq_claim_digest q)), (''binding'', node_binding_json (rq_binding q))]"

fun payload_json :: "protocol \<Rightarrow> payload \<Rightarrow> json" where
  "payload_json P (ResourceClaimPrepare q) = JObj
     [(''kind'', JStr ''resource_claim_prepare''), (''request'', claim_prepare_json q)]"
| "payload_json P (RuntimeApply q b) = JObj
     ([(''kind'', JStr ''runtime_apply''), (''request'', rt_apply_json (pr P) q)] @
      (case b of None \<Rightarrow> [] | Some b \<Rightarrow> [(''resource_claim'', node_binding_json b)]))"
| "payload_json P (RuntimeInspect u g) = JObj
     [(''kind'', JStr ''runtime_inspect''), (''unit_id'', JStr u), (''generation'', JNum (unat g))]"
| "payload_json P (RuntimeStop q) = JObj
     [(''kind'', JStr ''runtime_stop''), (''request'', rt_action_json (pr P) q)]"
| "payload_json P (RuntimeRemove q) = JObj
     [(''kind'', JStr ''runtime_remove''), (''request'', rt_action_json (pr P) q)]"
| "payload_json P (ResourceClaimRelease q) = JObj
     [(''kind'', JStr ''resource_claim_release''), (''request'', claim_release_json q)]"
| "payload_json P (OtherCommand d) = d"

definition payload_digest :: "protocol \<Rightarrow> payload \<Rightarrow> (command_error, string) result" where
  "payload_digest P p =
     and_then (payload_validate P p) (\<lambda>_. ok_or CommandEncoding (sha256_of_json (px P) (payload_json P p)))"

section \<open>Envelopes\<close>

definition envelope_schema :: string where
  "envelope_schema = ''a3s.cloud.node-command.v1''"

text \<open>The two matches of \<open>validate\<close> on the payload: what it must agree with in the envelope.\<close>

fun envelope_identity :: "protocol \<Rightarrow> envelope \<Rightarrow> payload \<Rightarrow> (command_error, unit) result" where
  "envelope_identity P e (ResourceClaimPrepare q) =
     (if ce_node_id e \<noteq> nb_node_id (pq_binding q) \<or> ce_aggregate_id e \<noteq> nb_claim_id (pq_binding q)
      then Inl CommandIdentity else Inr ())"
| "envelope_identity P e (RuntimeApply q (Some b)) =
     (if ce_node_id e \<noteq> nb_node_id b then Inl CommandIdentity else Inr ())"
| "envelope_identity P e (ResourceClaimRelease q) =
     (if ce_node_id e \<noteq> nb_node_id (rq_binding q) \<or> ce_aggregate_id e \<noteq> nb_claim_id (rq_binding q)
      then Inl CommandIdentity else Inr ())"
| "envelope_identity P e (OtherCommand d) =
     map_err CommandOther (oc_validate_envelope (po P) (ce_node_id e) (ce_aggregate_id e)
       (ce_issued_at e) (ce_not_after e) d)"
| "envelope_identity P e p = Inr ()"

definition envelope_validate :: "protocol \<Rightarrow> envelope \<Rightarrow> (command_error, unit) result" where
  "envelope_validate P e =
     (if ce_schema e \<noteq> envelope_schema then Inl (CommandSchema (ce_schema e))
      else
      and_then (command_uuid ''command_id'' (ce_command_id e)) (\<lambda>_.
      and_then (command_uuid ''lease_id'' (ce_lease_id e)) (\<lambda>_.
      and_then (command_uuid ''node_id'' (ce_node_id e)) (\<lambda>_.
      and_then (command_uuid ''aggregate_id'' (ce_aggregate_id e)) (\<lambda>_.
      and_then (command_uuid ''correlation_id'' (ce_correlation_id e)) (\<lambda>_.
      if ce_sequence e = 0 \<or> ce_generation e = 0 then Inl CommandNumbers
      else if ce_not_after e \<le> ce_issued_at e then Inl CommandExpiry
      else
      and_then (payload_validate P (ce_payload e)) (\<lambda>_.
      and_then (envelope_identity P e (ce_payload e)) (\<lambda>_.
      if ce_generation e \<noteq> payload_generation P (ce_payload e) then Inl CommandGeneration
      else if ce_payload_schema e \<noteq> payload_schema P (ce_payload e) then Inl CommandPayloadSchema
      else
      and_then (map_err (CommandClaim \<circ> NodeResource)
        (contract_validate_sha256 ''command payload digest'' (ce_payload_digest e))) (\<lambda>_.
      and_then (payload_digest P (ce_payload e)) (\<lambda>digest.
      if ce_payload_digest e \<noteq> digest then Inl CommandPayloadDigest else Inr ())))))))))) "

definition envelope_new ::
    "protocol \<Rightarrow> command_metadata \<Rightarrow> payload \<Rightarrow> (command_error, envelope) result" where
  "envelope_new P m p =
     and_then (payload_digest P p) (\<lambda>digest.
     let e = \<lparr>ce_schema = envelope_schema, ce_command_id = cm_command_id m,
              ce_lease_id = cm_lease_id m, ce_node_id = cm_node_id m, ce_sequence = cm_sequence m,
              ce_aggregate_id = cm_aggregate_id m, ce_generation = payload_generation P p,
              ce_payload_schema = payload_schema P p, ce_payload_digest = digest,
              ce_issued_at = cm_issued_at m, ce_not_after = cm_not_after m,
              ce_correlation_id = cm_correlation_id m, ce_payload = p\<rparr>
     in and_then (envelope_validate P e) (\<lambda>_. Inr e))"

definition envelope_is_expired_at :: "envelope \<Rightarrow> timestamp \<Rightarrow> bool" where
  "envelope_is_expired_at e now \<longleftrightarrow> now \<ge> ce_not_after e"

section \<open>Results and acknowledgements\<close>

fun result_validate :: "protocol \<Rightarrow> command_result \<Rightarrow> (command_error, unit) result" where
  "result_validate P (ResourceClaimPrepared p) = map_err CommandClaim (claim_prepared_validate p)"
| "result_validate P (RuntimeApplied ob) = map_err CommandRuntime (rt_validate_observation (pr P) ob)"
| "result_validate P (RuntimeInspected i) = map_err CommandRuntime (rt_validate_inspection (pr P) i)"
| "result_validate P (RuntimeStopped i) = map_err CommandRuntime (rt_validate_inspection (pr P) i)"
| "result_validate P (RuntimeRemoved r) = map_err CommandRuntime (rt_validate_removal (pr P) r)"
| "result_validate P (ResourceClaimReleased p) = map_err CommandClaim (claim_released_validate p)"
| "result_validate P (OtherResult d) = map_err CommandOther (oc_validate_result (po P) d)"

fun validate_inspection_identity ::
    "inspection \<Rightarrow> string \<Rightarrow> u64 \<Rightarrow> (command_error, unit) result" where
  "validate_inspection_identity (InspectionFound ob d) unit_id generation =
     (if ob_unit_id ob = unit_id \<and> ob_generation ob = generation then Inr ()
      else Inl InspectionIdentity)"
| "validate_inspection_identity (InspectionNotFound u d) unit_id generation =
     (if u = unit_id then Inr () else Inl InspectionIdentity)"

fun result_matches ::
    "protocol \<Rightarrow> envelope \<Rightarrow> payload \<Rightarrow> command_result \<Rightarrow> (command_error, unit) result" where
  "result_matches P e (ResourceClaimPrepare q) (ResourceClaimPrepared p) =
     map_err CommandClaim (claim_prepared_validate_for (px P) p q)"
| "result_matches P e (RuntimeApply q b) (RuntimeApplied ob) =
     and_then (map_err CommandRuntime (rt_observation_against (pr P) ob (aq_spec q))) (\<lambda>_.
     case b of
       Some b \<Rightarrow> map_err CommandClaim (node_binding_validate_observation (px P) (pr P) b ob)
     | None \<Rightarrow> Inr ())"
| "result_matches P e (RuntimeInspect u g) (RuntimeInspected i) = validate_inspection_identity i u g"
| "result_matches P e (RuntimeStop q) (RuntimeStopped i) =
     validate_inspection_identity i (ar_unit_id q) (ar_generation q)"
| "result_matches P e (RuntimeRemove q) (RuntimeRemoved r) =
     (if rm_request_id r = ar_request_id q \<and> rm_unit_id r = ar_unit_id q
         \<and> rm_generation r = ar_generation q
      then Inr () else Inl ResultIdentity)"
| "result_matches P e (ResourceClaimRelease q) (ResourceClaimReleased p) =
     map_err CommandClaim (claim_released_validate_for (px P) p q)"
| "result_matches P e (OtherCommand d) (OtherResult r) =
     map_err CommandOther (oc_result_against (po P) (ce_command_id e) (ce_node_id e) d r)"
| "result_matches P e p r = Inl ResultKind"

definition result_validate_against ::
    "protocol \<Rightarrow> envelope \<Rightarrow> command_result \<Rightarrow> (command_error, unit) result" where
  "result_validate_against P e r =
     and_then (result_validate P r) (\<lambda>_. result_matches P e (ce_payload e) r)"

definition failure_validate :: "command_failure \<Rightarrow> (command_error, unit) result" where
  "failure_validate f =
     and_then (map_err CommandClaim (validate_single_line ''command failure code'' (cf_code f) 127)) (\<lambda>_.
     map_err CommandClaim (validate_single_line ''command failure message'' (cf_message f) (16 * 1024)))"

fun outcome_validate :: "protocol \<Rightarrow> outcome \<Rightarrow> (command_error, unit) result" where
  "outcome_validate P (Succeeded r) = result_validate P r"
| "outcome_validate P (Rejected f) = failure_validate f"
| "outcome_validate P (Failed f) = failure_validate f"

definition ack_schema :: string where
  "ack_schema = ''a3s.cloud.node-command-ack.v2''"

definition ack_legacy_schema :: string where
  "ack_legacy_schema = ''a3s.cloud.node-command-ack.v1''"

text \<open>The time of the evidence must fall inside the execution of the command.\<close>

definition evidence_time_within ::
    "timestamp \<Rightarrow> timestamp \<Rightarrow> timestamp \<Rightarrow> (command_error, unit) result" where
  "evidence_time_within issued completed at =
     (if at < issued \<or> at > completed then Inl AckEvidenceTime else Inr ())"

text \<open>The commands of which a successful acknowledgement must use the current schema.\<close>

fun requires_current_schema :: "payload \<Rightarrow> bool" where
  "requires_current_schema (ResourceClaimPrepare q) = True"
| "requires_current_schema (ResourceClaimRelease q) = True"
| "requires_current_schema (RuntimeApply q b) = (b \<noteq> None)"
| "requires_current_schema p = False"

definition ack_validate_success ::
    "protocol \<Rightarrow> command_ack \<Rightarrow> envelope \<Rightarrow> command_result \<Rightarrow> (command_error, unit) result" where
  "ack_validate_success P a e r =
     and_then (result_validate_against P e r) (\<lambda>_.
     and_then (case r of
         ResourceClaimPrepared p \<Rightarrow>
           evidence_time_within (ce_issued_at e) (ak_completed_at a) (pd_prepared_at p)
       | ResourceClaimReleased p \<Rightarrow>
           evidence_time_within (ce_issued_at e) (ak_completed_at a) (rd_released_at p)
       | _ \<Rightarrow> Inr ()) (\<lambda>_.
     if requires_current_schema (ce_payload e) \<and> ak_schema a \<noteq> ack_schema
     then Inl AckOutdatedSchema
     else
     case (ce_payload e, r) of
       (OtherCommand d, OtherResult x) \<Rightarrow>
         map_err CommandOther (oc_validate_ack (po P) (ak_schema a) (ce_issued_at e) (ak_completed_at a) d x)
     | _ \<Rightarrow> Inr ()))"

definition ack_validate_against ::
    "protocol \<Rightarrow> command_ack \<Rightarrow> envelope \<Rightarrow> (command_error, unit) result" where
  "ack_validate_against P a e =
     and_then (envelope_validate P e) (\<lambda>_.
     if ak_schema a \<noteq> ack_schema \<and> ak_schema a \<noteq> ack_legacy_schema then Inl (AckSchema (ak_schema a))
     else if ak_command_id a \<noteq> ce_command_id e \<or> ak_lease_id a \<noteq> ce_lease_id e
        \<or> ak_node_id a \<noteq> ce_node_id e \<or> ak_sequence a \<noteq> ce_sequence e
        \<or> ak_payload_digest a \<noteq> ce_payload_digest e
     then Inl AckIdentity
     else if ak_completed_at a < ce_issued_at e then Inl AckPredates
     else
     and_then (outcome_validate P (ak_outcome a)) (\<lambda>_.
     case ak_outcome a of Succeeded r \<Rightarrow> ack_validate_success P a e r | _ \<Rightarrow> Inr ()))"

definition receipt_schema :: string where
  "receipt_schema = ''a3s.cloud.node-command-ack-receipt.v1''"

definition receipt_validate :: "ack_receipt \<Rightarrow> (command_error, unit) result" where
  "receipt_validate r =
     (if rp_schema r \<noteq> receipt_schema then Inl (CommandSchema (rp_schema r))
      else
      and_then (command_uuid ''command_id'' (rp_command_id r)) (\<lambda>_.
      command_uuid ''node_id'' (rp_node_id r)))"

end
