(* ===== verification/Command_Journal.thy ===== *)
theory Command_Journal
  imports Node_Command
begin

text \<open>
  The agent's durable command journal, \<open>node-agent/src/journal.rs\<close>: the journal document with its
  validation and the projection of resource claims over its entries, and the operations of
  \<open>FileCommandJournal\<close> on the journal file. The file holds a document or is absent; an operation
  takes the file and returns the file after the call with its result. What the file system does is
  an argument: opening the directory, the lock or the file may fail, and \<open>atomic_write\<close> of
  \<open>state_file.rs\<close> (a temporary file, a rename, then a sync of the directory) may report a failure
  with the old document in place or, when only the last sync failed, with the new one.
\<close>

section \<open>The journal document\<close>

record completion =
  jc_completed_at :: timestamp
  jc_outcome :: outcome

record entry =
  je_envelope :: envelope
  je_completion :: "completion option"
  je_acknowledged :: bool

record aggregate_generation =
  ag_generation :: u64
  ag_state_digest :: string

record journal =
  cj_schema :: string
  cj_node_id :: uuid
  cj_last_received :: u64
  cj_last_acknowledged :: u64
  cj_aggregate_generations :: "(uuid, aggregate_generation) btree_map"
  cj_entries :: "(uuid, entry) btree_map"

datatype journal_reason =
    JrCommand command_error
  | JrClaim node_claim_error
  | JrRuntime string
  | JrOther string
  | JrSchemaOrNode
  | JrAcknowledgedExceeds
  | JrEntryIdentity
  | JrEmptyHasEntries
  | JrSequenceGap
  | JrAcknowledgement
  | JrGenerationInvalid
  | JrEntryDisappeared
  | JrSequenceOverflowed
  | JrNoAcknowledgement
  | JrOtherNode
  | JrRedelivered
  | JrSequenceOrder
  | JrGenerationRegresses
  | JrGenerationConflict
  | JrNotJournaled
  | JrOutcomeChanged
  | JrReceiptUnknown
  | JrNotCompleted
  | JrReleaseUnprepared
  | JrUnknownClaim
  | JrRuntimeBoundTwice
  | JrPreparedTwice
  | JrExclusiveTwice string
  | JrBindingChanged
  | JrNoPreparedClaim
  | JrUnboundApply
  | JrReleaseMismatch
  | JrAlreadyReleased
  | JrReleaseUnfenced
  | JrPrepareChanged
  | JrReleaseRegressed

datatype journal_error =
    JournalInvalid journal_reason
  | JournalConflict journal_reason
  | JournalStorage

abbreviation invalid_command :: "(command_error, 'a) result \<Rightarrow> (journal_error, 'a) result" where
  "invalid_command r \<equiv> map_err (JournalInvalid \<circ> JrCommand) r"

abbreviation invalid_claim :: "(node_claim_error, 'a) result \<Rightarrow> (journal_error, 'a) result" where
  "invalid_claim r \<equiv> map_err (JournalInvalid \<circ> JrClaim) r"

abbreviation entry_sequence :: "entry \<Rightarrow> u64" where
  "entry_sequence e \<equiv> ce_sequence (je_envelope e)"

definition entry_acknowledgement ::
    "protocol \<Rightarrow> entry \<Rightarrow> (journal_error, command_ack option) result" where
  "entry_acknowledgement P e =
     (case je_completion e of
        None \<Rightarrow> Inr None
      | Some c \<Rightarrow>
          let v = je_envelope e;
              a = \<lparr>ak_schema = ack_schema, ak_command_id = ce_command_id v, ak_lease_id = ce_lease_id v,
                   ak_node_id = ce_node_id v, ak_sequence = ce_sequence v,
                   ak_payload_digest = ce_payload_digest v, ak_completed_at = jc_completed_at c,
                   ak_outcome = jc_outcome c\<rparr>
          in and_then (invalid_command (ack_validate_against P a v)) (\<lambda>_. Inr (Some a)))"

section \<open>The projection of resource claims\<close>

record projected =
  pj_binding :: node_binding
  pj_prepare_generation :: u64
  pj_prepare_digest :: string
  pj_latest_generation :: u64
  pj_prepare_terminal :: bool
  pj_active :: bool
  pj_bound :: bool
  pj_runtime_fenced :: bool
  pj_released :: bool

type_synonym projection = "(uuid, projected) btree_map"

definition projected_new :: "claim_prepare \<Rightarrow> projected" where
  "projected_new q =
     \<lparr>pj_binding = pq_binding q, pj_prepare_generation = pq_claim_generation q,
      pj_prepare_digest = pq_claim_digest q, pj_latest_generation = pq_claim_generation q,
      pj_prepare_terminal = False, pj_active = False, pj_bound = False, pj_runtime_fenced = False,
      pj_released = False\<rparr>"

definition register_prepare :: "projected \<Rightarrow> claim_prepare \<Rightarrow> (journal_error, unit) result" where
  "register_prepare p q =
     and_then (invalid_claim (claim_prepare_validate q)) (\<lambda>_.
     if pj_binding p \<noteq> pq_binding q \<or> pj_prepare_generation p \<noteq> pq_claim_generation q
        \<or> pj_prepare_digest p \<noteq> pq_claim_digest q
     then Inl (JournalConflict JrPrepareChanged) else Inr ())"

definition register_release :: "projected \<Rightarrow> claim_release \<Rightarrow> (journal_error, projected) result" where
  "register_release p q =
     and_then (invalid_claim (claim_release_validate q)) (\<lambda>_.
     if pj_binding p \<noteq> rq_binding q \<or> rq_claim_generation q \<le> pj_prepare_generation p
        \<or> rq_claim_generation q < pj_latest_generation p
     then Inl (JournalConflict JrReleaseRegressed)
     else Inr (p\<lparr>pj_latest_generation := rq_claim_generation q\<rparr>))"

definition same_runtime :: "projected \<Rightarrow> string \<Rightarrow> u64 \<Rightarrow> bool" where
  "same_runtime p unit_id generation \<longleftrightarrow>
     nb_runtime_unit_id (pj_binding p) = unit_id \<and> nb_runtime_generation (pj_binding p) = generation"

definition candidate_conflict ::
    "node_binding \<Rightarrow> projected \<Rightarrow> (journal_error, unit) result" where
  "candidate_conflict b candidate =
     (if nb_claim_id (pj_binding candidate) = nb_claim_id b then Inl (JournalInvalid JrPreparedTwice)
      else try_for_each (\<lambda>requested.
        if is_shared_capacity (sb_kind requested) then Inr ()
        else if list_ex (\<lambda>slot. sb_key slot = sb_key requested) (nb_slots (pj_binding candidate))
        then Inl (JournalInvalid (JrExclusiveTwice (sb_stable_resource_id requested)))
        else Inr ()) (nb_slots b))"

definition activate_prepared ::
    "projection \<Rightarrow> claim_prepare \<Rightarrow> (journal_error, projection) result" where
  "activate_prepared m q =
     (let b = pq_binding q in
      if list_ex (\<lambda>candidate. pj_active candidate
           \<and> nb_claim_id (pj_binding candidate) \<noteq> nb_claim_id b
           \<and> same_runtime candidate (nb_runtime_unit_id b) (nb_runtime_generation b)) (btree_values m)
      then Inl (JournalInvalid JrRuntimeBoundTwice)
      else
      and_then (try_for_each (candidate_conflict b) (filter pj_active (btree_values m))) (\<lambda>_.
      case btree_get m (nb_claim_id b) of
        None \<Rightarrow> Inl (JournalInvalid JrUnknownClaim)
      | Some p \<Rightarrow> Inr (btree_insert (nb_claim_id b) (p\<lparr>pj_active := True, pj_released := False\<rparr>) m)))"

definition mark_runtime_fenced :: "projection \<Rightarrow> string \<Rightarrow> u64 \<Rightarrow> projection" where
  "mark_runtime_fenced m unit_id generation =
     map (\<lambda>(k, p). (k, if pj_active p \<and> same_runtime p unit_id generation
                         then p\<lparr>pj_runtime_fenced := True\<rparr> else p)) m"

definition active_bindings :: "projection \<Rightarrow> node_binding list" where
  "active_bindings m = map pj_binding (filter pj_active (btree_values m))"

definition validate_runtime_apply ::
    "protocol \<Rightarrow> projection \<Rightarrow> runtime_spec \<Rightarrow> node_binding option \<Rightarrow> (journal_error, unit) result" where
  "validate_runtime_apply P m spec binding =
     and_then (map_err (JournalInvalid \<circ> JrRuntime) (rt_validate_spec (pr P) spec)) (\<lambda>_.
     let matching = find (\<lambda>p. pj_active p \<and> same_runtime p (us_unit_id spec) (us_generation spec))
                      (btree_values m)
     in case (binding, matching) of
          (Some b, Some p) \<Rightarrow>
            if pj_binding p = b then invalid_claim (node_binding_validate_runtime_spec (pr P) b spec)
            else Inl (JournalConflict JrBindingChanged)
        | (Some b, None) \<Rightarrow> Inl (JournalConflict JrNoPreparedClaim)
        | (None, Some p) \<Rightarrow> Inl (JournalConflict JrUnboundApply)
        | (None, None) \<Rightarrow> Inr ())"

definition validate_release :: "projection \<Rightarrow> claim_release \<Rightarrow> (journal_error, unit) result" where
  "validate_release m q =
     and_then (invalid_claim (claim_release_validate q)) (\<lambda>_.
     case btree_get m (nb_claim_id (rq_binding q)) of
       None \<Rightarrow> Inl (JournalConflict JrReleaseUnprepared)
     | Some p \<Rightarrow>
         if pj_binding p \<noteq> rq_binding q \<or> \<not> pj_prepare_terminal p
            \<or> rq_claim_generation q \<le> pj_prepare_generation p
            \<or> rq_claim_generation q \<noteq> pj_latest_generation p
            \<or> rq_claim_digest q = pj_prepare_digest p
         then Inl (JournalConflict JrReleaseMismatch)
         else if pj_released p then Inl (JournalConflict JrAlreadyReleased)
         else if pj_active p \<and> pj_bound p \<and> \<not> pj_runtime_fenced p
         then Inl (JournalConflict JrReleaseUnfenced)
         else Inr ())"

fun stopped_or_absent :: "protocol \<Rightarrow> inspection \<Rightarrow> bool" where
  "stopped_or_absent P (InspectionNotFound u d) = True"
| "stopped_or_absent P (InspectionFound ob d) = rt_is_terminal (pr P) (ob_state ob)"

text \<open>The two parts of \<open>apply\<close>: registering the command, then the effect of a successful result.\<close>

fun register_entry :: "projection \<Rightarrow> payload \<Rightarrow> bool \<Rightarrow> (journal_error, projection) result" where
  "register_entry m (ResourceClaimPrepare q) completed =
     (let k = nb_claim_id (pq_binding q);
          p = (case btree_get m k of Some p \<Rightarrow> p | None \<Rightarrow> projected_new q)
      in and_then (register_prepare p q) (\<lambda>_.
         Inr (btree_insert k (if completed then p\<lparr>pj_prepare_terminal := True\<rparr> else p) m)))"
| "register_entry m (ResourceClaimRelease q) completed =
     (case btree_get m (nb_claim_id (rq_binding q)) of
        None \<Rightarrow> Inl (JournalInvalid JrReleaseUnprepared)
      | Some p \<Rightarrow> and_then (register_release p q) (\<lambda>p.
          Inr (btree_insert (nb_claim_id (rq_binding q)) p m)))"
| "register_entry m p completed = Inr m"

fun apply_result ::
    "protocol \<Rightarrow> projection \<Rightarrow> payload \<Rightarrow> command_result \<Rightarrow> (journal_error, projection) result" where
  "apply_result P m (ResourceClaimPrepare q) (ResourceClaimPrepared p) =
     and_then (invalid_claim (claim_prepared_validate_for (px P) p q)) (\<lambda>_. activate_prepared m q)"
| "apply_result P m (RuntimeApply q (Some b)) (RuntimeApplied ob) =
     and_then (validate_runtime_apply P m (aq_spec q) (Some b)) (\<lambda>_.
     and_then (invalid_claim (node_binding_validate_observation (px P) (pr P) b ob)) (\<lambda>_.
     case btree_get m (nb_claim_id b) of
       None \<Rightarrow> Inl (JournalInvalid JrUnknownClaim)
     | Some p \<Rightarrow> Inr (btree_insert (nb_claim_id b) (p\<lparr>pj_bound := True, pj_runtime_fenced := False\<rparr>) m)))"
| "apply_result P m (RuntimeApply q None) (RuntimeApplied ob) =
     and_then (validate_runtime_apply P m (aq_spec q) None) (\<lambda>_. Inr m)"
| "apply_result P m (RuntimeStop q) (RuntimeStopped i) =
     (if stopped_or_absent P i then Inr (mark_runtime_fenced m (ar_unit_id q) (ar_generation q))
      else Inr m)"
| "apply_result P m (RuntimeRemove q) (RuntimeRemoved r) =
     Inr (mark_runtime_fenced m (ar_unit_id q) (ar_generation q))"
| "apply_result P m (ResourceClaimRelease q) (ResourceClaimReleased r) =
     and_then (validate_release m q) (\<lambda>_.
     and_then (invalid_claim (claim_released_validate_for (px P) r q)) (\<lambda>_.
     case btree_get m (nb_claim_id (rq_binding q)) of
       None \<Rightarrow> Inl (JournalInvalid JrUnknownClaim)
     | Some p \<Rightarrow> Inr (btree_insert (nb_claim_id (rq_binding q))
         (p\<lparr>pj_active := False, pj_released := True\<rparr>) m)))"
| "apply_result P m p r = Inr m"

definition succeeded :: "entry \<Rightarrow> command_result option" where
  "succeeded e =
     (case je_completion e of
        None \<Rightarrow> None
      | Some c \<Rightarrow> (case jc_outcome c of Succeeded r \<Rightarrow> Some r | _ \<Rightarrow> None))"

definition projection_apply ::
    "protocol \<Rightarrow> projection \<Rightarrow> entry \<Rightarrow> (journal_error, projection) result" where
  "projection_apply P m e =
     and_then (register_entry m (ce_payload (je_envelope e)) (je_completion e \<noteq> None)) (\<lambda>m.
     case succeeded e of
       None \<Rightarrow> Inr m
     | Some r \<Rightarrow> apply_result P m (ce_payload (je_envelope e)) r)"

definition entries_in_order :: "journal \<Rightarrow> entry list" where
  "entries_in_order j = sort_key entry_sequence (btree_values (cj_entries j))"

definition resource_claim_projection :: "protocol \<Rightarrow> journal \<Rightarrow> (journal_error, projection) result" where
  "resource_claim_projection P j = try_fold (projection_apply P) [] (entries_in_order j)"

text \<open>
  What the projections of \<open>code_run_journal.rs\<close> and \<open>provider_run_journal.rs\<close> read, entry by entry;
  the projections themselves are parameters.
\<close>

fun run_event_of :: "payload \<Rightarrow> command_result \<Rightarrow> run_event option" where
  "run_event_of (OtherCommand d) (OtherResult r) = Some (RunAccepted d r)"
| "run_event_of (RuntimeRemove q) (RuntimeRemoved r) =
     (if rm_unit_id r = ar_unit_id q \<and> rm_generation r = ar_generation q
      then Some (RunUnitRemoved (ar_unit_id q) (ar_generation q)) else None)"
| "run_event_of p r = None"

definition run_events :: "journal \<Rightarrow> run_event list" where
  "run_events j = List.map_filter (\<lambda>e.
     case succeeded e of None \<Rightarrow> None | Some r \<Rightarrow> run_event_of (ce_payload (je_envelope e)) r)
     (entries_in_order j)"

section \<open>Validation\<close>

definition journal_schema :: string where
  "journal_schema = ''a3s.cloud.node-command-journal.v1''"

definition journal_empty :: "uuid \<Rightarrow> journal" where
  "journal_empty node_id =
     \<lparr>cj_schema = journal_schema, cj_node_id = node_id, cj_last_received = 0,
      cj_last_acknowledged = 0, cj_aggregate_generations = [], cj_entries = []\<rparr>"

text \<open>\<open>is_sha256\<close> of the file.\<close>

definition journal_is_sha256 :: "string \<Rightarrow> bool" where
  "journal_is_sha256 v =
     (case strip_prefix ''sha256:'' v of
        None \<Rightarrow> False
      | Some hex \<Rightarrow> length hex = 64 \<and> list_all ascii_hexdigit hex)"

definition acknowledged_by_sequence :: "journal \<Rightarrow> (u64, bool) btree_map" where
  "acknowledged_by_sequence j =
     fold (\<lambda>e m. btree_insert (entry_sequence e) (je_acknowledged e) m) (btree_values (cj_entries j)) []"

text \<open>
  The loop of \<open>contiguous_acknowledged_sequence\<close>. At \<open>u64::MAX\<close> the sum wraps to 0, which is no
  command's sequence, and the loop ends.
\<close>

function contiguous_from :: "(u64, bool) btree_map \<Rightarrow> u64 \<Rightarrow> u64" where
  "contiguous_from m sequence =
     (case checked_add sequence 1 of
        None \<Rightarrow> sequence
      | Some n \<Rightarrow> if btree_get m n = Some True then contiguous_from m n else sequence)"
  by pat_completeness auto

termination
proof (relation "measure (\<lambda>(m, s). 2 ^ 64 - unat s)")
  fix m :: "(u64, bool) btree_map" and s n :: u64
  assume "checked_add s 1 = Some n"
  then have "unat n = unat s + 1" and "unat s + 1 < 2 ^ 64"
    using checked_inc_unat [of s n] by (auto simp: checked_add_Some)
  then show "((m, n), (m, s)) \<in> measure (\<lambda>(m, s). 2 ^ 64 - unat s)"
    by simp
qed simp

declare contiguous_from.simps [simp del]

definition contiguous_acknowledged_sequence :: "journal \<Rightarrow> u64" where
  "contiguous_acknowledged_sequence j = contiguous_from (acknowledged_by_sequence j) 0"

fun validate_entries ::
    "protocol \<Rightarrow> uuid \<Rightarrow> u64 list \<Rightarrow> (uuid \<times> entry) list \<Rightarrow> (journal_error, u64 list) result" where
  "validate_entries P node_id sequences [] = Inr sequences"
| "validate_entries P node_id sequences ((command_id, e) # es) =
     and_then (invalid_command (envelope_validate P (je_envelope e))) (\<lambda>_.
     if command_id \<noteq> ce_command_id (je_envelope e) \<or> ce_node_id (je_envelope e) \<noteq> node_id
        \<or> entry_sequence e \<in> set sequences \<or> je_acknowledged e \<and> je_completion e = None
     then Inl (JournalInvalid JrEntryIdentity)
     else
     and_then (entry_acknowledgement P e) (\<lambda>_.
     validate_entries P node_id (entry_sequence e # sequences) es))"

definition journal_validate :: "protocol \<Rightarrow> journal \<Rightarrow> (journal_error, unit) result" where
  "journal_validate P j =
     (if cj_schema j \<noteq> journal_schema \<or> is_nil (cj_node_id j) then Inl (JournalInvalid JrSchemaOrNode)
      else if cj_last_acknowledged j > cj_last_received j then Inl (JournalInvalid JrAcknowledgedExceeds)
      else
      and_then (validate_entries P (cj_node_id j) [] (cj_entries j)) (\<lambda>sequences.
      let sequences = sort sequences in
      and_then
        (if cj_last_received j = 0 then
           (if cj_entries j \<noteq> [] then Inl (JournalInvalid JrEmptyHasEntries) else Inr ())
         else if length sequences \<noteq> unat (cj_last_received j) \<or> sequences = []
            \<or> hd sequences \<noteq> 1 \<or> last sequences \<noteq> cj_last_received j
         then Inl (JournalInvalid JrSequenceGap) else Inr ()) (\<lambda>_.
      if contiguous_acknowledged_sequence j \<noteq> cj_last_acknowledged j
      then Inl (JournalInvalid JrAcknowledgement)
      else
      and_then (try_for_each (\<lambda>g.
          if ag_generation g = 0 \<or> \<not> journal_is_sha256 (ag_state_digest g)
          then Inl (JournalInvalid JrGenerationInvalid) else Inr ())
        (btree_values (cj_aggregate_generations j))) (\<lambda>_.
      and_then (resource_claim_projection P j) (\<lambda>_.
      and_then (map_err (JournalInvalid \<circ> JrOther) (oc_code_runs (po P) (run_events j))) (\<lambda>_.
      and_then (map_err (JournalInvalid \<circ> JrOther) (oc_provider_runs (po P) (run_events j))) (\<lambda>_.
      Inr ())))))))"

section \<open>The journal file\<close>

datatype write_outcome = Written | WriteFailedBefore | WriteFailedAfter

record io =
  io_open :: "journal_error option"
  io_write :: write_outcome

type_synonym journal_file = "journal option"

type_synonym 'a file_call = "(journal_file, journal_error, 'a) mutation"

datatype decision = Execute | Replay command_ack

definition read_journal ::
    "protocol \<Rightarrow> uuid \<Rightarrow> io \<Rightarrow> journal_file \<Rightarrow> (journal_error, journal) result" where
  "read_journal P node_id io file =
     (case io_open io of
        Some e \<Rightarrow> Inl e
      | None \<Rightarrow>
          let j = (case file of Some j \<Rightarrow> j | None \<Rightarrow> journal_empty node_id) in
          if cj_node_id j \<noteq> node_id then Inl (JournalConflict JrOtherNode)
          else and_then (journal_validate P j) (\<lambda>_. Inr j))"

definition write_journal :: "io \<Rightarrow> journal_file \<Rightarrow> journal \<Rightarrow> unit file_call" where
  "write_journal io file j =
     (case io_write io of
        Written \<Rightarrow> (Some j, Inr ())
      | WriteFailedBefore \<Rightarrow> (file, Inl JournalStorage)
      | WriteFailedAfter \<Rightarrow> (Some j, Inl JournalStorage))"

text \<open>\<open>journal.validate()?; self.write_journal(&journal)?; Ok(value)\<close>.\<close>

definition commit_journal :: "protocol \<Rightarrow> io \<Rightarrow> journal_file \<Rightarrow> journal \<Rightarrow> 'a \<Rightarrow> 'a file_call" where
  "commit_journal P io file j v =
     (case journal_validate P j of
        Inl e \<Rightarrow> (file, Inl e)
      | Inr _ \<Rightarrow>
          (case write_journal io file j of
             (file, Inl e) \<Rightarrow> (file, Inl e)
           | (file, Inr _) \<Rightarrow> (file, Inr v)))"

fun state_mutation_digest :: "protocol \<Rightarrow> payload \<Rightarrow> (journal_error, string option) result" where
  "state_mutation_digest P (ResourceClaimPrepare q) =
     and_then (invalid_claim (claim_prepare_validate q)) (\<lambda>_. Inr (Some (pq_claim_digest q)))"
| "state_mutation_digest P (RuntimeApply q (Some b)) =
     and_then (invalid_command (payload_digest P (RuntimeApply q (Some b)))) (\<lambda>d. Inr (Some d))"
| "state_mutation_digest P (RuntimeApply q None) =
     and_then (map_err (JournalInvalid \<circ> JrRuntime) (rt_spec_digest (pr P) (aq_spec q))) (\<lambda>d. Inr (Some d))"
| "state_mutation_digest P (ResourceClaimRelease q) =
     and_then (invalid_claim (claim_release_validate q)) (\<lambda>_. Inr (Some (rq_claim_digest q)))"
| "state_mutation_digest P (OtherCommand d) = map_err (JournalInvalid \<circ> JrOther) (oc_state_digest (po P) d)"
| "state_mutation_digest P p = Inr None"

text \<open>The generation fence of \<open>begin\<close>: the generations after a state-changing command.\<close>

definition fence_generation ::
    "journal \<Rightarrow> envelope \<Rightarrow> string option
      \<Rightarrow> (journal_error, (uuid, aggregate_generation) btree_map) result" where
  "fence_generation j e state_digest =
     (let generations = cj_aggregate_generations j in
      case state_digest of
        None \<Rightarrow> Inr generations
      | Some digest \<Rightarrow>
          let update = btree_insert (ce_aggregate_id e)
                \<lparr>ag_generation = ce_generation e, ag_state_digest = digest\<rparr> generations in
          (case btree_get generations (ce_aggregate_id e) of
             None \<Rightarrow> Inr update
           | Some current \<Rightarrow>
               if ce_generation e < ag_generation current then Inl (JournalConflict JrGenerationRegresses)
               else if ag_generation current = ce_generation e \<and> ag_state_digest current \<noteq> digest
               then Inl (JournalConflict JrGenerationConflict)
               else Inr update))"

definition journal_begin ::
    "protocol \<Rightarrow> uuid \<Rightarrow> io \<Rightarrow> journal_file \<Rightarrow> envelope \<Rightarrow> decision file_call" where
  "journal_begin P node_id io file e =
     (case invalid_command (envelope_validate P e) of
        Inl err \<Rightarrow> (file, Inl err)
      | Inr _ \<Rightarrow>
      if ce_node_id e \<noteq> node_id then (file, Inl (JournalConflict JrOtherNode))
      else
      case read_journal P node_id io file of
        Inl err \<Rightarrow> (file, Inl err)
      | Inr j \<Rightarrow>
      case btree_get (cj_entries j) (ce_command_id e) of
        Some existing \<Rightarrow>
          if (je_envelope existing)\<lparr>ce_lease_id := ce_lease_id e\<rparr> \<noteq> e
          then (file, Inl (JournalConflict JrRedelivered))
          else
            let lease_changed = ce_lease_id (je_envelope existing) \<noteq> ce_lease_id e;
                existing = (if lease_changed then existing\<lparr>je_envelope := e\<rparr> else existing)
            in
            (case entry_acknowledgement P existing of
               Inl err \<Rightarrow> (file, Inl err)
             | Inr ack \<Rightarrow>
                 let decision = (case ack of None \<Rightarrow> Execute | Some a \<Rightarrow> Replay a) in
                 if lease_changed
                 then commit_journal P io file
                   (j\<lparr>cj_entries := btree_insert (ce_command_id e) existing (cj_entries j)\<rparr>) decision
                 else (file, Inr decision))
      | None \<Rightarrow>
          (case checked_add (cj_last_received j) 1 of
             None \<Rightarrow> (file, Inl (JournalInvalid JrSequenceOverflowed))
           | Some expected \<Rightarrow>
               if ce_sequence e \<noteq> expected then (file, Inl (JournalConflict JrSequenceOrder))
               else
               case and_then (state_mutation_digest P (ce_payload e)) (fence_generation j e) of
                 Inl err \<Rightarrow> (file, Inl err)
               | Inr generations \<Rightarrow>
                   commit_journal P io file
                     (j\<lparr>cj_aggregate_generations := generations, cj_last_received := ce_sequence e,
                        cj_entries := btree_insert (ce_command_id e)
                          \<lparr>je_envelope = e, je_completion = None, je_acknowledged = False\<rparr>
                          (cj_entries j)\<rparr>) Execute))"

definition journal_complete ::
    "protocol \<Rightarrow> uuid \<Rightarrow> io \<Rightarrow> journal_file \<Rightarrow> uuid \<Rightarrow> timestamp \<Rightarrow> outcome \<Rightarrow> command_ack file_call" where
  "journal_complete P node_id io file command_id completed_at result =
     (case read_journal P node_id io file of
        Inl err \<Rightarrow> (file, Inl err)
      | Inr j \<Rightarrow>
      case btree_get (cj_entries j) command_id of
        None \<Rightarrow> (file, Inl (JournalConflict JrNotJournaled))
      | Some e \<Rightarrow>
      case je_completion e of
        Some existing \<Rightarrow>
          (file,
           if jc_outcome existing \<noteq> result then Inl (JournalConflict JrOutcomeChanged)
           else and_then (entry_acknowledgement P e) (ok_or (JournalInvalid JrNoAcknowledgement)))
      | None \<Rightarrow>
          let e = e\<lparr>je_completion := Some \<lparr>jc_completed_at = completed_at, jc_outcome = result\<rparr>\<rparr> in
          (case and_then (entry_acknowledgement P e) (ok_or (JournalInvalid JrNoAcknowledgement)) of
             Inl err \<Rightarrow> (file, Inl err)
           | Inr a \<Rightarrow> commit_journal P io file
               (j\<lparr>cj_entries := btree_insert command_id e (cj_entries j)\<rparr>) a))"

definition journal_pending_acknowledgements ::
    "protocol \<Rightarrow> uuid \<Rightarrow> io \<Rightarrow> journal_file \<Rightarrow> (journal_error, command_ack list) result" where
  "journal_pending_acknowledgements P node_id io file =
     and_then (read_journal P node_id io file) (\<lambda>j.
     try_map (\<lambda>e. and_then (entry_acknowledgement P e) (ok_or (JournalInvalid JrNoAcknowledgement)))
       (sort_key entry_sequence
         (filter (\<lambda>e. \<not> je_acknowledged e \<and> je_completion e \<noteq> None) (btree_values (cj_entries j)))))"

definition journal_mark_acknowledged ::
    "protocol \<Rightarrow> uuid \<Rightarrow> io \<Rightarrow> journal_file \<Rightarrow> ack_receipt \<Rightarrow> u64 file_call" where
  "journal_mark_acknowledged P node_id io file receipt =
     (case invalid_command (receipt_validate receipt) of
        Inl err \<Rightarrow> (file, Inl err)
      | Inr _ \<Rightarrow>
      if rp_node_id receipt \<noteq> node_id then (file, Inl (JournalConflict JrOtherNode))
      else
      case read_journal P node_id io file of
        Inl err \<Rightarrow> (file, Inl err)
      | Inr j \<Rightarrow>
      case btree_get (cj_entries j) (rp_command_id receipt) of
        None \<Rightarrow> (file, Inl (JournalConflict JrReceiptUnknown))
      | Some e \<Rightarrow>
          if je_completion e = None then (file, Inl (JournalConflict JrNotCompleted))
          else
            let j = j\<lparr>cj_entries := btree_insert (rp_command_id receipt) (e\<lparr>je_acknowledged := True\<rparr>)
                                    (cj_entries j)\<rparr>;
                j = j\<lparr>cj_last_acknowledged := contiguous_acknowledged_sequence j\<rparr>
            in commit_journal P io file j (cj_last_acknowledged j))"

definition journal_after_sequence ::
    "protocol \<Rightarrow> uuid \<Rightarrow> io \<Rightarrow> journal_file \<Rightarrow> (journal_error, u64) result" where
  "journal_after_sequence P node_id io file =
     and_then (read_journal P node_id io file) (\<lambda>j. Inr (cj_last_acknowledged j))"

record log_target =
  lt_unit_id :: string
  lt_generation :: u64

fun log_target_step ::
    "(string, log_target) btree_map \<Rightarrow> payload \<Rightarrow> command_result \<Rightarrow> (string, log_target) btree_map" where
  "log_target_step targets (RuntimeApply q b) (RuntimeApplied ob) =
     (let candidate = \<lparr>lt_unit_id = us_unit_id (aq_spec q), lt_generation = us_generation (aq_spec q)\<rparr> in
      if (case btree_get targets (lt_unit_id candidate) of
            None \<Rightarrow> True | Some current \<Rightarrow> lt_generation current \<le> lt_generation candidate)
      then btree_insert (lt_unit_id candidate) candidate targets else targets)"
| "log_target_step targets (RuntimeRemove q) (RuntimeRemoved r) =
     (if (case btree_get targets (ar_unit_id q) of
            None \<Rightarrow> False | Some target \<Rightarrow> lt_generation target = ar_generation q)
      then filter (\<lambda>(k, t). k \<noteq> ar_unit_id q) targets else targets)"
| "log_target_step targets p r = targets"

definition journal_log_targets ::
    "protocol \<Rightarrow> uuid \<Rightarrow> io \<Rightarrow> journal_file \<Rightarrow> (journal_error, log_target list) result" where
  "journal_log_targets P node_id io file =
     and_then (read_journal P node_id io file) (\<lambda>j.
     Inr (btree_values (fold (\<lambda>e targets.
       case succeeded e of
         None \<Rightarrow> targets
       | Some r \<Rightarrow> log_target_step targets (ce_payload (je_envelope e)) r) (entries_in_order j) [])))"

definition journal_active_bindings ::
    "protocol \<Rightarrow> uuid \<Rightarrow> io \<Rightarrow> journal_file \<Rightarrow> (journal_error, node_binding list) result" where
  "journal_active_bindings P node_id io file =
     and_then (read_journal P node_id io file) (\<lambda>j.
     and_then (resource_claim_projection P j) (\<lambda>m. Inr (active_bindings m)))"

definition journal_validate_runtime_binding ::
    "protocol \<Rightarrow> uuid \<Rightarrow> io \<Rightarrow> journal_file \<Rightarrow> runtime_spec \<Rightarrow> node_binding option
      \<Rightarrow> (journal_error, unit) result" where
  "journal_validate_runtime_binding P node_id io file spec binding =
     and_then (read_journal P node_id io file) (\<lambda>j.
     and_then (resource_claim_projection P j) (\<lambda>m. validate_runtime_apply P m spec binding))"

definition journal_validate_release ::
    "protocol \<Rightarrow> uuid \<Rightarrow> io \<Rightarrow> journal_file \<Rightarrow> claim_release \<Rightarrow> (journal_error, unit) result" where
  "journal_validate_release P node_id io file q =
     and_then (read_journal P node_id io file) (\<lambda>j.
     and_then (resource_claim_projection P j) (\<lambda>m. validate_release m q))"

text \<open>
  One call of an operation that writes, with any behaviour of the file system, on the file before
  and after it. A process that dies during a call leaves one of the files of a failed write.
\<close>

inductive file_step :: "protocol \<Rightarrow> uuid \<Rightarrow> journal_file \<Rightarrow> journal_file \<Rightarrow> bool" for P node_id where
  begins: "journal_begin P node_id io f e = (f', r) \<Longrightarrow> file_step P node_id f f'"
| completes: "journal_complete P node_id io f i t res = (f', r) \<Longrightarrow> file_step P node_id f f'"
| acknowledges: "journal_mark_acknowledged P node_id io f rcpt = (f', r) \<Longrightarrow> file_step P node_id f f'"

end
