(* ===== verification/History.thy ===== *)
theory History
  imports Prelude
begin

text \<open>
  The contract of a durable record: every step keeps an invariant and keeps what the record already
  says, in the sense of a reflexive and transitive relation. What runs of any length keep is proved
  here once; the agent's journal interprets it.
\<close>

locale history =
  fixes step :: "'s \<Rightarrow> 's \<Rightarrow> bool"
    and sound :: "'s \<Rightarrow> bool"
    and kept :: "'s \<Rightarrow> 's \<Rightarrow> bool"
  assumes step_sound: "sound s \<Longrightarrow> step s t \<Longrightarrow> sound t"
    and step_kept: "sound s \<Longrightarrow> step s t \<Longrightarrow> kept s t"
    and kept_refl: "kept s s"
    and kept_trans: "kept s t \<Longrightarrow> kept t u \<Longrightarrow> kept s u"
begin

lemma run_sound: "step\<^sup>*\<^sup>* s t \<Longrightarrow> sound s \<Longrightarrow> sound t"
  by (induction rule: rtranclp_induct) (auto intro: step_sound)

lemma run_kept: "step\<^sup>*\<^sup>* s t \<Longrightarrow> sound s \<Longrightarrow> kept s t"
proof (induction rule: rtranclp_induct)
  case (step u v)
  have "kept u v"
    by (rule step_kept [OF run_sound [OF step.hyps(1) step.prems] step.hyps(2)])
  with step.IH [OF step.prems] show ?case
    by (rule kept_trans)
qed (rule kept_refl)

end

end
