(* ===== verification/Journal_Safety.thy ===== *)
theory Journal_Safety
  imports Command_Journal History "HOL-Library.While_Combinator"
begin

text \<open>
  Lemmas and properties of the agent's command journal: what a journal that validates contains, what
  the operations write, what every later file keeps, and what the projection of resource claims
  guarantees. The file system may fail at any call.
\<close>

section \<open>Entries and sequences\<close>

lemma btree_values_iff: "btree_wf m \<Longrightarrow> v \<in> set (btree_values m) \<longleftrightarrow> (\<exists>k. btree_get m k = Some v)"
  by (rule btree.vals_get)

lemma btree_get_mem: "btree_wf m \<Longrightarrow> btree_get m k = Some v \<longleftrightarrow> (k, v) \<in> set m"
  by (simp add: btree_get_def btree_wf_distinct)

text \<open>What the entry loop of \<open>validate\<close> establishes for one entry.\<close>

definition entry_ok :: "protocol \<Rightarrow> uuid \<Rightarrow> uuid \<Rightarrow> entry \<Rightarrow> bool" where
  "entry_ok P node_id i e \<longleftrightarrow>
     envelope_validate P (je_envelope e) = Inr () \<and> i = ce_command_id (je_envelope e) \<and>
     ce_node_id (je_envelope e) = node_id \<and> (je_acknowledged e \<longrightarrow> je_completion e \<noteq> None) \<and>
     is_ok (entry_acknowledgement P e)"

lemma validate_entries_iff:
  "validate_entries P node_id seen es = Inr ss \<longleftrightarrow>
     (\<forall>(i, e)\<in>set es. entry_ok P node_id i e) \<and> distinct (map (entry_sequence \<circ> snd) es) \<and>
     set seen \<inter> set (map (entry_sequence \<circ> snd) es) = {} \<and>
     ss = rev (map (entry_sequence \<circ> snd) es) @ seen"
proof (induction es arbitrary: seen)
  case (Cons x es)
  obtain i e where x: "x = (i, e)" by (rule prod.exhaust)
  show ?case
    unfolding x by (auto simp: Cons.IH entry_ok_def is_ok_iff)
qed auto

lemma sequences_exact:
  fixes ss :: "u64 list"
  assumes "distinct ss" and "length ss = unat n" and "sort ss \<noteq> []"
    and "hd (sort ss) = 1" and "last (sort ss) = n"
  shows "unat ` set ss = {1..unat n}"
proof (rule card_subset_eq)
  have srt: "sorted (sort ss)" by simp
  have "1 \<le> x \<and> x \<le> n" if "x \<in> set ss" for x
  proof -
    have x: "x \<in> set (sort ss)" using that by simp
    then obtain k where k: "k < length (sort ss)" "x = sort ss ! k"
      by (metis in_set_conv_nth)
    have "sort ss ! 0 \<le> sort ss ! k" and "sort ss ! k \<le> sort ss ! (length (sort ss) - 1)"
      using sorted_nth_mono [OF srt] k(1) by auto
    with assms(3-5) k(2) show ?thesis
      by (simp add: hd_conv_nth last_conv_nth)
  qed
  then show "unat ` set ss \<subseteq> {1..unat n}"
    by (auto simp: word_le_nat_alt)
  have "card (unat ` set ss) = card (set ss)"
    by (rule card_image) (simp add: inj_on_def word_unat_eq_iff)
  then show "card (unat ` set ss) = card {1..unat n}"
    using assms(1,2) by (simp add: distinct_card)
qed simp

text \<open>The facts that a journal that validates carries, one by one.\<close>

definition journal_sequences :: "journal \<Rightarrow> u64 list" where
  "journal_sequences j = map entry_sequence (btree_values (cj_entries j))"

lemma journal_validate_facts:
  assumes "journal_validate P j = Inr ()"
  shows "\<forall>(i, e)\<in>set (cj_entries j). entry_ok P (cj_node_id j) i e"
    and "distinct (journal_sequences j)"
    and "unat ` set (journal_sequences j) = {1..unat (cj_last_received j)}"
    and "contiguous_acknowledged_sequence j = cj_last_acknowledged j"
    and "\<exists>m. resource_claim_projection P j = Inr m"
    and "cj_last_acknowledged j \<le> cj_last_received j" and "cj_node_id j \<noteq> 0"
proof -
  let ?ss = "rev (map (entry_sequence \<circ> snd) (cj_entries j))"
  have v: "validate_entries P (cj_node_id j) [] (cj_entries j) = Inr ?ss"
    using assms by (auto simp: journal_validate_def validate_entries_iff split: if_split_asm)
  have ss: "set ?ss = set (journal_sequences j)" "distinct ?ss \<longleftrightarrow> distinct (journal_sequences j)"
      "length ?ss = length (journal_sequences j)"
    by (simp_all add: journal_sequences_def btree_values_def comp_def)
  from v show "\<forall>(i, e)\<in>set (cj_entries j). entry_ok P (cj_node_id j) i e"
    by (simp add: validate_entries_iff)
  from v show d: "distinct (journal_sequences j)"
    using ss(2) by (simp add: validate_entries_iff)
  show "unat ` set (journal_sequences j) = {1..unat (cj_last_received j)}"
  proof (cases "cj_last_received j = 0")
    case True
    with assms v have "cj_entries j = []"
      by (auto simp: journal_validate_def Let_def split: if_split_asm)
    with True show ?thesis
      by (simp add: journal_sequences_def btree_values_def)
  next
    case False
    with assms v have "length (sort ?ss) = unat (cj_last_received j)" "sort ?ss \<noteq> []"
        "hd (sort ?ss) = 1" "last (sort ?ss) = cj_last_received j"
      by (simp_all add: journal_validate_def Let_def split: if_split_asm)
    with sequences_exact [of ?ss "cj_last_received j"] ss d show ?thesis
      by simp
  qed
  show "contiguous_acknowledged_sequence j = cj_last_acknowledged j"
    and "\<exists>m. resource_claim_projection P j = Inr m"
    and "cj_last_acknowledged j \<le> cj_last_received j" and "cj_node_id j \<noteq> 0"
    using assms by (auto simp: journal_validate_def Let_def split: if_split_asm)
qed

lemma journal_entry_ok:
  assumes "journal_validate P j = Inr ()" and "btree_get (cj_entries j) i = Some e"
  shows "entry_ok P (cj_node_id j) i e"
proof -
  have "(i, e) \<in> set (cj_entries j)"
    using assms(2) by (auto simp: btree_get_def dest: map_of_SomeD)
  then show ?thesis
    using journal_validate_facts(1) [OF assms(1)] by blast
qed

lemma journal_sequence_le:
  assumes "journal_validate P j = Inr ()" and "btree_get (cj_entries j) i = Some e"
  shows "entry_sequence e \<le> cj_last_received j" and "entry_sequence e \<noteq> 0"
proof -
  have "entry_sequence e \<in> set (journal_sequences j)"
    using assms(2) by (force simp: btree_get_def journal_sequences_def btree_values_def dest: map_of_SomeD)
  then have "unat (entry_sequence e) \<in> {1..unat (cj_last_received j)}"
    using journal_validate_facts(3) [OF assms(1)] by blast
  then show "entry_sequence e \<le> cj_last_received j" and "entry_sequence e \<noteq> 0"
    by (auto simp: word_le_nat_alt)
qed

text \<open>The acknowledgement loop finds the last sequence of an unbroken acknowledged prefix.\<close>

lemma contiguous_from_correct:
  "s \<le> contiguous_from m s \<and>
   (\<forall>k. s < k \<and> k \<le> contiguous_from m s \<longrightarrow> btree_get m k = Some True) \<and>
   (contiguous_from m s \<noteq> - 1 \<longrightarrow> btree_get m (contiguous_from m s + 1) \<noteq> Some True)"
proof (induction m s rule: contiguous_from.induct)
  case (1 m s)
  show ?case
  proof (cases "checked_add s 1")
    case None
    then have "contiguous_from m s = s"
      by (simp add: contiguous_from.simps [of m s])
    with None show ?thesis
      using checked_add_None_iff [of s] by simp
  next
    case (Some n)
    have n: "n = s + 1" "unat n = Suc (unat s)"
      using Some checked_inc_unat [OF Some] by (auto simp: checked_add_Some)
    show ?thesis
    proof (cases "btree_get m n = Some True")
      case True
      have c: "contiguous_from m s = contiguous_from m n"
        using Some True by (simp add: contiguous_from.simps [of m s])
      have ih: "n \<le> contiguous_from m n"
          "\<forall>k. n < k \<and> k \<le> contiguous_from m n \<longrightarrow> btree_get m k = Some True"
          "contiguous_from m n \<noteq> - 1 \<longrightarrow> btree_get m (contiguous_from m n + 1) \<noteq> Some True"
        using 1 [OF Some True] by blast+
      have sn: "k = n \<or> n < k" if "s < k" for k
        using that n(2) by (auto simp: word_less_nat_alt word_unat_eq_iff)
      have "s \<le> contiguous_from m n"
        using checked_inc_le [OF Some] ih(1) by (rule order_trans)
      moreover have "btree_get m k = Some True" if "s < k" "k \<le> contiguous_from m n" for k
        using sn [OF that(1)] ih(2) that(2) True by blast
      ultimately show ?thesis
        unfolding c using ih(3) by blast
    next
      case False
      then have "contiguous_from m s = s"
        using Some by (simp add: contiguous_from.simps [of m s])
      with False n(1) show ?thesis by auto
    qed
  qed
qed

lemma acknowledged_by_sequence_get:
  assumes "distinct (journal_sequences j)"
  shows "btree_get (acknowledged_by_sequence j) k = Some b \<longleftrightarrow>
    (\<exists>e\<in>set (btree_values (cj_entries j)). entry_sequence e = k \<and> je_acknowledged e = b)"
proof -
  have "btree_get (fold (\<lambda>e m. btree_insert (entry_sequence e) (je_acknowledged e) m) es m) k = Some b \<longleftrightarrow>
      (\<exists>e\<in>set es. entry_sequence e = k \<and> je_acknowledged e = b) \<or>
      btree_get m k = Some b \<and> k \<notin> entry_sequence ` set es"
    if "distinct (map entry_sequence es)" for es and m :: "(u64, bool) btree_map"
    using that
  proof (induction es arbitrary: m)
    case (Cons e es)
    then show ?case
      by (auto simp: btree_get_insert)
  qed simp
  from this [of "btree_values (cj_entries j)" "[]"] assms show ?thesis
    by (simp add: acknowledged_by_sequence_def journal_sequences_def)
qed

section \<open>What the operations write\<close>

text \<open>
  The four writes the operations make to the journal document, with the guards that hold when they
  are reached. Every call leaves the file alone or commits one of them, after validation.
\<close>

inductive journal_write :: "protocol \<Rightarrow> journal \<Rightarrow> journal \<Rightarrow> bool" for P where
  rebound: "btree_get (cj_entries j) (ce_command_id e) = Some x \<Longrightarrow>
    (je_envelope x)\<lparr>ce_lease_id := ce_lease_id e\<rparr> = e \<Longrightarrow>
    journal_write P j
      (j\<lparr>cj_entries := btree_insert (ce_command_id e) (x\<lparr>je_envelope := e\<rparr>) (cj_entries j)\<rparr>)"
| appended: "btree_get (cj_entries j) (ce_command_id e) = None \<Longrightarrow>
    checked_add (cj_last_received j) 1 = Some (ce_sequence e) \<Longrightarrow>
    state_mutation_digest P (ce_payload e) = Inr d \<Longrightarrow> fence_generation j e d = Inr generations \<Longrightarrow>
    journal_write P j
      (j\<lparr>cj_aggregate_generations := generations, cj_last_received := ce_sequence e,
         cj_entries := btree_insert (ce_command_id e)
           \<lparr>je_envelope = e, je_completion = None, je_acknowledged = False\<rparr> (cj_entries j)\<rparr>)"
| completed: "btree_get (cj_entries j) i = Some x \<Longrightarrow> je_completion x = None \<Longrightarrow>
    journal_write P j
      (j\<lparr>cj_entries := btree_insert i (x\<lparr>je_completion := Some c\<rparr>) (cj_entries j)\<rparr>)"
| acknowledged: "btree_get (cj_entries j) i = Some x \<Longrightarrow> je_completion x \<noteq> None \<Longrightarrow>
    journal_write P j
      (j\<lparr>cj_entries := btree_insert i (x\<lparr>je_acknowledged := True\<rparr>) (cj_entries j),
         cj_last_acknowledged := n\<rparr>)"

definition current_journal :: "uuid \<Rightarrow> journal_file \<Rightarrow> journal" where
  "current_journal node_id f = (case f of Some j \<Rightarrow> j | None \<Rightarrow> journal_empty node_id)"

lemma read_journal_Inr:
  "read_journal P node_id io f = Inr j \<longleftrightarrow>
     io_open io = None \<and> j = current_journal node_id f \<and> cj_node_id j = node_id \<and>
     journal_validate P j = Inr ()"
  by (auto simp: read_journal_def current_journal_def Let_def split: option.splits)

lemma commit_cases:
  assumes "commit_journal P io f j v = (f', r)"
  obtains (unchanged) "f' = f" and "\<not> is_ok r"
  | (committed) "f' = Some j" and "journal_validate P j = Inr ()" and "r = Inr v \<or> r = Inl JournalStorage"
  using assms by (cases "journal_validate P j"; cases "io_write io")
    (auto simp: commit_journal_def write_journal_def)

lemma begin_write:
  assumes "journal_begin P node_id io f e = (f', r)" and "f' \<noteq> f"
  shows "\<exists>j j'. read_journal P node_id io f = Inr j \<and> journal_write P j j' \<and> f' = Some j' \<and>
    journal_validate P j' = Inr ()"
proof -
  obtain j where j: "read_journal P node_id io f = Inr j"
    using assms by (auto simp: journal_begin_def split: sum.split_asm if_split_asm)
  show ?thesis
  proof (cases "btree_get (cj_entries j) (ce_command_id e)")
    case None
    with assms j obtain d generations where
      g: "checked_add (cj_last_received j) 1 = Some (ce_sequence e)"
        "state_mutation_digest P (ce_payload e) = Inr d" "fence_generation j e d = Inr generations"
      and c: "commit_journal P io f (j\<lparr>cj_aggregate_generations := generations,
          cj_last_received := ce_sequence e,
          cj_entries := btree_insert (ce_command_id e)
            \<lparr>je_envelope = e, je_completion = None, je_acknowledged = False\<rparr> (cj_entries j)\<rparr>)
          Execute = (f', r)"
      by (auto simp: journal_begin_def split: sum.split_asm if_split_asm option.split_asm)
    from journal_write.appended [OF None g] j assms(2) c show ?thesis
      by (cases rule: commit_cases [OF c]) auto
  next
    case (Some x)
    with assms j obtain d where e: "(je_envelope x)\<lparr>ce_lease_id := ce_lease_id e\<rparr> = e"
      and c: "commit_journal P io f (j\<lparr>cj_entries :=
          btree_insert (ce_command_id e) (x\<lparr>je_envelope := e\<rparr>) (cj_entries j)\<rparr>) d = (f', r)"
      by (auto simp: journal_begin_def Let_def split: sum.split_asm if_split_asm)
    from journal_write.rebound [OF Some e] j assms(2) show ?thesis
      by (cases rule: commit_cases [OF c]) auto
  qed
qed

lemma complete_write:
  assumes "journal_complete P node_id io f i t res = (f', r)" and "f' \<noteq> f"
  shows "\<exists>j j'. read_journal P node_id io f = Inr j \<and> journal_write P j j' \<and> f' = Some j' \<and>
    journal_validate P j' = Inr ()"
proof -
  obtain j where j: "read_journal P node_id io f = Inr j"
    using assms by (auto simp: journal_complete_def split: sum.split_asm)
  with assms obtain x a where x: "btree_get (cj_entries j) i = Some x" "je_completion x = None"
    and c: "commit_journal P io f (j\<lparr>cj_entries := btree_insert i
        (x\<lparr>je_completion := Some \<lparr>jc_completed_at = t, jc_outcome = res\<rparr>\<rparr>) (cj_entries j)\<rparr>) a = (f', r)"
    by (auto simp: journal_complete_def Let_def split: sum.split_asm option.split_asm)
  from journal_write.completed [OF x] j assms(2) show ?thesis
    by (cases rule: commit_cases [OF c]) blast+
qed

lemma acknowledge_write:
  assumes "journal_mark_acknowledged P node_id io f rcpt = (f', r)" and "f' \<noteq> f"
  shows "\<exists>j j'. read_journal P node_id io f = Inr j \<and> journal_write P j j' \<and> f' = Some j' \<and>
    journal_validate P j' = Inr ()"
proof -
  obtain j where j: "read_journal P node_id io f = Inr j"
    using assms by (auto simp: journal_mark_acknowledged_def split: sum.split_asm if_split_asm)
  with assms obtain x n v where x: "btree_get (cj_entries j) (rp_command_id rcpt) = Some x"
      "je_completion x \<noteq> None"
    and c: "commit_journal P io f (j\<lparr>cj_entries := btree_insert (rp_command_id rcpt)
        (x\<lparr>je_acknowledged := True\<rparr>) (cj_entries j), cj_last_acknowledged := n\<rparr>) v = (f', r)"
    by (simp add: journal_mark_acknowledged_def Let_def split: sum.split_asm if_split_asm option.split_asm)
  from journal_write.acknowledged [OF x] j assms(2) show ?thesis
    by (cases rule: commit_cases [OF c]) blast+
qed

lemma file_step_write:
  assumes "file_step P node_id f f'" and "f' \<noteq> f"
  shows "\<exists>j'. journal_write P (current_journal node_id f) j' \<and> f' = Some j' \<and>
    journal_validate P j' = Inr () \<and> journal_validate P (current_journal node_id f) = Inr () \<and>
    cj_node_id (current_journal node_id f) = node_id"
  using assms(1)
proof cases
  case (begins io e r)
  from begin_write [OF this assms(2)] show ?thesis by (auto simp: read_journal_Inr)
next
  case (completes io i t res r)
  from complete_write [OF this assms(2)] show ?thesis by (auto simp: read_journal_Inr)
next
  case (acknowledges io rcpt r)
  from acknowledge_write [OF this assms(2)] show ?thesis by (auto simp: read_journal_Inr)
qed

section \<open>What a journal keeps\<close>

text \<open>A state-changing command is ordered after another of the same aggregate by its generation.\<close>

definition generation_le :: "aggregate_generation \<Rightarrow> aggregate_generation \<Rightarrow> bool" where
  "generation_le g g' \<longleftrightarrow> ag_generation g < ag_generation g' \<or> g' = g"

definition entry_generation :: "protocol \<Rightarrow> entry \<Rightarrow> aggregate_generation option" where
  "entry_generation P x =
     (case state_mutation_digest P (ce_payload (je_envelope x)) of
        Inr (Some d) \<Rightarrow> Some \<lparr>ag_generation = ce_generation (je_envelope x), ag_state_digest = d\<rparr>
      | _ \<Rightarrow> None)"

abbreviation entry_aggregate :: "entry \<Rightarrow> uuid" where
  "entry_aggregate x \<equiv> ce_aggregate_id (je_envelope x)"

definition entry_le :: "entry \<Rightarrow> entry \<Rightarrow> bool" where
  "entry_le x x' \<longleftrightarrow>
     je_envelope x = (je_envelope x')\<lparr>ce_lease_id := ce_lease_id (je_envelope x)\<rparr> \<and>
     (je_completion x \<noteq> None \<longrightarrow> je_completion x' = je_completion x) \<and>
     (je_acknowledged x \<longrightarrow> je_acknowledged x')"

definition journal_le :: "journal \<Rightarrow> journal \<Rightarrow> bool" where
  "journal_le j j' \<longleftrightarrow>
     (\<forall>i x. btree_get (cj_entries j) i = Some x \<longrightarrow>
        (\<exists>x'. btree_get (cj_entries j') i = Some x' \<and> entry_le x x')) \<and>
     cj_last_received j \<le> cj_last_received j' \<and>
     (\<forall>a g. btree_get (cj_aggregate_generations j) a = Some g \<longrightarrow>
        (\<exists>g'. btree_get (cj_aggregate_generations j') a = Some g' \<and> generation_le g g'))"

lemma generation_le_refl [simp]: "generation_le g g"
  by (simp add: generation_le_def)

lemma generation_le_trans: "generation_le g h \<Longrightarrow> generation_le h k \<Longrightarrow> generation_le g k"
  by (auto simp: generation_le_def)

lemma entry_le_refl [simp]: "entry_le x x"
  by (simp add: entry_le_def)

lemma entry_le_trans:
  assumes "entry_le x y" and "entry_le y z"
  shows "entry_le x z"
proof -
  have "je_envelope x = (je_envelope y)\<lparr>ce_lease_id := ce_lease_id (je_envelope x)\<rparr>"
    using assms(1) by (simp add: entry_le_def)
  also have "je_envelope y = (je_envelope z)\<lparr>ce_lease_id := ce_lease_id (je_envelope y)\<rparr>"
    using assms(2) by (simp add: entry_le_def)
  finally have "je_envelope x = (je_envelope z)\<lparr>ce_lease_id := ce_lease_id (je_envelope x)\<rparr>"
    by simp
  with assms show ?thesis
    by (auto simp: entry_le_def)
qed

lemma entry_le_same:
  assumes "entry_le x x'"
  shows "entry_sequence x' = entry_sequence x" and "entry_aggregate x' = entry_aggregate x"
    and "ce_payload (je_envelope x') = ce_payload (je_envelope x)"
    and "entry_generation P x' = entry_generation P x"
    and "ce_generation (je_envelope x') = ce_generation (je_envelope x)"
proof -
  obtain l where l: "je_envelope x = (je_envelope x')\<lparr>ce_lease_id := l\<rparr>"
    using assms by (auto simp: entry_le_def)
  show "entry_sequence x' = entry_sequence x" "entry_aggregate x' = entry_aggregate x"
    "ce_payload (je_envelope x') = ce_payload (je_envelope x)"
    "entry_generation P x' = entry_generation P x"
    "ce_generation (je_envelope x') = ce_generation (je_envelope x)"
    unfolding entry_generation_def l by (simp_all split: sum.split option.split)
qed

lemma journal_le_refl: "journal_le j j"
  by (auto simp: journal_le_def)

lemma journal_le_trans: "journal_le j k \<Longrightarrow> journal_le k l \<Longrightarrow> journal_le j l"
  unfolding journal_le_def by (meson entry_le_trans generation_le_trans order_trans)

lemma journal_leD:
  "journal_le j j' \<Longrightarrow> btree_get (cj_entries j) i = Some x \<Longrightarrow>
   \<exists>x'. btree_get (cj_entries j') i = Some x' \<and> entry_le x x'"
  by (simp add: journal_le_def)

text \<open>The generations a state-changing command fences and moves.\<close>

lemma fence_generation_Inr:
  assumes "fence_generation j e (Some d) = Inr generations"
  defines "g \<equiv> \<lparr>ag_generation = ce_generation e, ag_state_digest = d\<rparr>"
  shows "generations = btree_insert (ce_aggregate_id e) g (cj_aggregate_generations j)"
    and "\<forall>h. btree_get (cj_aggregate_generations j) (ce_aggregate_id e) = Some h \<longrightarrow> generation_le h g"
proof -
  show "generations = btree_insert (ce_aggregate_id e) g (cj_aggregate_generations j)"
    using assms(1) by (auto simp: fence_generation_def Let_def g_def split: option.split_asm if_split_asm)
  show "\<forall>h. btree_get (cj_aggregate_generations j) (ce_aggregate_id e) = Some h \<longrightarrow> generation_le h g"
  proof (intro allI impI)
    fix h
    assume h: "btree_get (cj_aggregate_generations j) (ce_aggregate_id e) = Some h"
    with assms(1) have "ag_generation h \<le> ce_generation e"
        "ag_generation h = ce_generation e \<Longrightarrow> ag_state_digest h = d"
      by (auto simp: fence_generation_def Let_def not_less split: if_split_asm)
    then show "generation_le h g"
      by (cases h) (auto simp: generation_le_def g_def)
  qed
qed

lemma fence_generation_None: "fence_generation j e None = Inr generations \<longleftrightarrow>
    generations = cj_aggregate_generations j"
  by (auto simp: fence_generation_def Let_def)

lemma fence_generation_le:
  assumes "fence_generation j e d = Inr generations"
    and "btree_get (cj_aggregate_generations j) a = Some g"
  shows "\<exists>g'. btree_get generations a = Some g' \<and> generation_le g g'"
proof (cases d)
  case (Some v)
  with assms fence_generation_Inr [of j e v generations] show ?thesis
    by (auto simp: btree_get_insert)
qed (use assms in \<open>simp add: fence_generation_None\<close>)

lemma journal_write_le:
  assumes "journal_write P j j'"
  shows "journal_le j j'"
  using assms
proof cases
  case (rebound e x)
  have "entry_le x (x\<lparr>je_envelope := e\<rparr>)"
    unfolding entry_le_def by (subst rebound(3) [symmetric]) (cases "je_envelope x", simp)
  with rebound show ?thesis
    by (auto simp: journal_le_def btree_get_insert)
next
  case (appended e d generations)
  have "cj_last_received j \<le> ce_sequence e"
    by (rule checked_inc_le [OF appended(3)])
  with appended show ?thesis
    by (auto simp: journal_le_def btree_get_insert dest: fence_generation_le)
qed (auto simp: journal_le_def btree_get_insert entry_le_def)

section \<open>Sound files\<close>

text \<open>
  The journal's own fences: every state-changing command is covered by the recorded generation of
  its aggregate, and two of the same aggregate are ordered by generation as they are by sequence.
\<close>

definition fence_inv :: "protocol \<Rightarrow> journal \<Rightarrow> bool" where
  "fence_inv P j \<longleftrightarrow>
     btree_wf (cj_entries j) \<and> btree_wf (cj_aggregate_generations j) \<and>
     (\<forall>i x g. btree_get (cj_entries j) i = Some x \<longrightarrow> entry_generation P x = Some g \<longrightarrow>
        (\<exists>g'. btree_get (cj_aggregate_generations j) (entry_aggregate x) = Some g' \<and> generation_le g g')) \<and>
     (\<forall>i x g i' x' g'. btree_get (cj_entries j) i = Some x \<longrightarrow> btree_get (cj_entries j) i' = Some x' \<longrightarrow>
        entry_generation P x = Some g \<longrightarrow> entry_generation P x' = Some g' \<longrightarrow>
        entry_aggregate x = entry_aggregate x' \<longrightarrow> entry_sequence x < entry_sequence x' \<longrightarrow>
        generation_le g g')"

lemma fence_inv_wf: "fence_inv P j \<Longrightarrow> btree_wf (cj_entries j)"
  "fence_inv P j \<Longrightarrow> btree_wf (cj_aggregate_generations j)"
  by (simp_all add: fence_inv_def)

lemma fence_inv_covered:
  "fence_inv P j \<Longrightarrow> btree_get (cj_entries j) i = Some x \<Longrightarrow> entry_generation P x = Some g \<Longrightarrow>
   \<exists>g'. btree_get (cj_aggregate_generations j) (entry_aggregate x) = Some g' \<and> generation_le g g'"
  unfolding fence_inv_def by blast

lemma fence_inv_ordered:
  "fence_inv P j \<Longrightarrow> btree_get (cj_entries j) i = Some x \<Longrightarrow> btree_get (cj_entries j) i' = Some x' \<Longrightarrow>
   entry_generation P x = Some g \<Longrightarrow> entry_generation P x' = Some g' \<Longrightarrow>
   entry_aggregate x = entry_aggregate x' \<Longrightarrow> entry_sequence x < entry_sequence x' \<Longrightarrow> generation_le g g'"
  unfolding fence_inv_def by blast

lemma fence_inv_empty: "fence_inv P (journal_empty node_id)"
  by (simp add: fence_inv_def journal_empty_def)

text \<open>A write that replaces an entry by one with the same immutable content keeps the fences.\<close>

lemma fence_inv_replace:
  assumes "fence_inv P j" and "btree_get (cj_entries j) i = Some x" and "entry_le x x'"
    and "cj_entries j' = btree_insert i x' (cj_entries j)"
    and "cj_aggregate_generations j' = cj_aggregate_generations j"
  shows "fence_inv P j'"
proof -
  have same: "entry_sequence x' = entry_sequence x" "entry_aggregate x' = entry_aggregate x"
      "entry_generation P x' = entry_generation P x"
    using entry_le_same [OF assms(3)] by simp_all
  have old: "\<exists>y. btree_get (cj_entries j) k = Some y \<and> entry_sequence z = entry_sequence y \<and>
      entry_aggregate z = entry_aggregate y \<and> entry_generation P z = entry_generation P y"
    if "btree_get (cj_entries j') k = Some z" for k z
    using that assms(2,4) same by (cases "k = i") (auto simp: btree_get_insert)
  show ?thesis
    unfolding fence_inv_def
  proof (intro conjI allI impI)
    show "btree_wf (cj_entries j')" "btree_wf (cj_aggregate_generations j')"
      using assms(1,4,5) by (simp_all add: fence_inv_wf btree_wf_insert)
  next
    fix k z g
    assume "btree_get (cj_entries j') k = Some z" "entry_generation P z = Some g"
    moreover from this old obtain y where "btree_get (cj_entries j) k = Some y"
        "entry_aggregate z = entry_aggregate y" "entry_generation P z = entry_generation P y"
      by blast
    ultimately show
      "\<exists>g'. btree_get (cj_aggregate_generations j') (entry_aggregate z) = Some g' \<and> generation_le g g'"
      using fence_inv_covered [OF assms(1), of k y g] assms(5) by simp
  next
    fix k z g k' z' g'
    assume z: "btree_get (cj_entries j') k = Some z" "btree_get (cj_entries j') k' = Some z'"
      "entry_generation P z = Some g" "entry_generation P z' = Some g'"
      "entry_aggregate z = entry_aggregate z'" "entry_sequence z < entry_sequence z'"
    obtain y where y: "btree_get (cj_entries j) k = Some y" "entry_sequence z = entry_sequence y"
        "entry_aggregate z = entry_aggregate y" "entry_generation P z = entry_generation P y"
      using old [OF z(1)] by blast
    obtain y' where y': "btree_get (cj_entries j) k' = Some y'" "entry_sequence z' = entry_sequence y'"
        "entry_aggregate z' = entry_aggregate y'" "entry_generation P z' = entry_generation P y'"
      using old [OF z(2)] by blast
    show "generation_le g g'"
      using fence_inv_ordered [OF assms(1) y(1) y'(1)] z y y' by simp
  qed
qed

lemma fence_inv_append:
  assumes inv: "fence_inv P j" and valid: "journal_validate P j = Inr ()"
    and fresh: "btree_get (cj_entries j) (ce_command_id e) = None"
    and nxt: "checked_add (cj_last_received j) 1 = Some (ce_sequence e)"
    and d: "state_mutation_digest P (ce_payload e) = Inr d"
    and gens: "fence_generation j e d = Inr generations"
    and ents: "cj_entries j' = btree_insert (ce_command_id e)
      \<lparr>je_envelope = e, je_completion = None, je_acknowledged = False\<rparr> (cj_entries j)"
    and gens': "cj_aggregate_generations j' = generations"
  shows "fence_inv P j'"
proof -
  let ?n = "\<lparr>je_envelope = e, je_completion = None, je_acknowledged = False\<rparr> :: entry"
  have get: "btree_get (cj_entries j') k = (if k = ce_command_id e then Some ?n else btree_get (cj_entries j) k)" for k
    using ents by (simp add: btree_get_insert)
  have newg: "entry_generation P ?n = Some g \<Longrightarrow> d = Some (ag_state_digest g) \<and> ag_generation g = ce_generation e" for g
    using d by (auto simp: entry_generation_def split: option.split_asm)
  have upd: "btree_get generations (ce_aggregate_id e) = Some g \<and>
      (\<forall>h. btree_get (cj_aggregate_generations j) (ce_aggregate_id e) = Some h \<longrightarrow> generation_le h g)"
    if "entry_generation P ?n = Some g" for g
    using newg [OF that] gens fence_generation_Inr [of j e "ag_state_digest g" generations]
    by (cases g) (auto simp: btree_get_insert)
  have below: "entry_sequence x < ce_sequence e" if "btree_get (cj_entries j) k = Some x" for k x
    using journal_sequence_le(1) [OF valid that] checked_inc_less [OF nxt] by simp
  show ?thesis
    unfolding fence_inv_def
  proof (intro conjI allI impI)
    show "btree_wf (cj_entries j')"
      using inv ents by (simp add: fence_inv_wf btree_wf_insert)
    show "btree_wf (cj_aggregate_generations j')"
    proof (cases d)
      case None
      with inv gens gens' show ?thesis by (simp add: fence_generation_None fence_inv_wf)
    next
      case (Some v)
      with inv gens gens' fence_generation_Inr(1) [of j e v generations] show ?thesis
        by (simp add: fence_inv_wf btree_wf_insert)
    qed
  next
    fix k z g
    assume z: "btree_get (cj_entries j') k = Some z" "entry_generation P z = Some g"
    show "\<exists>g'. btree_get (cj_aggregate_generations j') (entry_aggregate z) = Some g' \<and> generation_le g g'"
    proof (cases "k = ce_command_id e")
      case True
      with z get upd gens' show ?thesis by auto
    next
      case False
      with z get have "btree_get (cj_entries j) k = Some z" by simp
      from fence_inv_covered [OF inv this z(2)] gens' fence_generation_le [OF gens] generation_le_trans
      show ?thesis by metis
    qed
  next
    fix k z g k' z' g'
    assume z: "btree_get (cj_entries j') k = Some z" "btree_get (cj_entries j') k' = Some z'"
      "entry_generation P z = Some g" "entry_generation P z' = Some g'"
      "entry_aggregate z = entry_aggregate z'" "entry_sequence z < entry_sequence z'"
    show "generation_le g g'"
    proof (cases "k' = ce_command_id e")
      case True
      with z get have z': "z' = ?n" by simp
      with z get below have "btree_get (cj_entries j) k = Some z"
        by (cases "k = ce_command_id e") auto
      from fence_inv_covered [OF inv this z(3)] upd [of g'] z(4,5) z' generation_le_trans show ?thesis by auto
    next
      case False
      with z get have o: "btree_get (cj_entries j) k' = Some z'" by simp
      with z get below [OF o] have "btree_get (cj_entries j) k = Some z"
        by (cases "k = ce_command_id e") auto
      from fence_inv_ordered [OF inv this o z(3-6)] show ?thesis .
    qed
  qed
qed

lemma journal_write_fence_inv:
  assumes "journal_write P j j'" and "fence_inv P j" and "journal_validate P j = Inr ()"
  shows "fence_inv P j'"
  using assms(1)
proof cases
  case (rebound e x)
  have "entry_le x (x\<lparr>je_envelope := e\<rparr>)"
    unfolding entry_le_def by (subst rebound(3) [symmetric]) (cases "je_envelope x", simp)
  then show ?thesis
    by (rule fence_inv_replace [OF assms(2) rebound(2)]) (simp_all add: rebound(1))
next
  case (appended e d generations)
  show ?thesis
    by (rule fence_inv_append [OF assms(2,3) appended(2-5)]) (simp_all add: appended(1))
next
  case (completed i x c)
  have "entry_le x (x\<lparr>je_completion := Some c\<rparr>)"
    using completed(3) by (simp add: entry_le_def)
  then show ?thesis
    by (rule fence_inv_replace [OF assms(2) completed(2)]) (simp_all add: completed(1))
next
  case (acknowledged i x n)
  have "entry_le x (x\<lparr>je_acknowledged := True\<rparr>)"
    by (simp add: entry_le_def)
  then show ?thesis
    by (rule fence_inv_replace [OF assms(2) acknowledged(2)]) (simp_all add: acknowledged(1))
qed

text \<open>A file is sound when it is absent or holds a valid journal of the node with its fences.\<close>

definition file_sound :: "protocol \<Rightarrow> uuid \<Rightarrow> journal_file \<Rightarrow> bool" where
  "file_sound P node_id f \<longleftrightarrow>
     (case f of
        None \<Rightarrow> True
      | Some j \<Rightarrow> cj_node_id j = node_id \<and> journal_validate P j = Inr () \<and> fence_inv P j)"

definition file_kept :: "uuid \<Rightarrow> journal_file \<Rightarrow> journal_file \<Rightarrow> bool" where
  "file_kept node_id f f' \<longleftrightarrow> journal_le (current_journal node_id f) (current_journal node_id f')"

lemma file_sound_fence: "file_sound P node_id f \<Longrightarrow> fence_inv P (current_journal node_id f)"
  by (cases f) (simp_all add: file_sound_def current_journal_def fence_inv_empty)

lemma journal_write_node: "journal_write P j j' \<Longrightarrow> cj_node_id j' = cj_node_id j"
  by (erule journal_write.cases) simp_all

lemma file_step_sound:
  assumes "file_sound P node_id f" and "file_step P node_id f f'"
  shows "file_sound P node_id f'"
proof (cases "f' = f")
  case False
  from file_step_write [OF assms(2) False] obtain j' where
    w: "journal_write P (current_journal node_id f) j'" "f' = Some j'" "journal_validate P j' = Inr ()"
      "journal_validate P (current_journal node_id f) = Inr ()"
      "cj_node_id (current_journal node_id f) = node_id"
    by blast
  then show ?thesis
    using journal_write_fence_inv [OF w(1) file_sound_fence [OF assms(1)] w(4)] journal_write_node [OF w(1)]
    by (simp add: file_sound_def)
qed (use assms in simp)

lemma file_step_kept:
  assumes "file_step P node_id f f'"
  shows "file_kept node_id f f'"
proof (cases "f' = f")
  case False
  from file_step_write [OF assms False] show ?thesis
    by (auto simp: file_kept_def current_journal_def dest: journal_write_le)
qed (simp add: file_kept_def journal_le_refl)

interpretation journal_file: history "file_step P node_id" "file_sound P node_id" "file_kept node_id"
  for P node_id
  by unfold_locales
    (auto intro: file_step_sound file_step_kept journal_le_refl journal_le_trans simp: file_kept_def
      dest: file_step_kept [unfolded file_kept_def])

text \<open>The acknowledged prefix never shrinks.\<close>

lemma acknowledged_entry:
  assumes "journal_validate P j = Inr ()" and "btree_wf (cj_entries j)"
    and "0 < k" and "k \<le> cj_last_acknowledged j"
  shows "\<exists>i x. btree_get (cj_entries j) i = Some x \<and> entry_sequence x = k \<and> je_acknowledged x"
proof -
  have "btree_get (acknowledged_by_sequence j) k = Some True"
    using contiguous_from_correct [of 0 "acknowledged_by_sequence j"] assms(3,4)
      journal_validate_facts(4) [OF assms(1)]
    by (simp add: contiguous_acknowledged_sequence_def)
  then obtain x where "x \<in> set (btree_values (cj_entries j))" "entry_sequence x = k" "je_acknowledged x"
    using acknowledged_by_sequence_get [OF journal_validate_facts(2) [OF assms(1)]] by auto
  then show ?thesis
    using btree_values_iff [OF assms(2)] by blast
qed

lemma acknowledged_next:
  assumes "journal_validate P j = Inr ()" and "btree_wf (cj_entries j)" and "cj_last_acknowledged j \<noteq> - 1"
    and "btree_get (cj_entries j) i = Some x" and "entry_sequence x = cj_last_acknowledged j + 1"
  shows "\<not> je_acknowledged x"
proof
  assume "je_acknowledged x"
  then have "btree_get (acknowledged_by_sequence j) (cj_last_acknowledged j + 1) = Some True"
    using acknowledged_by_sequence_get [OF journal_validate_facts(2) [OF assms(1)]]
      btree_values_iff [OF assms(2)] assms(4,5) by metis
  with contiguous_from_correct [of 0 "acknowledged_by_sequence j"] assms(3)
    journal_validate_facts(4) [OF assms(1)] show False
    by (simp add: contiguous_acknowledged_sequence_def)
qed

lemma last_acknowledged_mono:
  assumes "journal_validate P j = Inr ()" "btree_wf (cj_entries j)"
    and "journal_validate P j' = Inr ()" "btree_wf (cj_entries j')" and "journal_le j j'"
  shows "cj_last_acknowledged j \<le> cj_last_acknowledged j'"
proof (rule ccontr)
  let ?k = "cj_last_acknowledged j' + 1"
  assume "\<not> ?thesis"
  then have lt: "unat (cj_last_acknowledged j') < unat (cj_last_acknowledged j)"
    by (simp add: not_le word_less_nat_alt)
  moreover have "unat (cj_last_acknowledged j) < 2 ^ LENGTH(64)" by (rule unsigned_less)
  ultimately have "checked_add (cj_last_acknowledged j') 1 = Some ?k"
    by (simp add: checked_add_Some)
  note k = checked_inc_unat [OF this] checked_inc_pos [OF this]
  have max: "cj_last_acknowledged j' \<noteq> - 1"
    using k(2) by auto
  have "0 < ?k" and "?k \<le> cj_last_acknowledged j"
    using k lt by (simp_all add: word_le_nat_alt word_less_nat_alt)
  from acknowledged_entry [OF assms(1,2) this] obtain i x where
    x: "btree_get (cj_entries j) i = Some x" "entry_sequence x = ?k" "je_acknowledged x"
    by blast
  from journal_leD [OF assms(5) x(1)] obtain x' where
    x': "btree_get (cj_entries j') i = Some x'" "entry_le x x'" by blast
  then have "entry_sequence x' = ?k" and "je_acknowledged x'"
    using x entry_le_same(1) [OF x'(2)] by (auto simp: entry_le_def)
  with acknowledged_next [OF assms(3,4) max x'(1)] show False by blast
qed

section \<open>Redelivery under a new lease\<close>

text \<open>
  What is left of an entry when its lease is ignored. Validation reads a lease only to check that it
  is not nil, so a journal stays valid when an entry is bound to another lease.
\<close>

definition unleased :: "entry \<Rightarrow> entry" where
  "unleased x = x\<lparr>je_envelope := (je_envelope x)\<lparr>ce_lease_id := 0\<rparr>\<rparr>"

lemma unleased_sel [simp]:
  "entry_sequence (unleased x) = entry_sequence x"
  "ce_payload (je_envelope (unleased x)) = ce_payload (je_envelope x)"
  "je_acknowledged (unleased x) = je_acknowledged x"
  "je_completion (unleased x) = je_completion x"
  by (simp_all add: unleased_def)

lemma succeeded_unleased: "succeeded (unleased x) = succeeded x"
  by (simp add: succeeded_def)

lemma entries_in_order_unleased:
  assumes "map unleased (btree_values (cj_entries j)) = map unleased (btree_values (cj_entries j'))"
  shows "map unleased (entries_in_order j) = map unleased (entries_in_order j')"
  using assms by (simp add: entries_in_order_def map_sort_key_commute)

lemma projection_unleased:
  assumes "map unleased (btree_values (cj_entries j)) = map unleased (btree_values (cj_entries j'))"
  shows "resource_claim_projection P j = resource_claim_projection P j'"
proof -
  have "projection_apply P m (unleased x) = projection_apply P m x" for m x
    by (cases "succeeded x") (simp_all add: projection_apply_def succeeded_unleased)
  then show ?thesis
    unfolding resource_claim_projection_def
    using entries_in_order_unleased [OF assms] try_fold_map [of "projection_apply P" unleased] by metis
qed

lemma run_events_unleased:
  assumes "map unleased (btree_values (cj_entries j)) = map unleased (btree_values (cj_entries j'))"
  shows "run_events j = run_events j'"
proof -
  define h where "h = (\<lambda>e. case succeeded e of None \<Rightarrow> None
    | Some r \<Rightarrow> run_event_of (ce_payload (je_envelope e)) r)"
  have h: "h (unleased x) = h x" for x
    by (simp add: h_def succeeded_unleased split: option.split)
  have "List.map_filter h (map unleased xs) = List.map_filter h xs" for xs
    by (induction xs) (simp_all add: map_filter_simps h split: option.split)
  then show ?thesis
    using entries_in_order_unleased [OF assms] unfolding run_events_def h_def [symmetric] by metis
qed

lemma acknowledged_unleased:
  assumes "map unleased (btree_values (cj_entries j)) = map unleased (btree_values (cj_entries j'))"
  shows "acknowledged_by_sequence j = acknowledged_by_sequence j'"
proof -
  define h where "h = (\<lambda>e. btree_insert (entry_sequence e) (je_acknowledged e))"
  have "h (unleased x) = h x" for x
    by (simp add: h_def)
  then have "fold h (map unleased xs) m = fold h xs m" for xs m
    by (induction xs arbitrary: m) simp_all
  then show ?thesis
    using assms unfolding acknowledged_by_sequence_def h_def [symmetric] by metis
qed

lemma journal_validate_unleased:
  assumes valid: "journal_validate P j = Inr ()"
    and same: "map (\<lambda>(i, x). (i, unleased x)) (cj_entries j') = map (\<lambda>(i, x). (i, unleased x)) (cj_entries j)"
    and rest: "j' = j\<lparr>cj_entries := cj_entries j'\<rparr>"
    and ok: "\<And>i x. (i, x) \<in> set (cj_entries j') \<Longrightarrow> entry_ok P (cj_node_id j) i x"
  shows "journal_validate P j' = Inr ()"
proof -
  have "map snd (map (\<lambda>(i, x). (i, unleased x)) (cj_entries j')) =
      map snd (map (\<lambda>(i, x). (i, unleased x)) (cj_entries j))"
    using same by simp
  then have vals: "map unleased (btree_values (cj_entries j')) = map unleased (btree_values (cj_entries j))"
    by (simp add: btree_values_def comp_def case_prod_unfold)
  have seqs: "map (entry_sequence \<circ> snd) (cj_entries j') = map (entry_sequence \<circ> snd) (cj_entries j)"
  proof -
    have "map entry_sequence (map unleased (btree_values (cj_entries j'))) =
        map entry_sequence (map unleased (btree_values (cj_entries j)))"
      by (simp only: vals)
    then show ?thesis
      by (simp add: btree_values_def comp_def)
  qed
  have v: "validate_entries P (cj_node_id j) [] (cj_entries j) =
      Inr (rev (map (entry_sequence \<circ> snd) (cj_entries j)))"
    using valid by (auto simp: journal_validate_def validate_entries_iff split: if_split_asm)
  then have v': "validate_entries P (cj_node_id j) [] (cj_entries j') =
      Inr (rev (map (entry_sequence \<circ> snd) (cj_entries j)))"
    using ok seqs by (auto simp: validate_entries_iff)
  have "cj_entries j' = [] \<longleftrightarrow> cj_entries j = []"
    using seqs by (metis map_is_Nil_conv)
  moreover have "cj_schema j' = cj_schema j" "cj_node_id j' = cj_node_id j"
      "cj_last_received j' = cj_last_received j" "cj_last_acknowledged j' = cj_last_acknowledged j"
      "cj_aggregate_generations j' = cj_aggregate_generations j"
    by (subst rest, simp)+
  ultimately show ?thesis
    using valid v v' projection_unleased [OF vals, of P] run_events_unleased [OF vals]
      acknowledged_unleased [OF vals]
    by (simp add: journal_validate_def contiguous_acknowledged_sequence_def Let_def split: if_split_asm)
qed

lemma envelope_identity_lease: "envelope_identity P (v\<lparr>ce_lease_id := l\<rparr>) p = envelope_identity P v p"
  by (cases "(P, v, p)" rule: envelope_identity.cases) simp_all

lemma envelope_validate_lease:
  "envelope_validate P v = Inr () \<Longrightarrow> l \<noteq> 0 \<Longrightarrow> envelope_validate P (v\<lparr>ce_lease_id := l\<rparr>) = Inr ()"
  by (simp add: envelope_validate_def envelope_identity_lease validate_uuid_def split: if_split_asm)

lemma result_matches_lease: "result_matches P (v\<lparr>ce_lease_id := l\<rparr>) p r = result_matches P v p r"
  by (cases "(P, v, p, r)" rule: result_matches.cases) simp_all

lemma ack_validate_success_lease:
  assumes "ak_schema a' = ak_schema a" and "ak_completed_at a' = ak_completed_at a"
  shows "ack_validate_success P a' (v\<lparr>ce_lease_id := l\<rparr>) r = ack_validate_success P a v r"
  by (cases r; cases "ce_payload v")
    (simp_all add: ack_validate_success_def result_validate_against_def result_matches_lease assms)

lemma entry_ok_lease:
  assumes "entry_ok P n i x" and "l \<noteq> 0"
  shows "entry_ok P n i (x\<lparr>je_envelope := (je_envelope x)\<lparr>ce_lease_id := l\<rparr>\<rparr>)"
proof -
  have v: "envelope_validate P (je_envelope x) = Inr ()"
    using assms(1) by (simp add: entry_ok_def)
  have "is_ok (entry_acknowledgement P (x\<lparr>je_envelope := (je_envelope x)\<lparr>ce_lease_id := l\<rparr>\<rparr>))"
  proof (cases "je_completion x")
    case (Some c)
    have success: "ack_validate_success P \<lparr>ak_schema = s, ak_command_id = ci, ak_lease_id = l,
          ak_node_id = ni, ak_sequence = sq, ak_payload_digest = d, ak_completed_at = t, ak_outcome = r\<rparr>
          ((je_envelope x)\<lparr>ce_lease_id := l\<rparr>) q =
        ack_validate_success P \<lparr>ak_schema = s, ak_command_id = ci, ak_lease_id = ce_lease_id (je_envelope x),
          ak_node_id = ni, ak_sequence = sq, ak_payload_digest = d, ak_completed_at = t, ak_outcome = r\<rparr>
          (je_envelope x) q" for s ci ni sq d t r q
      by (rule ack_validate_success_lease) simp_all
    from Some assms v show ?thesis
      by (cases "jc_outcome c")
        (auto simp: entry_ok_def entry_acknowledgement_def is_ok_iff Let_def ack_validate_against_def
          success envelope_validate_lease split: if_split_asm)
  qed (simp add: entry_acknowledgement_def)
  with assms v show ?thesis
    by (simp add: entry_ok_def envelope_validate_lease)
qed

lemma journal_validate_rebound:
  assumes valid: "journal_validate P j = Inr ()" and wf: "btree_wf (cj_entries j)"
    and x: "btree_get (cj_entries j) i = Some x" and "l \<noteq> 0"
  shows "journal_validate P (j\<lparr>cj_entries := btree_insert i
    (x\<lparr>je_envelope := (je_envelope x)\<lparr>ce_lease_id := l\<rparr>\<rparr>) (cj_entries j)\<rparr>) = Inr ()"
proof (rule journal_validate_unleased [OF valid])
  let ?y = "x\<lparr>je_envelope := (je_envelope x)\<lparr>ce_lease_id := l\<rparr>\<rparr>"
  show "map (\<lambda>(i, x). (i, unleased x)) (cj_entries (j\<lparr>cj_entries := btree_insert i ?y (cj_entries j)\<rparr>)) =
      map (\<lambda>(i, x). (i, unleased x)) (cj_entries j)"
    using btree_replace_map [OF wf x, of "\<lambda>(i, x). (i, unleased x)" ?y] by (simp add: unleased_def)
  fix k y
  assume "(k, y) \<in> set (cj_entries (j\<lparr>cj_entries := btree_insert i ?y (cj_entries j)\<rparr>))"
  then have "btree_get (btree_insert i ?y (cj_entries j)) k = Some y"
    using btree_get_mem [OF btree_wf_insert [OF wf]] by auto
  then show "entry_ok P (cj_node_id j) k y"
    using journal_entry_ok [OF valid] entry_ok_lease [OF journal_entry_ok [OF valid x] assms(4)]
    by (auto simp: btree_get_insert split: if_split_asm)
qed simp

section \<open>The acknowledgement loop\<close>

text \<open>The loop as the source writes it, with the wrapping sum; it ends because 0 is no sequence.\<close>

lemma contiguous_while:
  assumes "btree_get m 0 \<noteq> Some True"
  shows "while_option (\<lambda>s. btree_get m (s + 1) = Some True) (\<lambda>s. s + 1) s = Some (contiguous_from m s)"
  using assms
proof (induction m s rule: contiguous_from.induct)
  case (1 m s)
  show ?case
  proof (cases "checked_add s 1")
    case None
    then have "s + 1 = 0"
      using checked_add_None_iff [of s] by simp
    with None 1(2) show ?thesis
      by (subst while_option_unfold) (simp add: contiguous_from.simps [of m s])
  next
    case (Some n)
    then have n: "n = s + 1" by (simp add: checked_add_Some)
    show ?thesis
    proof (cases "btree_get m n = Some True")
      case True
      with Some n 1(1) [OF Some True 1(2)] show ?thesis
        by (subst while_option_unfold) (simp add: contiguous_from.simps [of m s])
    next
      case False
      with Some n show ?thesis
        by (subst while_option_unfold) (simp add: contiguous_from.simps [of m s])
    qed
  qed
qed

lemma contiguous_le_length:
  assumes "distinct (journal_sequences j)"
  shows "unat (contiguous_acknowledged_sequence j) \<le> length (cj_entries j)"
proof -
  let ?c = "contiguous_acknowledged_sequence j"
  have "k \<in> unat ` set (journal_sequences j)" if "1 \<le> k" "k \<le> unat ?c" for k
  proof -
    define w :: u64 where "w = of_nat k"
    have "unat ?c < 2 ^ LENGTH(64)" by (rule unsigned_less)
    with that have w: "unat w = k"
      by (simp add: w_def unat_of_nat)
    with that have "0 < w" and "w \<le> ?c"
      by (auto simp: word_less_nat_alt word_le_nat_alt)
    then have "btree_get (acknowledged_by_sequence j) w = Some True"
      using contiguous_from_correct [of 0 "acknowledged_by_sequence j"]
      by (simp add: contiguous_acknowledged_sequence_def)
    then have "w \<in> set (journal_sequences j)"
      using acknowledged_by_sequence_get [OF assms] by (auto simp: journal_sequences_def)
    with w show ?thesis by blast
  qed
  then have "{1..unat ?c} \<subseteq> unat ` set (journal_sequences j)" by auto
  then have "card {1..unat ?c} \<le> card (unat ` set (journal_sequences j))"
    by (rule card_mono [rotated]) simp
  also have "\<dots> \<le> length (journal_sequences j)"
    by (metis List.finite_set card_image_le card_length le_trans)
  finally show ?thesis
    by (simp add: journal_sequences_def btree_values_def)
qed

section \<open>Completed commands\<close>

lemma complete_result:
  assumes "journal_complete P node_id io f i t res = (f', Inr a)"
  shows "\<exists>x c. btree_get (cj_entries (current_journal node_id f')) i = Some x \<and> je_completion x = Some c \<and>
    jc_outcome c = res \<and> ak_outcome a = res \<and> ak_completed_at a = jc_completed_at c"
proof -
  from assms obtain j where j: "read_journal P node_id io f = Inr j"
    by (auto simp: journal_complete_def split: sum.split_asm)
  from assms j obtain x where x: "btree_get (cj_entries j) i = Some x"
    by (auto simp: journal_complete_def split: option.split_asm)
  have cur: "j = current_journal node_id f" using j by (simp add: read_journal_Inr)
  show ?thesis
  proof (cases "je_completion x")
    case (Some c)
    with assms j x cur show ?thesis
      by (auto simp: journal_complete_def entry_acknowledgement_def Let_def split: if_split_asm)
  next
    case None
    let ?y = "x\<lparr>je_completion := Some \<lparr>jc_completed_at = t, jc_outcome = res\<rparr>\<rparr>"
    from assms j x None obtain b where ack: "entry_acknowledgement P ?y = Inr (Some b)"
      and c: "commit_journal P io f (j\<lparr>cj_entries := btree_insert i ?y (cj_entries j)\<rparr>) b = (f', Inr a)"
      by (auto simp: journal_complete_def Let_def split: sum.split_asm)
    then have "f' = Some (j\<lparr>cj_entries := btree_insert i ?y (cj_entries j)\<rparr>)" and "b = a"
      by (auto simp: commit_journal_def write_journal_def split: sum.split_asm write_outcome.split_asm)
    with ack show ?thesis
      by (auto simp: current_journal_def btree_get_insert entry_acknowledgement_def Let_def)
  qed
qed

lemma begin_completed:
  assumes "btree_get (cj_entries (current_journal node_id f)) (ce_command_id e) = Some x"
    and "je_completion x = Some c" and "journal_begin P node_id io f e = (f', Inr d)"
  shows "\<exists>a. d = Replay a \<and> ak_outcome a = jc_outcome c \<and> ak_completed_at a = jc_completed_at c"
proof -
  from assms(3) obtain j where j: "read_journal P node_id io f = Inr j"
    by (auto simp: journal_begin_def split: sum.split_asm if_split_asm)
  then have cur: "j = current_journal node_id f" by (simp add: read_journal_Inr)
  define y where "y = (if ce_lease_id (je_envelope x) \<noteq> ce_lease_id e then x\<lparr>je_envelope := e\<rparr> else x)"
  have y: "je_completion y = Some c" using assms(2) by (simp add: y_def)
  from assms(1,3) j cur obtain a where a: "entry_acknowledgement P y = Inr a"
      and d: "d = (case a of None \<Rightarrow> Execute | Some a \<Rightarrow> Replay a)"
    by (auto simp: journal_begin_def Let_def y_def commit_journal_def write_journal_def
        split: sum.split_asm if_split_asm write_outcome.split_asm)
  with y show ?thesis
    by (auto simp: entry_acknowledgement_def Let_def)
qed

lemma complete_completed:
  assumes "btree_get (cj_entries (current_journal node_id f)) i = Some x"
    and "je_completion x = Some c" and "journal_complete P node_id io f i t res = (f', r)"
  shows "f' = f \<and> (\<forall>a. r = Inr a \<longrightarrow>
    res = jc_outcome c \<and> ak_outcome a = jc_outcome c \<and> ak_completed_at a = jc_completed_at c)"
proof (cases "read_journal P node_id io f")
  case (Inr j)
  then have "j = current_journal node_id f" by (simp add: read_journal_Inr)
  with assms Inr show ?thesis
    by (auto simp: journal_complete_def entry_acknowledgement_def Let_def split: if_split_asm)
qed (use assms(3) in \<open>auto simp: journal_complete_def\<close>)

lemma begin_redelivered:
  assumes valid: "journal_validate P j = Inr ()" and wf: "btree_wf (cj_entries j)"
    and x: "btree_get (cj_entries j) i = Some x" and "l \<noteq> 0"
  shows "\<exists>f' d. journal_begin P (cj_node_id j) \<lparr>io_open = None, io_write = Written\<rparr> (Some j)
      ((je_envelope x)\<lparr>ce_lease_id := l\<rparr>) = (f', Inr d)"
proof -
  let ?e = "(je_envelope x)\<lparr>ce_lease_id := l\<rparr>"
  have ok: "entry_ok P (cj_node_id j) i x" and ok': "entry_ok P (cj_node_id j) i (x\<lparr>je_envelope := ?e\<rparr>)"
    using journal_entry_ok [OF valid x] entry_ok_lease [OF journal_entry_ok [OF valid x] assms(4)] by simp_all
  have same: "x\<lparr>je_envelope := ?e\<rparr> = x" if "l = ce_lease_id (je_envelope x)"
    using that by (cases x, cases "je_envelope x") simp
  have "read_journal P (cj_node_id j) \<lparr>io_open = None, io_write = Written\<rparr> (Some j) = Inr j"
    using valid by (simp add: read_journal_Inr current_journal_def)
  with ok ok' x journal_validate_rebound [OF valid wf x assms(4)] show ?thesis
    by (auto simp: journal_begin_def Let_def entry_ok_def is_ok_iff commit_journal_def write_journal_def)
qed
section \<open>Properties\<close>

lemma reachable_sound:
  assumes "(file_step P node_id)\<^sup>*\<^sup>* None (Some j)"
  shows "cj_node_id j = node_id" and "journal_validate P j = Inr ()" and "fence_inv P j"
proof -
  have "file_sound P node_id (Some j)"
    by (rule journal_file.run_sound [OF assms]) (simp add: file_sound_def)
  then show "cj_node_id j = node_id" "journal_validate P j = Inr ()" "fence_inv P j"
    by (simp_all add: file_sound_def)
qed

lemma entry_of_sequence:
  assumes "journal_validate P j = Inr ()" and "btree_wf (cj_entries j)"
    and "0 < s" and "s \<le> cj_last_received j"
  shows "\<exists>!i. \<exists>x. btree_get (cj_entries j) i = Some x \<and> entry_sequence x = s"
proof -
  have "unat s \<in> {1..unat (cj_last_received j)}"
    using assms(3,4) by (auto simp: word_le_nat_alt word_less_nat_alt)
  then have "unat s \<in> unat ` set (journal_sequences j)"
    using journal_validate_facts(3) [OF assms(1)] by simp
  then have "s \<in> set (journal_sequences j)"
    by (metis imageE word_unat_eq_iff)
  then obtain x where x: "x \<in> set (btree_values (cj_entries j))" "entry_sequence x = s"
    by (auto simp: journal_sequences_def)
  then obtain i where i: "btree_get (cj_entries j) i = Some x"
    using btree_values_iff [OF assms(2)] by blast
  have "k = i" if "btree_get (cj_entries j) k = Some y" "entry_sequence y = s" for k y
  proof -
    have inj: "inj_on entry_sequence (set (btree_values (cj_entries j)))"
      using journal_validate_facts(2) [OF assms(1)] by (simp add: journal_sequences_def distinct_map)
    have "y \<in> set (btree_values (cj_entries j))"
      using that(1) btree_values_iff [OF assms(2)] by blast
    with inj x that(2) have "y = x" by (auto dest: inj_onD)
    then show ?thesis
      using journal_entry_ok [OF assms(1) that(1)] journal_entry_ok [OF assms(1) i]
      by (simp add: entry_ok_def)
  qed
  with i x(2) show ?thesis by blast
qed

text \<open>
  C9. The journal is always readable and free of gaps. Whatever calls the agent makes and however
  the file system fails, including a crash in the middle of a write, a file they leave can be read
  again; every sequence from 1 to \<open>last_received_sequence\<close> belongs to exactly one journaled command,
  every command is filed under its own id for this node, and \<open>last_acknowledged_sequence\<close> is the
  exact end of the acknowledged prefix: every command up to it is completed and acknowledged, and the
  next one is not acknowledged.
\<close>

theorem journal_always_readable:
  assumes "(file_step P node_id)\<^sup>*\<^sup>* None (Some j)"
  shows "read_journal P node_id \<lparr>io_open = None, io_write = w\<rparr> (Some j) = Inr j \<and>
    (\<forall>s. 0 < s \<and> s \<le> cj_last_received j \<longrightarrow>
       (\<exists>!i. \<exists>x. btree_get (cj_entries j) i = Some x \<and> entry_sequence x = s)) \<and>
    (\<forall>i x. btree_get (cj_entries j) i = Some x \<longrightarrow>
       ce_command_id (je_envelope x) = i \<and> ce_node_id (je_envelope x) = node_id \<and>
       0 < entry_sequence x \<and> entry_sequence x \<le> cj_last_received j \<and>
       (entry_sequence x \<le> cj_last_acknowledged j \<longrightarrow> je_acknowledged x \<and> je_completion x \<noteq> None) \<and>
       (cj_last_acknowledged j \<noteq> - 1 \<and> entry_sequence x = cj_last_acknowledged j + 1 \<longrightarrow>
          \<not> je_acknowledged x))"
proof (intro conjI allI impI)
  note s = reachable_sound [OF assms]
  note v = s(2) and wf = fence_inv_wf(1) [OF s(3)]
  show "read_journal P node_id \<lparr>io_open = None, io_write = w\<rparr> (Some j) = Inr j"
    using s by (simp add: read_journal_Inr current_journal_def)
  show "\<exists>!i. \<exists>x. btree_get (cj_entries j) i = Some x \<and> entry_sequence x = s"
    if "0 < s \<and> s \<le> cj_last_received j" for s
    by (rule entry_of_sequence [OF v wf]) (use that in simp_all)
  fix i x
  assume x: "btree_get (cj_entries j) i = Some x"
  note ok = journal_entry_ok [OF v x] and le = journal_sequence_le [OF v x]
  show "ce_command_id (je_envelope x) = i" "ce_node_id (je_envelope x) = node_id"
    using ok s(1) by (simp_all add: entry_ok_def)
  show "0 < entry_sequence x" "entry_sequence x \<le> cj_last_received j"
    using le by (simp_all add: word_neq_0_conv)
  show ack: "je_acknowledged x" if prefix: "entry_sequence x \<le> cj_last_acknowledged j"
  proof -
    obtain k y where y: "btree_get (cj_entries j) k = Some y" "entry_sequence y = entry_sequence x"
        "je_acknowledged y"
      using acknowledged_entry [OF v wf _ prefix] le(2) by (auto simp: word_neq_0_conv)
    have "k = i"
      using entry_of_sequence [OF v wf, of "entry_sequence x"] le x y(1,2) by (auto simp: word_neq_0_conv)
    with x y show ?thesis by simp
  qed
  show "je_completion x \<noteq> None" if "entry_sequence x \<le> cj_last_acknowledged j"
    using ack [OF that] ok by (simp add: entry_ok_def)
  show "\<not> je_acknowledged x"
    if "cj_last_acknowledged j \<noteq> - 1 \<and> entry_sequence x = cj_last_acknowledged j + 1"
    using acknowledged_next [OF v wf _ x] that by blast
qed

text \<open>
  C3. A command has one outcome. Once \<open>complete\<close> has succeeded, in every file that later calls and
  failures can leave, \<open>begin\<close> of that command never answers \<open>Execute\<close> again: what it returns is the
  recorded outcome with its completion time. \<open>complete\<close> never writes again for it, and succeeds only
  for the same outcome, with the time of the first completion.
\<close>

theorem command_completes_once:
  assumes "(file_step P node_id)\<^sup>*\<^sup>* None f"
    and "journal_complete P node_id io f i t res = (f1, Inr a)"
    and "(file_step P node_id)\<^sup>*\<^sup>* f1 f2"
  shows "(\<forall>io' e f3 d. ce_command_id e = i \<and> journal_begin P node_id io' f2 e = (f3, Inr d) \<longrightarrow>
      (\<exists>b. d = Replay b \<and> ak_outcome b = res \<and> ak_completed_at b = ak_completed_at a)) \<and>
    (\<forall>io' t' res' f3 r. journal_complete P node_id io' f2 i t' res' = (f3, r) \<longrightarrow>
      f3 = f2 \<and> (\<forall>b. r = Inr b \<longrightarrow>
        res' = res \<and> ak_outcome b = res \<and> ak_completed_at b = ak_completed_at a))"
proof -
  have "file_sound P node_id f"
    by (rule journal_file.run_sound [OF assms(1)]) (simp add: file_sound_def)
  then have "file_sound P node_id f1"
    by (rule file_step_sound) (rule file_step.completes [OF assms(2)])
  from journal_file.run_kept [OF assms(3) this]
  have kept: "journal_le (current_journal node_id f1) (current_journal node_id f2)"
    by (simp add: file_kept_def)
  obtain x c where x: "btree_get (cj_entries (current_journal node_id f1)) i = Some x"
      "je_completion x = Some c" and c: "jc_outcome c = res" "ak_completed_at a = jc_completed_at c"
    using complete_result [OF assms(2)] by blast
  obtain y where y: "btree_get (cj_entries (current_journal node_id f2)) i = Some y"
      "je_completion y = Some c"
    using journal_leD [OF kept x(1)] x(2) by (auto simp: entry_le_def)
  show ?thesis
    using begin_completed [OF _ y(2)] complete_completed [OF y] y(1) c by metis
qed

text \<open>
  C10. Commands of one aggregate are fenced by generation. In every file the calls can leave, of two
  state-changing commands of one aggregate the later one by sequence has the larger generation, or
  the same generation with the same state digest; and \<open>begin\<close> refuses a new command that would break
  this order, with the file unchanged.
\<close>

theorem aggregate_generations_fenced:
  assumes reach: "(file_step P node_id)\<^sup>*\<^sup>* None (Some j)"
    and x: "btree_get (cj_entries j) i = Some x"
    and d: "state_mutation_digest P (ce_payload (je_envelope x)) = Inr (Some d)"
  shows "(\<forall>k y d'. btree_get (cj_entries j) k = Some y \<and> entry_aggregate y = entry_aggregate x \<and>
       state_mutation_digest P (ce_payload (je_envelope y)) = Inr (Some d') \<and>
       entry_sequence x < entry_sequence y \<longrightarrow>
       ce_generation (je_envelope x) < ce_generation (je_envelope y) \<or>
       ce_generation (je_envelope x) = ce_generation (je_envelope y) \<and> d = d') \<and>
    (\<forall>io (e :: envelope) d'. btree_get (cj_entries j) (ce_command_id e) = None \<and> ce_aggregate_id e = entry_aggregate x \<and>
       state_mutation_digest P (ce_payload e) = Inr (Some d') \<and>
       (ce_generation e < ce_generation (je_envelope x) \<or>
        ce_generation e = ce_generation (je_envelope x) \<and> d' \<noteq> d) \<longrightarrow>
       (\<exists>err. journal_begin P node_id io (Some j) e = (Some j, Inl err)))"
proof (intro conjI allI impI; elim conjE)
  note s = reachable_sound [OF reach]
  have gx: "entry_generation P x = Some \<lparr>ag_generation = ce_generation (je_envelope x), ag_state_digest = d\<rparr>"
    using d by (simp add: entry_generation_def)
  show "ce_generation (je_envelope x) < ce_generation (je_envelope y) \<or>
      ce_generation (je_envelope x) = ce_generation (je_envelope y) \<and> d = d'"
    if y: "btree_get (cj_entries j) k = Some y" "entry_aggregate y = entry_aggregate x"
      "state_mutation_digest P (ce_payload (je_envelope y)) = Inr (Some d')"
      "entry_sequence x < entry_sequence y" for k y d'
    using fence_inv_ordered [OF s(3) x y(1) gx, of "\<lparr>ag_generation = ce_generation (je_envelope y),
        ag_state_digest = d'\<rparr>"] y by (auto simp: entry_generation_def generation_le_def)
  fix io d' and e :: envelope
  assume e: "btree_get (cj_entries j) (ce_command_id e) = None" "ce_aggregate_id e = entry_aggregate x"
    "state_mutation_digest P (ce_payload e) = Inr (Some d')"
    "ce_generation e < ce_generation (je_envelope x) \<or>
     ce_generation e = ce_generation (je_envelope x) \<and> d' \<noteq> d"
  obtain g where g: "btree_get (cj_aggregate_generations j) (ce_aggregate_id e) = Some g"
      "generation_le \<lparr>ag_generation = ce_generation (je_envelope x), ag_state_digest = d\<rparr> g"
    using fence_inv_covered [OF s(3) x gx] e(2) by auto
  have "\<not> is_ok (fence_generation j e (Some d'))"
  proof
    assume "is_ok (fence_generation j e (Some d'))"
    then obtain gs where "fence_generation j e (Some d') = Inr gs" by (auto simp: is_ok_iff)
    from fence_generation_Inr(2) [OF this] g e(4) show False
      by (auto simp: generation_le_def)
  qed
  then obtain err where "fence_generation j e (Some d') = Inl err"
    by (cases "fence_generation j e (Some d')") auto
  with e(1,3) show "\<exists>err. journal_begin P node_id io (Some j) e = (Some j, Inl err)"
    by (auto simp: journal_begin_def read_journal_Inr current_journal_def split: sum.split option.split)
qed

text \<open>
  C13. Redelivery is answered. For every command in a file the calls can leave, delivering it again
  under any lease that is not nil, with a working file system, succeeds: it is executed if it has no
  outcome yet, and otherwise its recorded outcome is replayed under the new lease.
\<close>

theorem redelivery_is_answered:
  assumes "(file_step P node_id)\<^sup>*\<^sup>* None (Some j)" and "btree_get (cj_entries j) i = Some x" and "l \<noteq> 0"
  shows "\<exists>f d. journal_begin P node_id \<lparr>io_open = None, io_write = Written\<rparr> (Some j)
      ((je_envelope x)\<lparr>ce_lease_id := l\<rparr>) = (f, Inr d) \<and>
    (case je_completion x of
       None \<Rightarrow> d = Execute
     | Some c \<Rightarrow> \<exists>a. d = Replay a \<and> ak_lease_id a = l \<and> ak_outcome a = jc_outcome c \<and>
         ak_completed_at a = jc_completed_at c)"
proof -
  let ?e = "(je_envelope x)\<lparr>ce_lease_id := l\<rparr>"
  note s = reachable_sound [OF assms(1)]
  obtain f d where b: "journal_begin P node_id \<lparr>io_open = None, io_write = Written\<rparr> (Some j) ?e = (f, Inr d)"
    using begin_redelivered [OF s(2) fence_inv_wf(1) [OF s(3)] assms(2,3)] s(1) by auto
  have i: "ce_command_id (je_envelope x) = i"
    using journal_entry_ok [OF s(2) assms(2)] by (simp add: entry_ok_def)
  have "d = (case je_completion x of None \<Rightarrow> Execute | Some c \<Rightarrow>
      Replay \<lparr>ak_schema = ack_schema, ak_command_id = i, ak_lease_id = l,
        ak_node_id = ce_node_id (je_envelope x), ak_sequence = entry_sequence x,
        ak_payload_digest = ce_payload_digest (je_envelope x), ak_completed_at = jc_completed_at c,
        ak_outcome = jc_outcome c\<rparr>)"
    using b assms(2) i s(2)
    by (cases "je_completion x"; cases "ce_lease_id (je_envelope x) = l")
      (auto simp: journal_begin_def read_journal_def entry_acknowledgement_def Let_def commit_journal_def
        write_journal_def split: sum.split_asm if_split_asm)
  with b show ?thesis
    by (auto split: option.split)
qed

text \<open>
  C38. The acknowledgement loop ends. On a valid journal, and on the journal that
  \<open>mark_acknowledged\<close> builds from it by setting the mark of one command, the loop of
  \<open>contiguous_acknowledged_sequence\<close>, written as the source writes it with a sum that wraps,
  terminates with the modelled result, after no more iterations than there are entries.
\<close>

theorem acknowledgement_loop_terminates:
  assumes "journal_validate P j = Inr ()" and "btree_wf (cj_entries j)"
    and "btree_get (cj_entries j) i = Some x"
    and "j' = j\<lparr>cj_entries := btree_insert i (x\<lparr>je_acknowledged := marked\<rparr>) (cj_entries j)\<rparr>"
  shows "while_option (\<lambda>s. btree_get (acknowledged_by_sequence j') (s + 1) = Some True) (\<lambda>s. s + 1) 0
      = Some (contiguous_acknowledged_sequence j') \<and>
    unat (contiguous_acknowledged_sequence j') \<le> length (cj_entries j')"
proof -
  have "map (entry_sequence \<circ> snd) (cj_entries j') = map (entry_sequence \<circ> snd) (cj_entries j)"
    using btree_replace_map [OF assms(2,3), of "entry_sequence \<circ> snd" "x\<lparr>je_acknowledged := marked\<rparr>"]
    by (simp add: assms(4))
  then have seqs: "journal_sequences j' = journal_sequences j"
    by (simp add: journal_sequences_def btree_values_def)
  then have dist: "distinct (journal_sequences j')"
    using journal_validate_facts(2) [OF assms(1)] by simp
  have "0 \<notin> set (journal_sequences j')"
    using journal_validate_facts(3) [OF assms(1)] seqs by force
  then have "btree_get (acknowledged_by_sequence j') 0 \<noteq> Some True"
    using acknowledged_by_sequence_get [OF dist] by (auto simp: journal_sequences_def)
  then show ?thesis
    using contiguous_while contiguous_le_length [OF dist]
    by (simp add: contiguous_acknowledged_sequence_def)
qed
section \<open>Witnesses\<close>

text \<open>A run of the journal: a claim is prepared at generation 1 and released at generation 2.\<close>

definition sample_other :: other_commands where
  "sample_other = \<lparr>oc_schema = (\<lambda>d. ''a3s.cloud.other.v1''), oc_generation = (\<lambda>d. 1),
     oc_validate = (\<lambda>d. Inr ()), oc_validate_envelope = (\<lambda>n a i t d. Inr ()),
     oc_state_digest = (\<lambda>d. Inr None), oc_validate_result = (\<lambda>d. Inr ()),
     oc_result_against = (\<lambda>c n d r. Inr ()), oc_validate_ack = (\<lambda>s i c d r. Inr ()),
     oc_evidence_at = (\<lambda>r. None), oc_code_runs = (\<lambda>es. Inr JNull), oc_provider_runs = (\<lambda>es. Inr JNull)\<rparr>"

definition sample_protocol :: protocol where
  "sample_protocol = \<lparr>px = sample_externals, pr = sample_runtime, po = sample_other\<rparr>"

definition released_digest :: string where
  "released_digest = ''sha256:'' @ replicate 64 (CHR ''b'')"

definition sample_prepare :: claim_prepare where
  "sample_prepare = \<lparr>pq_schema = claim_prepare_schema, pq_claim_generation = 1,
     pq_claim_digest = sample_digest, pq_binding = sample_node_binding\<rparr>"

definition sample_release :: claim_release where
  "sample_release = \<lparr>rq_schema = claim_release_schema, rq_claim_generation = 2,
     rq_claim_digest = released_digest, rq_binding = sample_node_binding\<rparr>"

definition sample_prepared :: claim_prepared where
  "sample_prepared = \<lparr>pd_schema = claim_prepared_schema, pd_claim_id = 40, pd_claim_generation = 1,
     pd_claim_digest = sample_digest, pd_binding_digest = sample_digest,
     pd_slots = map slot_binding_evidence sample_bindings, pd_prepared_at = 2000000000\<rparr>"

definition sample_released :: claim_released where
  "sample_released = \<lparr>rd_schema = claim_released_schema, rd_claim_id = 40, rd_claim_generation = 2,
     rd_claim_digest = released_digest, rd_binding_digest = sample_digest,
     rd_slots = map slot_binding_evidence sample_bindings, rd_released_at = 2000000000\<rparr>"

definition sample_envelope :: "uuid \<Rightarrow> uuid \<Rightarrow> u64 \<Rightarrow> payload \<Rightarrow> envelope" where
  "sample_envelope command_id lease_id sequence p =
     \<lparr>ce_schema = envelope_schema, ce_command_id = command_id, ce_lease_id = lease_id, ce_node_id = 7,
      ce_sequence = sequence, ce_aggregate_id = 40, ce_generation = payload_generation sample_protocol p,
      ce_payload_schema = payload_schema sample_protocol p, ce_payload_digest = sample_digest,
      ce_issued_at = 1000000000, ce_not_after = 9000000000, ce_correlation_id = 301, ce_payload = p\<rparr>"

abbreviation prepare_envelope :: envelope where
  "prepare_envelope \<equiv> sample_envelope 101 201 1 (ResourceClaimPrepare sample_prepare)"

abbreviation release_envelope :: envelope where
  "release_envelope \<equiv> sample_envelope 102 202 2 (ResourceClaimRelease sample_release)"

abbreviation sample_entry :: "envelope \<Rightarrow> command_result option \<Rightarrow> entry" where
  "sample_entry e r \<equiv> \<lparr>je_envelope = e,
     je_completion = map_option (\<lambda>r. \<lparr>jc_completed_at = 3000000000, jc_outcome = Succeeded r\<rparr>) r,
     je_acknowledged = False\<rparr>"

definition sample_journal :: "u64 \<Rightarrow> aggregate_generation \<Rightarrow> (uuid \<times> entry) list \<Rightarrow> journal" where
  "sample_journal n g es = \<lparr>cj_schema = journal_schema, cj_node_id = 7, cj_last_received = n,
     cj_last_acknowledged = 0, cj_aggregate_generations = [(40, g)], cj_entries = es\<rparr>"

abbreviation prepare_generation :: aggregate_generation where
  "prepare_generation \<equiv> \<lparr>ag_generation = 1, ag_state_digest = sample_digest\<rparr>"

abbreviation release_generation :: aggregate_generation where
  "release_generation \<equiv> \<lparr>ag_generation = 2, ag_state_digest = released_digest\<rparr>"

definition prepare_begun :: journal where
  "prepare_begun = sample_journal 1 prepare_generation [(101, sample_entry prepare_envelope None)]"

definition prepare_completed :: journal where
  "prepare_completed = sample_journal 1 prepare_generation
     [(101, sample_entry prepare_envelope (Some (ResourceClaimPrepared sample_prepared)))]"

definition release_begun :: journal where
  "release_begun = sample_journal 2 release_generation
     [(101, sample_entry prepare_envelope (Some (ResourceClaimPrepared sample_prepared))),
      (102, sample_entry release_envelope None)]"

definition release_completed :: journal where
  "release_completed = sample_journal 2 release_generation
     [(101, sample_entry prepare_envelope (Some (ResourceClaimPrepared sample_prepared))),
      (102, sample_entry release_envelope (Some (ResourceClaimReleased sample_released)))]"

lemma sample_requests_valid:
  "contract_validate_sha256 l sample_digest = Inr ()" "contract_validate_sha256 l released_digest = Inr ()"
  "claim_prepare_validate sample_prepare = Inr ()" "claim_release_validate sample_release = Inr ()"
proof -
  have "is_sha256_digest released_digest"
    by (simp add: released_digest_def is_sha256_digest_def strip_prefix_def list_all_iff lower_hex_def)
  note d = contract_accepts_digest [OF sample_digest_valid] contract_accepts_digest [OF this]
  show "contract_validate_sha256 l sample_digest = Inr ()" "contract_validate_sha256 l released_digest = Inr ()"
    using d by simp_all
  show "claim_prepare_validate sample_prepare = Inr ()" "claim_release_validate sample_release = Inr ()"
    using d sample_node_binding_valid
    by (simp_all add: claim_prepare_validate_def claim_release_validate_def sample_prepare_def sample_release_def)
qed

lemma sample_evidence_valid:
  "claim_prepared_validate_for sample_externals sample_prepared sample_prepare = Inr ()"
  "claim_released_validate_for sample_externals sample_released sample_release = Inr ()"
proof -
  have digest: "node_binding_digest sample_externals sample_node_binding = Inr sample_digest"
    by (simp add: node_binding_digest_def canonical_digest_def sample_node_binding_valid sample_hash ok_or_def)
  have slots: "validate_slot_evidence (map slot_binding_evidence sample_bindings) = Inr ()"
    by (rule slot_evidence_of_bindings_valid [OF sample_bindings_valid])
  show "claim_prepared_validate_for sample_externals sample_prepared sample_prepare = Inr ()"
    using digest slots sample_requests_valid
    by (simp add: claim_prepared_validate_for_def claim_prepared_validate_def sample_prepared_def
        validate_uuid_def timestamp_millis_def) (simp add: sample_prepare_def sample_node_binding_def)
  show "claim_released_validate_for sample_externals sample_released sample_release = Inr ()"
    using digest slots sample_requests_valid
    by (simp add: claim_released_validate_for_def claim_released_validate_def sample_released_def
        validate_uuid_def timestamp_millis_def) (simp add: sample_release_def sample_node_binding_def)
qed
lemma sample_payload_digest:
  "payload_validate sample_protocol p = Inr () \<Longrightarrow> payload_digest sample_protocol p = Inr sample_digest"
  by (simp add: payload_digest_def sample_protocol_def sample_hash ok_or_def)

lemma sample_envelope_valid:
  assumes "command_id \<noteq> 0" and "lease_id \<noteq> 0" and "sequence \<noteq> 0"
    and "payload_validate sample_protocol p = Inr ()" and "payload_generation sample_protocol p \<noteq> 0"
    and "envelope_identity sample_protocol (sample_envelope command_id lease_id sequence p) p = Inr ()"
  shows "envelope_validate sample_protocol (sample_envelope command_id lease_id sequence p) = Inr ()"
  using assms sample_payload_digest [OF assms(4)] sample_requests_valid(1)
  by (simp add: envelope_validate_def sample_envelope_def validate_uuid_def)

lemma sample_envelopes_valid:
  "envelope_validate sample_protocol prepare_envelope = Inr ()"
  "envelope_validate sample_protocol release_envelope = Inr ()"
  by (rule sample_envelope_valid; simp add: sample_requests_valid sample_envelope_def;
      simp add: sample_prepare_def sample_release_def sample_node_binding_def)+

lemma sample_entries_ok:
  "entry_ok sample_protocol 7 101 (sample_entry prepare_envelope None)"
  "entry_ok sample_protocol 7 102 (sample_entry release_envelope None)"
  "entry_ok sample_protocol 7 101
     (sample_entry prepare_envelope (Some (ResourceClaimPrepared sample_prepared)))"
  "entry_ok sample_protocol 7 102
     (sample_entry release_envelope (Some (ResourceClaimReleased sample_released)))"
proof -
  have e: "ce_command_id (sample_envelope i l s p) = i" "ce_node_id (sample_envelope i l s p) = 7"
      "ce_payload (sample_envelope i l s p) = p" "ce_issued_at (sample_envelope i l s p) = 1000000000"
    for i l s p
    by (simp_all add: sample_envelope_def)
  have t: "pd_prepared_at sample_prepared = 2000000000" "rd_released_at sample_released = 2000000000"
    by (simp_all add: sample_prepared_def sample_released_def)
  have p: "px sample_protocol = sample_externals"
    by (simp add: sample_protocol_def)
  have v: "claim_prepared_validate sample_prepared = Inr ()" "claim_released_validate sample_released = Inr ()"
    using sample_evidence_valid
    by (simp_all add: claim_prepared_validate_for_def claim_released_validate_for_def)
  note defs = entry_ok_def entry_acknowledgement_def is_ok_iff ack_validate_against_def Let_def
    ack_validate_success_def result_validate_against_def evidence_time_within_def
  show "entry_ok sample_protocol 7 101 (sample_entry prepare_envelope None)"
    "entry_ok sample_protocol 7 102 (sample_entry release_envelope None)"
    by (simp_all add: entry_ok_def entry_acknowledgement_def e sample_envelopes_valid)
  show "entry_ok sample_protocol 7 101
      (sample_entry prepare_envelope (Some (ResourceClaimPrepared sample_prepared)))"
    by (simp add: defs e t p v sample_envelopes_valid sample_evidence_valid)
  show "entry_ok sample_protocol 7 102
      (sample_entry release_envelope (Some (ResourceClaimReleased sample_released)))"
    by (simp add: defs e t p v sample_envelopes_valid sample_evidence_valid)
qed

lemma sample_journal_valid:
  assumes "\<forall>(i, x)\<in>set es. entry_ok sample_protocol 7 i x \<and> \<not> je_acknowledged x"
    and ss: "map (entry_sequence \<circ> snd) es = ss" "distinct ss" "sorted ss" "ss \<noteq> []" "hd ss = 1"
      "last ss = n" "length ss = unat n"
    and "is_ok (resource_claim_projection sample_protocol (sample_journal n g es))"
    and "ag_generation g \<noteq> 0" and "journal_is_sha256 (ag_state_digest g)"
  shows "journal_validate sample_protocol (sample_journal n g es) = Inr ()"
proof -
  let ?j = "sample_journal n g es"
  have v: "validate_entries sample_protocol 7 [] es = Inr (rev ss)"
    using assms(1) ss(1,2) by (auto simp: validate_entries_iff)
  have s: "sort (rev ss) = ss"
    by (rule properties_for_sort) (simp_all add: ss(3))
  have "distinct (journal_sequences ?j)"
    using ss(1,2) by (simp add: journal_sequences_def sample_journal_def btree_values_def comp_def)
  then have "btree_get (acknowledged_by_sequence ?j) 1 \<noteq> Some True"
    using assms(1) by (auto simp: acknowledged_by_sequence_get sample_journal_def btree_values_def)
  then have c: "contiguous_acknowledged_sequence ?j = 0"
    by (simp add: contiguous_acknowledged_sequence_def contiguous_from.simps [of _ 0] checked_add_def)
  obtain m where m: "resource_claim_projection sample_protocol ?j = Inr m"
    using assms(9) by (auto simp: is_ok_iff)
  have o: "oc_code_runs (po sample_protocol) es = Inr JNull"
      "oc_provider_runs (po sample_protocol) es = Inr JNull" for es
    by (simp_all add: sample_protocol_def sample_other_def)
  have f: "cj_schema ?j = journal_schema" "cj_node_id ?j = 7" "cj_last_received ?j = n"
      "cj_last_acknowledged ?j = 0" "btree_values (cj_aggregate_generations ?j) = [g]" "cj_entries ?j = es"
    by (simp_all add: sample_journal_def btree_values_def)
  have "n \<noteq> 0" using ss(4,7) by auto
  then show ?thesis
    by (simp add: journal_validate_def f v s ss c m o assms(10,11))
qed
lemmas sample_projection_defs =
  resource_claim_projection_def entries_in_order_def btree_values_def projection_apply_def succeeded_def
  register_prepare_def register_release_def projected_new_def btree_get_def activate_prepared_def
  candidate_conflict_def validate_release_def Let_def

lemma sample_requests_sel:
  "pq_binding sample_prepare = sample_node_binding" "pq_claim_generation sample_prepare = 1"
  "pq_claim_digest sample_prepare = sample_digest" "rq_binding sample_release = sample_node_binding"
  "rq_claim_generation sample_release = 2" "rq_claim_digest sample_release = released_digest"
  "nb_claim_id sample_node_binding = 40" "released_digest \<noteq> sample_digest"
  "ce_payload (sample_envelope i l s p) = p" "ce_sequence (sample_envelope i l s p) = s"
  "ce_command_id (sample_envelope i l s p) = i" "ce_aggregate_id (sample_envelope i l s p) = 40"
  "ce_node_id (sample_envelope i l s p) = 7"
  "ce_generation (sample_envelope i l s p) = payload_generation sample_protocol p"
  "px sample_protocol = sample_externals"
  by (simp_all add: sample_prepare_def sample_release_def sample_node_binding_def released_digest_def
      sample_digest_def sample_envelope_def sample_protocol_def)

lemma sample_numbers: "\<not> (2 :: u64) \<le> 1" "(1 :: u64) \<le> 2" "(1 :: u64) < 2" "\<not> (2 :: u64) < 1"
  by (simp_all add: word_le_nat_alt word_less_nat_alt)

lemma sample_projections:
  "is_ok (resource_claim_projection sample_protocol prepare_begun)"
  "is_ok (resource_claim_projection sample_protocol prepare_completed)"
  "is_ok (resource_claim_projection sample_protocol release_begun)"
  "is_ok (resource_claim_projection sample_protocol release_completed)"
  by (simp_all add: prepare_begun_def prepare_completed_def release_begun_def release_completed_def
      sample_journal_def sample_projection_defs sample_requests_sel sample_requests_valid
      sample_evidence_valid sample_numbers)

lemma sample_journals_valid:
  "journal_validate sample_protocol prepare_begun = Inr ()"
  "journal_validate sample_protocol prepare_completed = Inr ()"
  "journal_validate sample_protocol release_begun = Inr ()"
  "journal_validate sample_protocol release_completed = Inr ()"
proof -
  have d: "journal_is_sha256 sample_digest" "journal_is_sha256 released_digest"
    by (simp_all add: journal_is_sha256_def sample_digest_def released_digest_def strip_prefix_def
        ascii_hexdigit_def lower_hex_def list_all_iff)
  note projections = sample_projections [unfolded prepare_begun_def prepare_completed_def
      release_begun_def release_completed_def]
  show "journal_validate sample_protocol prepare_begun = Inr ()"
    unfolding prepare_begun_def
    by (rule sample_journal_valid [OF _ refl])
      (use sample_entries_ok projections in \<open>simp_all add: sample_requests_sel sample_numbers d\<close>)
  show "journal_validate sample_protocol prepare_completed = Inr ()"
    unfolding prepare_completed_def
    by (rule sample_journal_valid [OF _ refl])
      (use sample_entries_ok projections in \<open>simp_all add: sample_requests_sel sample_numbers d\<close>)
  show "journal_validate sample_protocol release_begun = Inr ()"
    unfolding release_begun_def
    by (rule sample_journal_valid [OF _ refl])
      (use sample_entries_ok projections in \<open>simp_all add: sample_requests_sel sample_numbers d\<close>)
  show "journal_validate sample_protocol release_completed = Inr ()"
    unfolding release_completed_def
    by (rule sample_journal_valid [OF _ refl])
      (use sample_entries_ok projections in \<open>simp_all add: sample_requests_sel sample_numbers d\<close>)
qed

abbreviation working_io :: io where
  "working_io \<equiv> \<lparr>io_open = None, io_write = Written\<rparr>"

lemma sample_empty_valid: "journal_validate sample_protocol (journal_empty 7) = Inr ()"
  by (simp add: journal_validate_def journal_empty_def sample_projection_defs
      contiguous_acknowledged_sequence_def acknowledged_by_sequence_def contiguous_from.simps [of _ 0]
      checked_add_def sample_protocol_def sample_other_def)


lemma sample_read:
  "journal_validate sample_protocol j = Inr () \<Longrightarrow> cj_node_id j = 7 \<Longrightarrow>
   read_journal sample_protocol 7 working_io (Some j) = Inr j"
  by (simp add: read_journal_def)

lemma sample_run_prepare:
  "journal_begin sample_protocol 7 working_io None prepare_envelope = (Some prepare_begun, Inr Execute)"
  "\<exists>a. journal_complete sample_protocol 7 working_io (Some prepare_begun) 101 3000000000
     (Succeeded (ResourceClaimPrepared sample_prepared)) = (Some prepare_completed, Inr a)"
proof -
  have r: "read_journal sample_protocol 7 working_io None = Inr (journal_empty 7)"
    using sample_empty_valid by (simp add: read_journal_def journal_empty_def)
  show "journal_begin sample_protocol 7 working_io None prepare_envelope = (Some prepare_begun, Inr Execute)"
    using sample_journals_valid(1)
    by (simp add: journal_begin_def sample_envelopes_valid r sample_requests_sel sample_requests_valid)
      (simp add: journal_empty_def checked_add_def sample_requests_sel sample_requests_valid Let_def
        fence_generation_def commit_journal_def write_journal_def prepare_begun_def sample_journal_def btree_get_def)
  have "read_journal sample_protocol 7 working_io (Some prepare_begun) = Inr prepare_begun"
    by (rule sample_read [OF sample_journals_valid(1)]) (simp add: prepare_begun_def sample_journal_def)
  then show "\<exists>a. journal_complete sample_protocol 7 working_io (Some prepare_begun) 101 3000000000
     (Succeeded (ResourceClaimPrepared sample_prepared)) = (Some prepare_completed, Inr a)"
    using sample_journals_valid(2) sample_entries_ok(3)
    by (auto simp: journal_complete_def entry_ok_def is_ok_iff prepare_begun_def prepare_completed_def
        sample_journal_def btree_get_def entry_acknowledgement_def ok_or_def Let_def commit_journal_def
        write_journal_def)
qed

lemma sample_run_release:
  "journal_begin sample_protocol 7 working_io (Some prepare_completed) release_envelope
     = (Some release_begun, Inr Execute)"
  "\<exists>a. journal_complete sample_protocol 7 working_io (Some release_begun) 102 3000000000
     (Succeeded (ResourceClaimReleased sample_released)) = (Some release_completed, Inr a)"
proof -
  have r: "read_journal sample_protocol 7 working_io (Some prepare_completed) = Inr prepare_completed"
    by (rule sample_read [OF sample_journals_valid(2)]) (simp add: prepare_completed_def sample_journal_def)
  show "journal_begin sample_protocol 7 working_io (Some prepare_completed) release_envelope
     = (Some release_begun, Inr Execute)"
    using sample_journals_valid(3)
    by (simp add: journal_begin_def sample_envelopes_valid r sample_requests_sel sample_requests_valid)
      (simp add: prepare_completed_def checked_add_def sample_requests_sel sample_requests_valid Let_def
        fence_generation_def commit_journal_def write_journal_def release_begun_def sample_journal_def
        btree_get_def sample_numbers)
  have "read_journal sample_protocol 7 working_io (Some release_begun) = Inr release_begun"
    by (rule sample_read [OF sample_journals_valid(3)]) (simp add: release_begun_def sample_journal_def)
  then show "\<exists>a. journal_complete sample_protocol 7 working_io (Some release_begun) 102 3000000000
     (Succeeded (ResourceClaimReleased sample_released)) = (Some release_completed, Inr a)"
    using sample_journals_valid(4) sample_entries_ok(4)
    by (auto simp: journal_complete_def entry_ok_def is_ok_iff release_begun_def release_completed_def
        sample_journal_def btree_get_def entry_acknowledgement_def ok_or_def Let_def commit_journal_def
        write_journal_def)
qed

lemma sample_reachable:
  "(file_step sample_protocol 7)\<^sup>*\<^sup>* None (Some prepare_begun)"
  "(file_step sample_protocol 7)\<^sup>*\<^sup>* (Some prepare_completed) (Some release_completed)"
  "(file_step sample_protocol 7)\<^sup>*\<^sup>* None (Some release_completed)"
proof -
  have "file_step sample_protocol 7 None (Some prepare_begun)"
    by (rule file_step.begins [OF sample_run_prepare(1)])
  then show 1: "(file_step sample_protocol 7)\<^sup>*\<^sup>* None (Some prepare_begun)" by blast
  have p: "file_step sample_protocol 7 (Some prepare_begun) (Some prepare_completed)"
    using sample_run_prepare(2) by (blast intro: file_step.completes)
  have "file_step sample_protocol 7 (Some prepare_completed) (Some release_begun)"
    by (rule file_step.begins [OF sample_run_release(1)])
  moreover have "file_step sample_protocol 7 (Some release_begun) (Some release_completed)"
    using sample_run_release(2) by (blast intro: file_step.completes)
  ultimately show 2: "(file_step sample_protocol 7)\<^sup>*\<^sup>* (Some prepare_completed) (Some release_completed)"
    by (rule rtranclp_trans [OF r_into_rtranclp r_into_rtranclp])
  show "(file_step sample_protocol 7)\<^sup>*\<^sup>* None (Some release_completed)"
    by (rule rtranclp_trans [OF rtranclp.rtrancl_into_rtrancl [OF 1 p] 2])
qed
theorem journal_always_readable_witness:
  "read_journal sample_protocol 7 working_io (Some release_completed) = Inr release_completed \<and>
   (\<exists>!i. \<exists>x. btree_get (cj_entries release_completed) i = Some x \<and> entry_sequence x = 2)"
proof -
  have "(0 :: u64) < 2" and "2 \<le> cj_last_received release_completed"
    by (simp_all add: release_completed_def sample_journal_def word_less_nat_alt)
  then show ?thesis
    using journal_always_readable [OF sample_reachable(3), of Written] by blast
qed

theorem command_completes_once_witness:
  "\<exists>a. journal_complete sample_protocol 7 working_io (Some prepare_begun) 101 3000000000
      (Succeeded (ResourceClaimPrepared sample_prepared)) = (Some prepare_completed, Inr a) \<and>
    (\<forall>io e f d. ce_command_id e = 101 \<and>
      journal_begin sample_protocol 7 io (Some release_completed) e = (f, Inr d) \<longrightarrow>
      (\<exists>b. d = Replay b \<and> ak_outcome b = Succeeded (ResourceClaimPrepared sample_prepared)))"
proof -
  obtain a where a: "journal_complete sample_protocol 7 working_io (Some prepare_begun) 101 3000000000
      (Succeeded (ResourceClaimPrepared sample_prepared)) = (Some prepare_completed, Inr a)"
    using sample_run_prepare(2) by blast
  from command_completes_once [OF sample_reachable(1) this sample_reachable(2)] a show ?thesis by blast
qed

theorem aggregate_generations_fenced_witness:
  "\<exists>err. journal_begin sample_protocol 7 working_io (Some release_completed)
     (sample_envelope 103 203 3 (ResourceClaimPrepare sample_prepare)) = (Some release_completed, Inl err)"
proof -
  let ?x = "sample_entry release_envelope (Some (ResourceClaimReleased sample_released))"
  let ?e = "sample_envelope 103 203 3 (ResourceClaimPrepare sample_prepare)"
  have x: "btree_get (cj_entries release_completed) 102 = Some ?x"
    and e: "btree_get (cj_entries release_completed) (ce_command_id ?e) = None"
    by (simp_all add: release_completed_def sample_journal_def btree_get_def sample_requests_sel)
  have d: "state_mutation_digest sample_protocol (ce_payload (je_envelope ?x)) = Inr (Some released_digest)"
    and d': "state_mutation_digest sample_protocol (ce_payload ?e) = Inr (Some sample_digest)"
    by (simp_all add: sample_requests_sel sample_requests_valid)
  have "ce_aggregate_id ?e = entry_aggregate ?x" and "ce_generation ?e < ce_generation (je_envelope ?x)"
    by (simp_all add: sample_requests_sel sample_numbers)
  with aggregate_generations_fenced [OF sample_reachable(3) x d] e d' show ?thesis by blast
qed

theorem redelivery_is_answered_witness:
  "\<exists>f a. journal_begin sample_protocol 7 working_io (Some release_completed)
      (prepare_envelope\<lparr>ce_lease_id := 999\<rparr>) = (f, Inr (Replay a)) \<and> ak_lease_id a = 999 \<and>
    ak_outcome a = Succeeded (ResourceClaimPrepared sample_prepared)"
proof -
  have "btree_get (cj_entries release_completed) 101 =
      Some (sample_entry prepare_envelope (Some (ResourceClaimPrepared sample_prepared)))"
    by (simp add: release_completed_def sample_journal_def btree_get_def)
  from redelivery_is_answered [OF sample_reachable(3) this, of 999] show ?thesis by auto
qed

theorem acknowledgement_loop_terminates_witness:
  "\<exists>j'. while_option (\<lambda>s. btree_get (acknowledged_by_sequence j') (s + 1) = Some True) (\<lambda>s. s + 1) 0
      = Some (contiguous_acknowledged_sequence j') \<and> contiguous_acknowledged_sequence j' = 1"
proof -
  let ?x = "sample_entry prepare_envelope (Some (ResourceClaimPrepared sample_prepared))"
  let ?j = "release_completed\<lparr>cj_entries := btree_insert 101 (?x\<lparr>je_acknowledged := True\<rparr>)
    (cj_entries release_completed)\<rparr>"
  have x: "btree_get (cj_entries release_completed) 101 = Some ?x"
    by (simp add: release_completed_def sample_journal_def btree_get_def)
  have wf: "btree_wf (cj_entries release_completed)"
    by (simp add: release_completed_def sample_journal_def btree_wf_def word_less_nat_alt)
  have "acknowledged_by_sequence ?j = [(1, True), (2, False)]"
    by (simp add: release_completed_def sample_journal_def acknowledged_by_sequence_def btree_values_def
        sample_requests_sel sample_numbers)
  then have "contiguous_acknowledged_sequence ?j = 1"
    by (simp add: contiguous_acknowledged_sequence_def contiguous_from.simps [of _ 0]
        contiguous_from.simps [of _ 1] checked_add_def btree_get_def)
  with acknowledgement_loop_terminates [OF sample_journals_valid(4) wf x refl, of True] show ?thesis by blast
qed

end
