(* ===== verification/Claim_Projection.thy ===== *)
theory Claim_Projection
  imports Journal_Safety
begin

text \<open>
  What the agent's journal guarantees about resource claims: the projection of the claims over the
  journaled commands, \<open>ResourceClaimJournalProjection\<close> of \<open>node-agent/src/journal.rs\<close>, keeps the
  active claims apart from each other, lets a bound claim go only after its Runtime unit was stopped
  or removed, and never takes a claim back after its release.
\<close>

section \<open>The projection keeps active claims apart\<close>

text \<open>Two claims that may be active together: other Runtime identities, no common exclusive slot.\<close>

definition compatible :: "node_binding \<Rightarrow> node_binding \<Rightarrow> bool" where
  "compatible b b' \<longleftrightarrow>
     (nb_runtime_unit_id b, nb_runtime_generation b) \<noteq> (nb_runtime_unit_id b', nb_runtime_generation b') \<and>
     (\<forall>s\<in>set (nb_slots b). \<forall>s'\<in>set (nb_slots b').
        \<not> is_shared_capacity (sb_kind s) \<longrightarrow> sb_key s \<noteq> sb_key s')"

lemma compatible_sym: "compatible b b' \<Longrightarrow> compatible b' b"
  by (fastforce simp: compatible_def sb_key_def)

definition projection_wf :: "projection \<Rightarrow> bool" where
  "projection_wf m \<longleftrightarrow>
     btree_wf m \<and> (\<forall>k p. btree_get m k = Some p \<longrightarrow> nb_claim_id (pj_binding p) = k)"

definition projection_inv :: "projection \<Rightarrow> bool" where
  "projection_inv m \<longleftrightarrow>
     projection_wf m \<and>
     (\<forall>k p k' p'. btree_get m k = Some p \<longrightarrow> btree_get m k' = Some p' \<longrightarrow> k \<noteq> k' \<longrightarrow>
        pj_active p \<longrightarrow> pj_active p' \<longrightarrow> compatible (pj_binding p) (pj_binding p'))"

text \<open>
  One key of the projection at a time. Registering a command leaves the binding and the flags of a
  known claim alone; a successful result changes one flag, and only as the relation below says.
\<close>

definition same_flags :: "projected \<Rightarrow> projected \<Rightarrow> bool" where
  "same_flags p p' \<longleftrightarrow>
     pj_binding p' = pj_binding p \<and> pj_prepare_generation p' = pj_prepare_generation p \<and>
     pj_active p' = pj_active p \<and> pj_bound p' = pj_bound p \<and>
     pj_runtime_fenced p' = pj_runtime_fenced p \<and> pj_released p' = pj_released p"

lemma same_flags_refl [simp]: "same_flags p p"
  by (simp add: same_flags_def)

lemma register_entry_get:
  assumes "register_entry m pl c = Inr m'" and "btree_get m' k = Some p'"
  shows "(\<exists>p. btree_get m k = Some p \<and> same_flags p p') \<or>
    btree_get m k = None \<and> (\<exists>q. pl = ResourceClaimPrepare q \<and> nb_claim_id (pq_binding q) = k \<and>
      same_flags (projected_new q) p')"
  using assms
  by (cases "(m, pl, c)" rule: register_entry.cases)
    (auto simp: Let_def register_release_def same_flags_def btree_get_insert
      split: if_split_asm option.split_asm)

lemma register_entry_keeps:
  assumes "register_entry m pl c = Inr m'" and "btree_get m k = Some p"
  shows "\<exists>p'. btree_get m' k = Some p' \<and> same_flags p p'"
  using assms
  by (cases "(m, pl, c)" rule: register_entry.cases)
    (auto simp: Let_def register_release_def same_flags_def btree_get_insert
      split: if_split_asm option.split_asm)

lemma register_entry_wf:
  assumes "register_entry m pl c = Inr m'" and "projection_wf m"
  shows "projection_wf m'"
proof -
  have "btree_wf m'"
    using assms by (cases "(m, pl, c)" rule: register_entry.cases)
      (auto simp: Let_def projection_wf_def btree_wf_insert split: option.split_asm)
  moreover have "nb_claim_id (pj_binding p') = k" if "btree_get m' k = Some p'" for k p'
    using register_entry_get [OF assms(1) that] assms(2)
    by (auto simp: projection_wf_def same_flags_def projected_new_def)
  ultimately show ?thesis by (simp add: projection_wf_def)
qed

text \<open>The results that fence a Runtime unit.\<close>

fun fenced_unit :: "protocol \<Rightarrow> payload \<Rightarrow> command_result \<Rightarrow> (string \<times> u64) option" where
  "fenced_unit P (RuntimeStop q) (RuntimeStopped i) =
     (if stopped_or_absent P i then Some (ar_unit_id q, ar_generation q) else None)"
| "fenced_unit P (RuntimeRemove q) (RuntimeRemoved r) = Some (ar_unit_id q, ar_generation q)"
| "fenced_unit P p r = None"

abbreviation binding_unit :: "node_binding \<Rightarrow> string \<times> u64" where
  "binding_unit b \<equiv> (nb_runtime_unit_id b, nb_runtime_generation b)"

inductive projected_change ::
    "protocol \<Rightarrow> projection \<Rightarrow> payload \<Rightarrow> command_result \<Rightarrow> uuid \<Rightarrow> projected \<Rightarrow> projected \<Rightarrow> bool"
  for P m where
  unchanged: "projected_change P m pl r k p p"
| activated: "nb_claim_id (pq_binding q) = k \<Longrightarrow> \<not> pj_active p \<Longrightarrow>
    \<forall>k' p'. btree_get m k' = Some p' \<longrightarrow> k' \<noteq> k \<longrightarrow> pj_active p' \<longrightarrow> compatible (pq_binding q) (pj_binding p') \<Longrightarrow>
    projected_change P m (ResourceClaimPrepare q) (ResourceClaimPrepared e) k p
      (p\<lparr>pj_active := True, pj_released := False\<rparr>)"
| bound: "nb_claim_id b = k \<Longrightarrow> pj_active p \<Longrightarrow> pj_binding p = b \<Longrightarrow>
    projected_change P m (RuntimeApply q (Some b)) (RuntimeApplied ob) k p
      (p\<lparr>pj_bound := True, pj_runtime_fenced := False\<rparr>)"
| fenced: "fenced_unit P pl r = Some (binding_unit (pj_binding p)) \<Longrightarrow> pj_active p \<Longrightarrow>
    projected_change P m pl r k p (p\<lparr>pj_runtime_fenced := True\<rparr>)"
| released: "nb_claim_id (rq_binding q) = k \<Longrightarrow> validate_release m q = Inr () \<Longrightarrow>
    projected_change P m (ResourceClaimRelease q) (ResourceClaimReleased e) k p
      (p\<lparr>pj_active := False, pj_released := True\<rparr>)"

lemma mark_runtime_fenced_get:
  "btree_get (mark_runtime_fenced m u g) k = map_option (\<lambda>p.
     if pj_active p \<and> same_runtime p u g then p\<lparr>pj_runtime_fenced := True\<rparr> else p) (btree_get m k)"
  by (induction m) (auto simp: mark_runtime_fenced_def btree_get_def)

lemma mark_runtime_fenced_wf: "btree_wf m \<Longrightarrow> btree_wf (mark_runtime_fenced m u g)"
  by (simp add: btree_wf_def mark_runtime_fenced_def comp_def case_prod_unfold)

lemma activate_prepared_change:
  assumes "activate_prepared m q = Inr m'" and "projection_wf m"
  shows "\<exists>p. btree_get m (nb_claim_id (pq_binding q)) = Some p \<and> \<not> pj_active p \<and>
    (\<forall>k' p'. btree_get m k' = Some p' \<longrightarrow> k' \<noteq> nb_claim_id (pq_binding q) \<longrightarrow> pj_active p' \<longrightarrow>
       compatible (pq_binding q) (pj_binding p')) \<and>
    m' = btree_insert (nb_claim_id (pq_binding q)) (p\<lparr>pj_active := True, pj_released := False\<rparr>) m"
proof -
  let ?b = "pq_binding q"
  have vals: "p \<in> set (btree_values m) \<longleftrightarrow> (\<exists>k. btree_get m k = Some p)" for p
    using assms(2) by (simp add: projection_wf_def btree_values_iff)
  from assms(1) obtain p where p: "btree_get m (nb_claim_id ?b) = Some p"
      "m' = btree_insert (nb_claim_id ?b) (p\<lparr>pj_active := True, pj_released := False\<rparr>) m"
    and rt: "\<not> list_ex (\<lambda>c. pj_active c \<and> nb_claim_id (pj_binding c) \<noteq> nb_claim_id ?b
      \<and> same_runtime c (nb_runtime_unit_id ?b) (nb_runtime_generation ?b)) (btree_values m)"
    and cc: "\<forall>c\<in>set (btree_values m). pj_active c \<longrightarrow> candidate_conflict ?b c = Inr ()"
    by (auto simp: activate_prepared_def Let_def split: if_split_asm option.split_asm)
  have "\<not> pj_active p"
  proof
    assume "pj_active p"
    with cc vals p(1) have "candidate_conflict ?b p = Inr ()" by blast
    then show False
      using p(1) assms(2) by (simp add: candidate_conflict_def projection_wf_def split: if_split_asm)
  qed
  moreover have "compatible ?b (pj_binding p')"
    if p': "btree_get m k' = Some p'" "k' \<noteq> nb_claim_id ?b" "pj_active p'" for k' p'
  proof -
    have "p' \<in> set (btree_values m)" and "nb_claim_id (pj_binding p') \<noteq> nb_claim_id ?b"
      using p' vals assms(2) by (auto simp: projection_wf_def)
    with p'(3) rt cc show ?thesis
      by (fastforce simp: compatible_def same_runtime_def candidate_conflict_def list_ex_iff
          split: if_split_asm)
  qed
  ultimately show ?thesis using p by blast
qed
definition projected_changes :: "protocol \<Rightarrow> projection \<Rightarrow> payload \<Rightarrow> command_result \<Rightarrow> projection \<Rightarrow> bool" where
  "projected_changes P m pl r m' \<longleftrightarrow>
     btree_wf m' \<and>
     (\<forall>k. case btree_get m k of
        None \<Rightarrow> btree_get m' k = None
      | Some p \<Rightarrow> \<exists>p'. btree_get m' k = Some p' \<and> projected_change P m pl r k p p')"

lemma projected_changes_refl: "btree_wf m \<Longrightarrow> projected_changes P m pl r m"
  by (auto simp: projected_changes_def intro: projected_change.unchanged split: option.split)

lemma projected_changes_insert:
  assumes "btree_wf m" and "btree_get m k = Some p" and "projected_change P m pl r k p p'"
  shows "projected_changes P m pl r (btree_insert k p' m)"
  using assms by (auto simp: projected_changes_def btree_wf_insert btree_get_insert
      intro: projected_change.unchanged split: option.split)

lemma projected_changes_fence:
  assumes "btree_wf m" and "fenced_unit P pl r = Some (u, g)"
  shows "projected_changes P m pl r (mark_runtime_fenced m u g)"
proof -
  have "projected_change P m pl r k p (if pj_active p \<and> same_runtime p u g then p\<lparr>pj_runtime_fenced := True\<rparr> else p)"
    for k p
    using assms(2) by (auto simp: same_runtime_def intro: projected_change.unchanged projected_change.fenced)
  then show ?thesis
    using assms(1) by (auto simp: projected_changes_def mark_runtime_fenced_get mark_runtime_fenced_wf split: option.split)
qed

lemma validate_runtime_apply_active:
  assumes "validate_runtime_apply P m spec (Some b) = Inr ()"
  shows "\<exists>c\<in>set (btree_values m). pj_active c \<and> pj_binding c = b"
proof -
  let ?f = "find (\<lambda>p. pj_active p \<and> same_runtime p (us_unit_id spec) (us_generation spec)) (btree_values m)"
  from assms obtain c where c: "?f = Some c" "pj_binding c = b"
    by (auto simp: validate_runtime_apply_def Let_def split: option.split_asm if_split_asm)
  then have "c \<in> set (btree_values m)" and "pj_active c"
    by (auto simp: find_Some_iff)
  with c(2) show ?thesis by blast
qed

lemma projected_changes_bound:
  assumes "validate_runtime_apply P m spec (Some b) = Inr ()" and "projection_wf m"
    and "btree_get m (nb_claim_id b) = Some p"
  shows "projected_changes P m (RuntimeApply q (Some b)) (RuntimeApplied ob)
    (btree_insert (nb_claim_id b) (p\<lparr>pj_bound := True, pj_runtime_fenced := False\<rparr>) m)"
proof -
  obtain c where c: "c \<in> set (btree_values m)" "pj_active c" "pj_binding c = b"
    using validate_runtime_apply_active [OF assms(1)] by (elim bexE conjE)
  have wf: "btree_wf m" using assms(2) by (simp add: projection_wf_def)
  then obtain k where k: "btree_get m k = Some c"
    using c(1) btree_values_iff [of m c] by blast
  then have "nb_claim_id (pj_binding c) = k"
    using assms(2) unfolding projection_wf_def by blast
  then have "k = nb_claim_id b"
    by (simp only: c(3))
  with k assms(3) have "p = c" by simp
  with c(2,3) have "pj_active p" "pj_binding p = b" by (simp_all only:)
  then have "projected_change P m (RuntimeApply q (Some b)) (RuntimeApplied ob) (nb_claim_id b) p
      (p\<lparr>pj_bound := True, pj_runtime_fenced := False\<rparr>)"
    by (rule projected_change.bound [OF refl])
  then show ?thesis
    by (rule projected_changes_insert [OF wf assms(3)])
qed

lemma apply_result_changes:
  assumes "apply_result P m pl r = Inr m'" and "projection_wf m"
  shows "projected_changes P m pl r m'"
proof -
  have wf: "btree_wf m" using assms(2) by (simp add: projection_wf_def)
  note fence = projected_changes_fence [OF wf] and refl = projected_changes_refl [OF wf]
  have prep: ?thesis if "pl = ResourceClaimPrepare q" "r = ResourceClaimPrepared e" for q e
  proof -
    have "activate_prepared m q = Inr m'" using assms(1) that by simp
    from activate_prepared_change [OF this assms(2)] wf that show ?thesis
      by (auto intro!: projected_changes_insert projected_change.activated)
  qed
  have rel: ?thesis if "pl = ResourceClaimRelease q" "r = ResourceClaimReleased e" for q e
    using assms(1) that wf
    by (auto intro!: projected_changes_insert projected_change.released split: option.split_asm)
  have app: ?thesis if "pl = RuntimeApply q (Some b)" "r = RuntimeApplied ob" for q b ob
    using assms that by (auto intro: projected_changes_bound split: option.split_asm)
  show ?thesis
    using assms(1) prep rel app fence refl
    by (cases "(P, m, pl, r)" rule: apply_result.cases) (auto split: if_split_asm)
qed
lemma projected_change_keeps:
  "projected_change P m pl r k p p' \<Longrightarrow>
   pj_binding p' = pj_binding p \<and> pj_prepare_generation p' = pj_prepare_generation p"
  by (erule projected_change.cases) simp_all

lemma projected_change_activates:
  "projected_change P m pl r k p p' \<Longrightarrow> pj_active p' \<Longrightarrow> \<not> pj_active p \<Longrightarrow>
   \<exists>q e. pl = ResourceClaimPrepare q \<and> r = ResourceClaimPrepared e \<and> nb_claim_id (pq_binding q) = k \<and>
     (\<forall>k' p'. btree_get m k' = Some p' \<longrightarrow> k' \<noteq> k \<longrightarrow> pj_active p' \<longrightarrow>
        compatible (pq_binding q) (pj_binding p'))"
  by (erule projected_change.cases) auto

lemma projected_change_deactivates:
  "projected_change P m pl r k p p' \<Longrightarrow> pj_active p \<Longrightarrow> \<not> pj_active p' \<Longrightarrow>
   \<exists>q e. pl = ResourceClaimRelease q \<and> r = ResourceClaimReleased e \<and> nb_claim_id (rq_binding q) = k \<and>
     validate_release m q = Inr ()"
  by (erule projected_change.cases) auto

lemma projected_changesD:
  "projected_changes P m pl r m' \<Longrightarrow> btree_get m k = Some p \<Longrightarrow>
   \<exists>p'. btree_get m' k = Some p' \<and> projected_change P m pl r k p p'"
  by (auto simp: projected_changes_def dest: spec [of _ k])

lemma projected_changes_old:
  "projected_changes P m pl r m' \<Longrightarrow> btree_get m' k = Some p' \<Longrightarrow>
   \<exists>p. btree_get m k = Some p \<and> projected_change P m pl r k p p'"
  by (cases "btree_get m k") (auto simp: projected_changes_def dest: spec [of _ k])

lemma projected_changes_wf:
  assumes "projected_changes P m pl r m'" and "projection_wf m"
  shows "projection_wf m'"
proof -
  have "nb_claim_id (pj_binding p') = k" if "btree_get m' k = Some p'" for k p'
    using projected_changes_old [OF assms(1) that] assms(2)
    by (auto simp: projection_wf_def dest: projected_change_keeps)
  then show ?thesis
    using assms(1) by (simp add: projection_wf_def projected_changes_def)
qed

lemma register_prepare_binding:
  "register_entry m (ResourceClaimPrepare q) c = Inr m' \<Longrightarrow>
   btree_get m' (nb_claim_id (pq_binding q)) = Some p \<Longrightarrow>
   pj_binding p = pq_binding q \<and> pj_prepare_generation p = pq_claim_generation q"
  by (auto simp: Let_def register_prepare_def btree_get_insert split: if_split_asm option.split_asm)

lemma register_entry_inv:
  assumes "register_entry m pl c = Inr m'" and "projection_inv m"
  shows "projection_inv m'"
proof -
  have "\<exists>p. btree_get m k = Some p \<and> same_flags p p'" if "btree_get m' k = Some p'" "pj_active p'" for k p'
    using register_entry_get [OF assms(1) that(1)] that(2)
    by (auto simp: same_flags_def projected_new_def)
  then show ?thesis
    using register_entry_wf [OF assms(1)] assms(2) unfolding projection_inv_def same_flags_def by metis
qed

lemma projected_changes_inv:
  assumes ch: "projected_changes P m pl r m'" and inv: "projection_inv m"
    and bind: "\<And>q p. pl = ResourceClaimPrepare q \<Longrightarrow> btree_get m (nb_claim_id (pq_binding q)) = Some p \<Longrightarrow>
      pj_binding p = pq_binding q"
  shows "projection_inv m'"
proof -
  have half: "compatible (pj_binding p') (pj_binding s')"
    if k: "btree_get m' k = Some p'" "btree_get m' l = Some s'" "k \<noteq> l" "pj_active p'" "pj_active s'"
      and p: "btree_get m k = Some p" "projected_change P m pl r k p p'" "\<not> pj_active p"
      and s: "btree_get m l = Some s" "projected_change P m pl r l s s'" for k l p p' s s'
  proof -
    obtain q where q: "pl = ResourceClaimPrepare q" "nb_claim_id (pq_binding q) = k"
        "\<forall>k' p'. btree_get m k' = Some p' \<longrightarrow> k' \<noteq> k \<longrightarrow> pj_active p' \<longrightarrow> compatible (pq_binding q) (pj_binding p')"
      using projected_change_activates [OF p(2) k(4) p(3)] by blast
    have "pj_active s"
      using projected_change_activates [OF s(2) k(5)] q k(3) by auto
    with q(3) s(1) k(3) have "compatible (pq_binding q) (pj_binding s)" by blast
    with bind [OF q(1)] q(2) p(1) projected_change_keeps [OF p(2)] projected_change_keeps [OF s(2)] show ?thesis
      by simp
  qed
  have "compatible (pj_binding p') (pj_binding s')"
    if k: "btree_get m' k = Some p'" "btree_get m' l = Some s'" "k \<noteq> l" "pj_active p'" "pj_active s'"
    for k l p' s'
  proof -
    obtain p where p: "btree_get m k = Some p" "projected_change P m pl r k p p'"
      using projected_changes_old [OF ch k(1)] by blast
    obtain s where s: "btree_get m l = Some s" "projected_change P m pl r l s s'"
      using projected_changes_old [OF ch k(2)] by blast
    consider "\<not> pj_active p" | "\<not> pj_active s" | "pj_active p" "pj_active s" by blast
    then show ?thesis
    proof cases
      case 1
      from half [OF k p 1 s] show ?thesis .
    next
      case 2
      from half [OF k(2,1) k(3) [symmetric] k(5,4) s 2 p] show ?thesis by (rule compatible_sym)
    next
      case 3
      with inv p(1) s(1) k(3) projected_change_keeps [OF p(2)] projected_change_keeps [OF s(2)] show ?thesis
        by (auto simp: projection_inv_def)
    qed
  qed
  then show ?thesis
    using projected_changes_wf [OF ch] inv unfolding projection_inv_def by blast
qed

lemma projection_apply_cases:
  assumes "projection_apply P m x = Inr m'" and "projection_wf m"
  obtains m1 where "register_entry m (ce_payload (je_envelope x)) (je_completion x \<noteq> None) = Inr m1"
      and "projection_wf m1"
      and "case succeeded x of None \<Rightarrow> m' = m1
        | Some r \<Rightarrow> apply_result P m1 (ce_payload (je_envelope x)) r = Inr m' \<and>
            projected_changes P m1 (ce_payload (je_envelope x)) r m'"
proof -
  obtain m1 where m1: "register_entry m (ce_payload (je_envelope x)) (je_completion x \<noteq> None) = Inr m1"
      "(case succeeded x of None \<Rightarrow> Inr m1 | Some r \<Rightarrow> apply_result P m1 (ce_payload (je_envelope x)) r) = Inr m'"
    using assms(1) by (auto simp: projection_apply_def)
  moreover have wf: "projection_wf m1"
    by (rule register_entry_wf [OF m1(1) assms(2)])
  ultimately show ?thesis
    using apply_result_changes [OF _ wf] that by (cases "succeeded x") auto
qed

lemma projection_apply_inv:
  assumes "projection_apply P m x = Inr m'" and "projection_inv m"
  shows "projection_inv m'"
proof -
  have "projection_wf m" using assms(2) by (simp add: projection_inv_def)
  from projection_apply_cases [OF assms(1) this] obtain m1 where
    m1: "register_entry m (ce_payload (je_envelope x)) (je_completion x \<noteq> None) = Inr m1"
      "case succeeded x of None \<Rightarrow> m' = m1
        | Some r \<Rightarrow> apply_result P m1 (ce_payload (je_envelope x)) r = Inr m' \<and>
            projected_changes P m1 (ce_payload (je_envelope x)) r m'" .
  have inv: "projection_inv m1"
    by (rule register_entry_inv [OF m1(1) assms(2)])
  show ?thesis
  proof (cases "succeeded x")
    case (Some r)
    with m1(2) have "projected_changes P m1 (ce_payload (je_envelope x)) r m'" by simp
    then show ?thesis
      by (rule projected_changes_inv [OF _ inv]) (use m1(1) register_prepare_binding in fastforce)
  qed (use m1(2) inv in simp)
qed

lemma projection_inv_fold:
  "try_fold (projection_apply P) m xs = Inr m' \<Longrightarrow> projection_inv m \<Longrightarrow> projection_inv m'"
  by (erule try_fold_invariant) (auto intro: projection_apply_inv)

lemma projection_inv_Nil: "projection_inv []"
  by (simp add: projection_inv_def projection_wf_def)
section \<open>Histories of a claim\<close>

text \<open>
  What a journaled command did to a claim or a Runtime unit, if it succeeded: the binding it
  prepared, the binding it applied, the claim it released, the unit it fenced.
\<close>

definition prepared_claim :: "entry \<Rightarrow> node_binding option" where
  "prepared_claim x =
     (case (ce_payload (je_envelope x), succeeded x) of
        (ResourceClaimPrepare q, Some (ResourceClaimPrepared e)) \<Rightarrow> Some (pq_binding q) | _ \<Rightarrow> None)"

definition applied_claim :: "entry \<Rightarrow> node_binding option" where
  "applied_claim x =
     (case (ce_payload (je_envelope x), succeeded x) of
        (RuntimeApply q b, Some (RuntimeApplied ob)) \<Rightarrow> b | _ \<Rightarrow> None)"

definition released_claim :: "entry \<Rightarrow> uuid option" where
  "released_claim x =
     (case (ce_payload (je_envelope x), succeeded x) of
        (ResourceClaimRelease q, Some (ResourceClaimReleased e)) \<Rightarrow> Some (nb_claim_id (rq_binding q)) | _ \<Rightarrow> None)"

definition fenced_by :: "protocol \<Rightarrow> entry \<Rightarrow> (string \<times> u64) option" where
  "fenced_by P x =
     (case succeeded x of None \<Rightarrow> None | Some r \<Rightarrow> fenced_unit P (ce_payload (je_envelope x)) r)"

lemma prepared_claim_Some:
  "prepared_claim x = Some b \<longleftrightarrow> (\<exists>q e. ce_payload (je_envelope x) = ResourceClaimPrepare q \<and>
     succeeded x = Some (ResourceClaimPrepared e) \<and> b = pq_binding q)"
  by (auto simp: prepared_claim_def split: payload.split option.split command_result.split)

lemma applied_claim_Some:
  "applied_claim x = Some b \<longleftrightarrow> (\<exists>q ob. ce_payload (je_envelope x) = RuntimeApply q (Some b) \<and>
     succeeded x = Some (RuntimeApplied ob))"
  by (auto simp: applied_claim_def split: payload.split option.split command_result.split)

lemma released_claim_Some:
  "released_claim x = Some k \<longleftrightarrow> (\<exists>q e. ce_payload (je_envelope x) = ResourceClaimRelease q \<and>
     succeeded x = Some (ResourceClaimReleased e) \<and> k = nb_claim_id (rq_binding q))"
  by (auto simp: released_claim_def split: payload.split option.split command_result.split)

lemma projection_apply_key:
  assumes "projection_apply P m x = Inr m'" and "projection_wf m" and "btree_get m k = Some p"
  obtains m1 p1 p' where
    "register_entry m (ce_payload (je_envelope x)) (je_completion x \<noteq> None) = Inr m1" and "projection_wf m1"
    and "btree_get m1 k = Some p1" and "same_flags p p1" and "btree_get m' k = Some p'"
    and "p' = p1 \<or> (\<exists>r. succeeded x = Some r \<and>
      projected_change P m1 (ce_payload (je_envelope x)) r k p1 p')"
proof -
  from projection_apply_cases [OF assms(1,2)] obtain m1 where
    m1: "register_entry m (ce_payload (je_envelope x)) (je_completion x \<noteq> None) = Inr m1" "projection_wf m1"
      "case succeeded x of None \<Rightarrow> m' = m1
        | Some r \<Rightarrow> apply_result P m1 (ce_payload (je_envelope x)) r = Inr m' \<and>
            projected_changes P m1 (ce_payload (je_envelope x)) r m'" .
  obtain p1 where p1: "btree_get m1 k = Some p1" "same_flags p p1"
    using register_entry_keeps [OF m1(1) assms(3)] by blast
  show ?thesis
  proof (cases "succeeded x")
    case None
    with m1(3) have "m' = m1" by simp
    with that [OF m1(1,2) p1] p1(1) show ?thesis by blast
  next
    case (Some r)
    with m1(3) have "projected_changes P m1 (ce_payload (je_envelope x)) r m'" by simp
    from projected_changesD [OF this p1(1)] obtain p' where
      "btree_get m' k = Some p'" "projected_change P m1 (ce_payload (je_envelope x)) r k p1 p'" by blast
    with that [OF m1(1,2) p1] Some show ?thesis by blast
  qed
qed

lemma projection_apply_wf:
  assumes "projection_apply P m x = Inr m'" and "projection_wf m"
  shows "projection_wf m'"
proof -
  from projection_apply_cases [OF assms] obtain m1 where
    m1: "projection_wf m1" "case succeeded x of None \<Rightarrow> m' = m1
        | Some r \<Rightarrow> apply_result P m1 (ce_payload (je_envelope x)) r = Inr m' \<and>
            projected_changes P m1 (ce_payload (je_envelope x)) r m'" by blast
  then show ?thesis
    by (cases "succeeded x") (auto intro: projected_changes_wf)
qed

text \<open>An active claim stays active until it is released.\<close>

lemma active_kept:
  assumes "projection_apply P m x = Inr m'" and "projection_wf m" and "btree_get m k = Some p"
    and "pj_active p" and "released_claim x \<noteq> Some k"
  shows "\<exists>p'. btree_get m' k = Some p' \<and> pj_active p' \<and> pj_binding p' = pj_binding p"
proof -
  from projection_apply_key [OF assms(1-3)] obtain m1 p1 p' where
    k: "same_flags p p1" "btree_get m' k = Some p'" "p' = p1 \<or> (\<exists>r. succeeded x = Some r \<and>
      projected_change P m1 (ce_payload (je_envelope x)) r k p1 p')" .
  have "pj_active p1" using k(1) assms(4) by (simp add: same_flags_def)
  with k(3) assms(5) have "pj_active p'"
    by (auto simp: released_claim_Some dest: projected_change_deactivates)
  moreover have "pj_binding p' = pj_binding p"
    using k(1,3) by (auto simp: same_flags_def dest: projected_change_keeps)
  ultimately show ?thesis using k(2) by blast
qed

definition holds_unit :: "projected \<Rightarrow> node_binding \<Rightarrow> bool" where
  "holds_unit p b \<longleftrightarrow> pj_active p \<and> pj_bound p \<and> \<not> pj_runtime_fenced p \<and> pj_binding p = b"

lemma holds_unit_same: "same_flags p p' \<Longrightarrow> holds_unit p' b = holds_unit p b"
  by (auto simp: same_flags_def holds_unit_def)

lemma holds_unit_not_releasable:
  assumes "btree_get m (nb_claim_id (rq_binding q)) = Some p" and "holds_unit p b"
  shows "validate_release m q \<noteq> Inr ()"
  using assms by (auto simp: validate_release_def holds_unit_def split: if_split_asm)

text \<open>A claim whose unit runs stays so until a result fences the unit.\<close>

lemma holds_unit_kept:
  assumes "projection_apply P m x = Inr m'" and "projection_wf m" and "btree_get m k = Some p"
    and "holds_unit p b" and "fenced_by P x \<noteq> Some (binding_unit b)"
  shows "\<exists>p'. btree_get m' k = Some p' \<and> holds_unit p' b"
proof -
  from projection_apply_key [OF assms(1-3)] obtain m1 p1 p' where
    k: "btree_get m1 k = Some p1" "same_flags p p1" "btree_get m' k = Some p'"
      "p' = p1 \<or> (\<exists>r. succeeded x = Some r \<and> projected_change P m1 (ce_payload (je_envelope x)) r k p1 p')" .
  have p1: "holds_unit p1 b"
    using assms(4) holds_unit_same [OF k(2)] by simp
  have "holds_unit p' b" if "succeeded x = Some r" "projected_change P m1 (ce_payload (je_envelope x)) r k p1 p'" for r
    using that(2)
  proof cases
    case fenced
    with p1 have "fenced_by P x = Some (binding_unit b)"
      using that(1) by (simp add: fenced_by_def holds_unit_def)
    with assms(5) show ?thesis by simp
  next
    case (released q e)
    with holds_unit_not_releasable [of m1 q p1 b] k(1) p1 show ?thesis by simp
  qed (use p1 in \<open>simp_all add: holds_unit_def\<close>)
  with k(3,4) p1 show ?thesis by auto
qed

lemma prepared_active:
  assumes "projection_apply P m x = Inr m'" and "projection_wf m" and "prepared_claim x = Some b"
  shows "\<exists>p. btree_get m' (nb_claim_id b) = Some p \<and> pj_active p \<and> pj_binding p = b"
proof -
  obtain q e where x: "ce_payload (je_envelope x) = ResourceClaimPrepare q"
      "succeeded x = Some (ResourceClaimPrepared e)" "b = pq_binding q"
    using assms(3) by (auto simp: prepared_claim_Some)
  from projection_apply_cases [OF assms(1,2)] x obtain m1 where
    m1: "register_entry m (ResourceClaimPrepare q) (je_completion x \<noteq> None) = Inr m1" "projection_wf m1"
      "activate_prepared m1 q = Inr m'" by auto
  from activate_prepared_change [OF m1(3,2)] obtain p where
    p: "btree_get m1 (nb_claim_id b) = Some p"
      "m' = btree_insert (nb_claim_id b) (p\<lparr>pj_active := True, pj_released := False\<rparr>) m1"
    using x(3) by blast
  with register_prepare_binding [OF m1(1)] x(3) show ?thesis
    by (auto simp: btree_get_insert)
qed

lemma applied_holds_unit:
  assumes "projection_apply P m x = Inr m'" and "projection_wf m" and "applied_claim x = Some b"
  shows "\<exists>p. btree_get m' (nb_claim_id b) = Some p \<and> holds_unit p b"
proof -
  obtain q ob where x: "ce_payload (je_envelope x) = RuntimeApply q (Some b)"
      "succeeded x = Some (RuntimeApplied ob)"
    using assms(3) by (auto simp: applied_claim_Some)
  from projection_apply_cases [OF assms(1,2)] x obtain m1 where
    m1: "projection_wf m1" "apply_result P m1 (RuntimeApply q (Some b)) (RuntimeApplied ob) = Inr m'"
    by auto
  then obtain p where v: "validate_runtime_apply P m1 (aq_spec q) (Some b) = Inr ()"
      and p: "btree_get m1 (nb_claim_id b) = Some p"
        "m' = btree_insert (nb_claim_id b) (p\<lparr>pj_bound := True, pj_runtime_fenced := False\<rparr>) m1"
    by (auto split: option.split_asm)
  obtain c where c: "c \<in> set (btree_values m1)" "pj_active c" "pj_binding c = b"
    using validate_runtime_apply_active [OF v] by (elim bexE conjE)
  then obtain k where k: "btree_get m1 k = Some c"
    using m1(1) btree_values_iff [of m1 c] by (auto simp: projection_wf_def)
  then have "nb_claim_id (pj_binding c) = k"
    using m1(1) unfolding projection_wf_def by blast
  with k c(3) p(1) have "p = c" by simp
  with c(2,3) p(2) show ?thesis
    by (simp add: btree_get_insert holds_unit_def)
qed
lemma prepared_excludes:
  assumes "projection_apply P m x = Inr m'" and "projection_wf m" and "prepared_claim x = Some b"
    and "btree_get m k = Some p" and "pj_active p"
  shows "k \<noteq> nb_claim_id b \<and> compatible b (pj_binding p)"
proof -
  obtain q e where x: "ce_payload (je_envelope x) = ResourceClaimPrepare q"
      "succeeded x = Some (ResourceClaimPrepared e)" "b = pq_binding q"
    using assms(3) by (auto simp: prepared_claim_Some)
  from projection_apply_cases [OF assms(1,2)] x obtain m1 where
    m1: "register_entry m (ResourceClaimPrepare q) (je_completion x \<noteq> None) = Inr m1" "projection_wf m1"
      "activate_prepared m1 q = Inr m'" by auto
  obtain p1 where p1: "btree_get m1 k = Some p1" "same_flags p p1"
    using register_entry_keeps [OF m1(1) assms(4)] by blast
  then have f: "pj_active p1" "pj_binding p1 = pj_binding p"
    using assms(5) by (simp_all add: same_flags_def)
  from activate_prepared_change [OF m1(3,2)] obtain p0 where
    p0: "btree_get m1 (nb_claim_id b) = Some p0" "\<not> pj_active p0"
      "\<forall>k' p'. btree_get m1 k' = Some p' \<longrightarrow> k' \<noteq> nb_claim_id b \<longrightarrow> pj_active p' \<longrightarrow>
        compatible b (pj_binding p')"
    unfolding x(3) by blast
  have k: "k \<noteq> nb_claim_id b" using p0(1,2) p1(1) f(1) by auto
  then have "compatible b (pj_binding p1)" using p0(3) p1(1) f(1) by blast
  with k f(2) show ?thesis by simp
qed

lemma released_requires:
  assumes "projection_apply P m x = Inr m'" and "projection_wf m" and "released_claim x = Some k"
    and "btree_get m k = Some p"
  shows "\<not> holds_unit p b"
proof
  assume h: "holds_unit p b"
  obtain q e where x: "ce_payload (je_envelope x) = ResourceClaimRelease q"
      "succeeded x = Some (ResourceClaimReleased e)" "k = nb_claim_id (rq_binding q)"
    using assms(3) by (auto simp: released_claim_Some)
  from projection_apply_cases [OF assms(1,2)] x obtain m1 where
    m1: "register_entry m (ResourceClaimRelease q) (je_completion x \<noteq> None) = Inr m1"
      "apply_result P m1 (ResourceClaimRelease q) (ResourceClaimReleased e) = Inr m'" by auto
  obtain p1 where p1: "btree_get m1 k = Some p1" "same_flags p p1"
    using register_entry_keeps [OF m1(1) assms(4)] by blast
  with h have "holds_unit p1 b" using holds_unit_same by blast
  with p1(1) x(3) holds_unit_not_releasable m1(2) show False by auto
qed

text \<open>A released claim: inactive, with the generation of its preparation below that of the release.\<close>

definition finished :: "u64 \<Rightarrow> projected \<Rightarrow> bool" where
  "finished g p \<longleftrightarrow> pj_released p \<and> \<not> pj_active p \<and> pj_prepare_generation p < g"

lemma released_finished:
  assumes "projection_apply P m x = Inr m'" and "projection_wf m"
    and "released_claim x = Some k" and "ce_payload (je_envelope x) = ResourceClaimRelease q"
  shows "\<exists>p. btree_get m' k = Some p \<and> finished (rq_claim_generation q) p"
proof -
  obtain e where x: "succeeded x = Some (ResourceClaimReleased e)" "k = nb_claim_id (rq_binding q)"
    using assms(3,4) by (auto simp: released_claim_Some)
  from projection_apply_cases [OF assms(1,2)] x(1) assms(4) obtain m1 where
    m1: "apply_result P m1 (ResourceClaimRelease q) (ResourceClaimReleased e) = Inr m'" by auto
  then obtain p where p: "btree_get m1 k = Some p" "validate_release m1 q = Inr ()"
      "m' = btree_insert k (p\<lparr>pj_active := False, pj_released := True\<rparr>) m1"
    using x(2) by (auto split: option.split_asm)
  then have "pj_prepare_generation p < rq_claim_generation q"
    using x(2) by (auto simp: validate_release_def not_le split: if_split_asm)
  with p(3) show ?thesis
    by (simp add: btree_get_insert finished_def)
qed

lemma finished_kept:
  assumes "projection_apply P m x = Inr m'" and "projection_wf m" and "btree_get m k = Some p"
    and "finished g p"
    and "\<And>q. ce_payload (je_envelope x) = ResourceClaimPrepare q \<Longrightarrow> nb_claim_id (pq_binding q) = k \<Longrightarrow>
      \<not> pq_claim_generation q < g"
  shows "\<exists>p'. btree_get m' k = Some p' \<and> finished g p'"
proof -
  from projection_apply_key [OF assms(1-3)] obtain m1 p1 p' where
    k: "register_entry m (ce_payload (je_envelope x)) (je_completion x \<noteq> None) = Inr m1"
      "btree_get m1 k = Some p1" "same_flags p p1" "btree_get m' k = Some p'"
      "p' = p1 \<or> (\<exists>r. succeeded x = Some r \<and> projected_change P m1 (ce_payload (je_envelope x)) r k p1 p')" .
  have p1: "finished g p1"
    using assms(4) k(3) by (auto simp: finished_def same_flags_def)
  have "finished g p'" if "projected_change P m1 (ce_payload (je_envelope x)) r k p1 p'" for r
    using that
  proof cases
    case (activated q e)
    with k(1,2) register_prepare_binding [of m q "je_completion x \<noteq> None" m1 p1]
    have "pq_claim_generation q < g" using p1 by (simp add: finished_def)
    with activated assms(5) show ?thesis by blast
  qed (use p1 in \<open>simp_all add: finished_def\<close>)
  with k(4,5) p1 show ?thesis by auto
qed

lemma projection_wf_fold:
  "try_fold (projection_apply P) m xs = Inr m' \<Longrightarrow> projection_wf m \<Longrightarrow> projection_wf m'"
  by (erule try_fold_invariant) (auto intro: projection_apply_wf)

lemma projection_wf_Nil: "projection_wf []"
  by (simp add: projection_wf_def)

lemma projection_wf_split:
  assumes "resource_claim_projection P j = Inr m" and "entries_in_order j = xs @ a # ys"
  obtains m0 m1 where "projection_wf m0" and "projection_apply P m0 a = Inr m1" and "projection_wf m1"
    and "try_fold (projection_apply P) m1 ys = Inr m"
proof -
  have "try_fold (projection_apply P) [] (xs @ a # ys) = Inr m"
    using assms by (simp add: resource_claim_projection_def)
  then obtain m0 m1 where m: "try_fold (projection_apply P) [] xs = Inr m0"
      "projection_apply P m0 a = Inr m1" "try_fold (projection_apply P) m1 ys = Inr m"
    by (rule try_fold_split)
  have wf: "projection_wf m0"
    by (rule projection_wf_fold [OF m(1) projection_wf_Nil])
  show ?thesis
    by (rule that [OF wf m(2) projection_apply_wf [OF m(2) wf] m(3)])
qed

lemma active_run:
  assumes "try_fold (projection_apply P) m xs = Inr m'" and "projection_wf m"
    and "btree_get m k = Some p" and "pj_active p" and "\<forall>x\<in>set xs. released_claim x \<noteq> Some k"
  shows "\<exists>p'. btree_get m' k = Some p' \<and> pj_active p' \<and> pj_binding p' = pj_binding p"
proof -
  let ?I = "\<lambda>m. projection_wf m \<and> (\<exists>p'. btree_get m k = Some p' \<and> pj_active p' \<and> pj_binding p' = pj_binding p)"
  have "?I m'"
  proof (rule try_fold_invariant [where I = ?I, OF assms(1)])
    show "?I m" using assms(2-4) by blast
    fix s x s'
    assume s: "?I s" "x \<in> set xs" "projection_apply P s x = Inr s'"
    then obtain q where q: "btree_get s k = Some q" "pj_active q" "pj_binding q = pj_binding p" by blast
    have "released_claim x \<noteq> Some k" using s(2) assms(5) by blast
    from active_kept [OF s(3) conjunct1 [OF s(1)] q(1,2) this] q(3) projection_apply_wf [OF s(3)] s(1)
    show "?I s'" by auto
  qed
  then show ?thesis by blast
qed

lemma holds_unit_run:
  assumes "try_fold (projection_apply P) m xs = Inr m'" and "projection_wf m"
    and "btree_get m k = Some p" and "holds_unit p b"
    and "\<forall>x\<in>set xs. fenced_by P x \<noteq> Some (binding_unit b)"
  shows "\<exists>p'. btree_get m' k = Some p' \<and> holds_unit p' b"
proof -
  let ?I = "\<lambda>m. projection_wf m \<and> (\<exists>p'. btree_get m k = Some p' \<and> holds_unit p' b)"
  have "?I m'"
  proof (rule try_fold_invariant [where I = ?I, OF assms(1)])
    show "?I m" using assms(2-4) by blast
    fix s x s'
    assume s: "?I s" "x \<in> set xs" "projection_apply P s x = Inr s'"
    then obtain q where q: "btree_get s k = Some q" "holds_unit q b" by blast
    have "fenced_by P x \<noteq> Some (binding_unit b)" using s(2) assms(5) by blast
    from holds_unit_kept [OF s(3) conjunct1 [OF s(1)] q this] projection_apply_wf [OF s(3)] s(1)
    show "?I s'" by auto
  qed
  then show ?thesis by blast
qed
lemma finished_run:
  assumes "try_fold (projection_apply P) m xs = Inr m'" and "projection_wf m"
    and "btree_get m k = Some p" and "finished g p"
    and "\<And>x q. x \<in> set xs \<Longrightarrow> ce_payload (je_envelope x) = ResourceClaimPrepare q \<Longrightarrow>
      nb_claim_id (pq_binding q) = k \<Longrightarrow> \<not> pq_claim_generation q < g"
  shows "\<exists>p'. btree_get m' k = Some p' \<and> finished g p'"
proof -
  let ?I = "\<lambda>m. projection_wf m \<and> (\<exists>p'. btree_get m k = Some p' \<and> finished g p')"
  have "?I m'"
  proof (rule try_fold_invariant [where I = ?I, OF assms(1)])
    show "?I m" using assms(2-4) by blast
    fix s x s'
    assume s: "?I s" "x \<in> set xs" "projection_apply P s x = Inr s'"
    then obtain q where q: "btree_get s k = Some q" "finished g q" by blast
    from finished_kept [OF s(3) conjunct1 [OF s(1)] q assms(5) [OF s(2)]] projection_apply_wf [OF s(3)] s(1)
    show "?I s'" by auto
  qed
  then show ?thesis by blast
qed

lemma entries_in_order_set:
  "btree_wf (cj_entries j) \<Longrightarrow> x \<in> set (entries_in_order j) \<longleftrightarrow> (\<exists>i. btree_get (cj_entries j) i = Some x)"
  by (simp add: entries_in_order_def btree_values_iff)

lemma entries_in_order_later:
  assumes "journal_validate P j = Inr ()" and "entries_in_order j = xs @ x # ys" and "y \<in> set ys"
  shows "entry_sequence x < entry_sequence y"
proof -
  have "sorted (map entry_sequence (entries_in_order j))"
    by (simp add: entries_in_order_def)
  then have le: "entry_sequence x \<le> entry_sequence y"
    using assms(2,3) by (simp add: sorted_append)
  have "distinct (map entry_sequence (btree_values (cj_entries j)))"
    using journal_validate_facts(2) [OF assms(1)] by (simp add: journal_sequences_def)
  moreover have "mset (map entry_sequence (entries_in_order j)) = mset (map entry_sequence (btree_values (cj_entries j)))"
    by (simp add: entries_in_order_def)
  ultimately have "distinct (map entry_sequence (entries_in_order j))"
    by (metis mset_eq_imp_distinct_iff)
  with assms(2,3) have "entry_sequence x \<noteq> entry_sequence y" by auto
  with le show ?thesis by simp
qed

text \<open>A release of a claim in a valid fenced journal is the last state change of the claim.\<close>

lemma released_stays_finished:
  assumes valid: "journal_validate P j = Inr ()" and fence: "fence_inv P j"
    and proj: "resource_claim_projection P j = Inr m"
    and x: "btree_get (cj_entries j) i = Some x" and rel: "released_claim x = Some k"
  shows "\<exists>p g. btree_get m k = Some p \<and> finished g p"
proof -
  have wf: "btree_wf (cj_entries j)" by (rule fence_inv_wf(1) [OF fence])
  obtain q e where q: "ce_payload (je_envelope x) = ResourceClaimRelease q" "k = nb_claim_id (rq_binding q)"
    using rel by (auto simp: released_claim_Some)
  obtain xs ys where split: "entries_in_order j = xs @ x # ys"
    using entries_in_order_set [OF wf, of x] x by (meson split_list)
  obtain m0 m1 where m: "projection_wf m0" "projection_apply P m0 x = Inr m1" "projection_wf m1"
      "try_fold (projection_apply P) m1 ys = Inr m"
    by (rule projection_wf_split [OF proj split])
  obtain p where p: "btree_get m1 k = Some p" "finished (rq_claim_generation q) p"
    using released_finished [OF m(2,1) rel q(1)] by blast
  have ex: "envelope_validate P (je_envelope x) = Inr ()"
    using journal_entry_ok [OF valid x] by (simp add: entry_ok_def)
  have gx: "entry_generation P x = Some \<lparr>ag_generation = rq_claim_generation q, ag_state_digest = rq_claim_digest q\<rparr>"
    and ax: "entry_aggregate x = k"
    using ex q by (auto simp: entry_generation_def envelope_validate_def split: if_split_asm)
  have later: "\<not> pq_claim_generation q' < rq_claim_generation q"
    if y: "y \<in> set ys" "ce_payload (je_envelope y) = ResourceClaimPrepare q'" "nb_claim_id (pq_binding q') = k" for y q'
  proof -
    obtain l where l: "btree_get (cj_entries j) l = Some y"
      using y(1) split entries_in_order_set [OF wf, of y] by auto
    have "envelope_validate P (je_envelope y) = Inr ()"
      using journal_entry_ok [OF valid l] by (simp add: entry_ok_def)
    then have "entry_generation P y = Some \<lparr>ag_generation = pq_claim_generation q', ag_state_digest = pq_claim_digest q'\<rparr>"
      and "entry_aggregate y = k"
      using y(2,3) by (auto simp: entry_generation_def envelope_validate_def split: if_split_asm)
    from fence_inv_ordered [OF fence x l gx this(1) _ entries_in_order_later [OF valid split y(1)]] ax this(2)
    show ?thesis by (auto simp: generation_le_def)
  qed
  have "\<exists>p'. btree_get m k = Some p' \<and> finished (rq_claim_generation q) p'"
    by (rule finished_run [OF m(4,3) p]) (rule later)
  then show ?thesis by blast
qed

section \<open>Properties of claim histories\<close>

text \<open>
  C4. Devices and Runtime identities change hands safely. When the journal of an agent prepares a
  claim and later one that conflicts with it (the same claim, the same Runtime unit and generation,
  or a common exclusive slot), then the first was released in between; and for every successful
  apply of the first claim before that release, the Runtime unit was stopped, found absent or removed
  between the apply and the release.
\<close>

theorem exclusive_device_handover:
  assumes proj: "resource_claim_projection P j = Inr m"
    and order: "entries_in_order j = xs @ a # ys @ b # zs"
    and a: "prepared_claim a = Some c" and b: "prepared_claim b = Some c'"
    and conflict: "nb_claim_id c = nb_claim_id c' \<or> \<not> compatible c' c"
  shows "\<exists>us r vs. ys = us @ r # vs \<and> released_claim r = Some (nb_claim_id c) \<and>
    (\<forall>us1 p us2 d. us = us1 @ p # us2 \<and> applied_claim p = Some d \<and> nb_claim_id d = nb_claim_id c \<longrightarrow>
       (\<exists>f\<in>set us2. fenced_by P f = Some (binding_unit d)))"
proof -
  let ?k = "nb_claim_id c"
  obtain m0 m1 where m: "projection_wf m0" "projection_apply P m0 a = Inr m1" "projection_wf m1"
      "try_fold (projection_apply P) m1 (ys @ b # zs) = Inr m"
    by (rule projection_wf_split [OF proj order])
  obtain p where p: "btree_get m1 ?k = Some p" "pj_active p" "pj_binding p = c"
    using prepared_active [OF m(2,1) a] by blast
  obtain m2 m3 where m2: "try_fold (projection_apply P) m1 ys = Inr m2" "projection_apply P m2 b = Inr m3"
    by (rule try_fold_split [OF m(4)])
  have "\<exists>r\<in>set ys. released_claim r = Some ?k"
  proof (rule ccontr)
    assume "\<not> ?thesis"
    then obtain p2 where "btree_get m2 ?k = Some p2" "pj_active p2" "pj_binding p2 = c"
      using active_run [OF m2(1) m(3) p(1,2)] p(3) by auto
    from prepared_excludes [OF m2(2) projection_wf_fold [OF m2(1) m(3)] b this(1,2)] this(3) conflict
    show False by auto
  qed
  then obtain r where r: "r \<in> set ys" "released_claim r = Some ?k" by blast
  then obtain us vs where ys: "ys = us @ r # vs" by (meson split_list)
  have "\<exists>f\<in>set us2. fenced_by P f = Some (binding_unit d)"
    if us: "us = us1 @ q # us2" "applied_claim q = Some d" "nb_claim_id d = ?k" for us1 q us2 d
  proof (rule ccontr)
    assume none: "\<not> ?thesis"
    have "entries_in_order j = (xs @ a # us1) @ q # (us2 @ r # vs @ b # zs)"
      using order ys us(1) by simp
    from projection_wf_split [OF proj this] obtain n0 n1 where
      n: "projection_wf n0" "projection_apply P n0 q = Inr n1" "projection_wf n1"
        "try_fold (projection_apply P) n1 (us2 @ r # vs @ b # zs) = Inr m" .
    obtain n2 n3 where n2: "try_fold (projection_apply P) n1 us2 = Inr n2" "projection_apply P n2 r = Inr n3"
      by (rule try_fold_split [OF n(4)])
    obtain w where w: "btree_get n1 ?k = Some w" "holds_unit w d"
      using applied_holds_unit [OF n(2,1) us(2)] us(3) by auto
    then obtain w' where "btree_get n2 ?k = Some w'" "holds_unit w' d"
      using holds_unit_run [OF n2(1) n(3) w] none by auto
    with released_requires [OF n2(2) projection_wf_fold [OF n2(1) n(3)] r(2)] show False by blast
  qed
  with ys r(2) show ?thesis by blast
qed

text \<open>
  C11. Release is final. Once a file records a successful release of a claim, in every file that later
  calls and failures can leave the claim is not among the active bindings, and
  \<open>validate_resource_claim_release\<close> refuses every further release of it, at any generation.
\<close>

theorem release_is_final:
  assumes "(file_step P node_id)\<^sup>*\<^sup>* None (Some j)" and "btree_get (cj_entries j) i = Some x"
    and "released_claim x = Some k" and "(file_step P node_id)\<^sup>*\<^sup>* (Some j) f"
  shows "(\<forall>io bs. journal_active_bindings P node_id io f = Inr bs \<longrightarrow> k \<notin> nb_claim_id ` set bs) \<and>
    (\<forall>io q. nb_claim_id (rq_binding q) = k \<longrightarrow> \<not> is_ok (journal_validate_release P node_id io f q))"
proof -
  have s: "file_sound P node_id (Some j)"
    by (rule journal_file.run_sound [OF assms(1)]) (simp add: file_sound_def)
  have kept: "journal_le j (current_journal node_id f)"
    using journal_file.run_kept [OF assms(4) s] by (simp add: file_kept_def current_journal_def)
  then obtain y where y: "btree_get (cj_entries (current_journal node_id f)) i = Some y" "entry_le x y"
    using journal_leD [OF kept assms(2)] by blast
  then obtain j' where f: "f = Some j'"
    by (cases f) (auto simp: current_journal_def journal_empty_def)
  have s': "journal_validate P j' = Inr ()" "fence_inv P j'"
    using journal_file.run_sound [OF assms(4) s] by (simp_all add: f file_sound_def)
  have "succeeded y = succeeded x" if "succeeded x \<noteq> None"
    using that y(2) by (auto simp: succeeded_def entry_le_def split: option.split_asm)
  then have rel: "released_claim y = Some k"
    using assms(3) entry_le_same(3) [OF y(2)] by (auto simp: released_claim_Some)
  have fin: "\<exists>p g. btree_get m k = Some p \<and> finished g p"
    if "resource_claim_projection P j' = Inr m" for m
    using released_stays_finished [OF s' that _ rel] y(1) f by (simp add: current_journal_def)
  have "k \<notin> nb_claim_id ` set (active_bindings m)" if m: "resource_claim_projection P j' = Inr m" for m
  proof
    assume "k \<in> nb_claim_id ` set (active_bindings m)"
    then obtain p where p: "p \<in> set (btree_values m)" "pj_active p" "nb_claim_id (pj_binding p) = k"
      by (auto simp: active_bindings_def)
    have wf: "projection_wf m"
      using projection_wf_fold [OF m [unfolded resource_claim_projection_def] projection_wf_Nil] .
    then obtain l where l: "btree_get m l = Some p"
      using p(1) btree_values_iff [of m p] by (auto simp: projection_wf_def)
    with wf p(3) have "l = k" unfolding projection_wf_def by blast
    with fin [OF m] l p(2) show False by (auto simp: finished_def)
  qed
  moreover have "\<not> is_ok (validate_release m q)"
    if "resource_claim_projection P j' = Inr m" "nb_claim_id (rq_binding q) = k" for m q
    using fin [OF that(1)] that(2)
    by (auto simp: is_ok_unit_iff validate_release_def finished_def split: if_split_asm)
  ultimately show ?thesis
    by (auto simp: journal_active_bindings_def journal_validate_release_def read_journal_Inr
        current_journal_def f is_ok_iff)
qed

section \<open>Witnesses for claim histories\<close>

text \<open>
  A claim on a Runtime unit is prepared, applied, stopped and released; then another claim on the
  same unit and generation is prepared.
\<close>

definition unit_binding :: "uuid \<Rightarrow> node_binding" where
  "unit_binding claim_id = sample_node_binding\<lparr>nb_claim_id := claim_id, nb_slots :=
     [\<lparr>sb_kind = Cpu, sb_stable_resource_id = ''cpu'', sb_allocation = Scalar 500 MilliCpu,
       sb_slot_generation = 1, sb_fence_token = 51\<rparr>,
      \<lparr>sb_kind = Memory, sb_stable_resource_id = ''mem'', sb_allocation = Scalar 1024 Byte,
       sb_slot_generation = 1, sb_fence_token = 52\<rparr>]\<rparr>"

definition unit_spec :: runtime_spec where
  "unit_spec = \<lparr>us_unit_id = ''unit'', us_generation = 1, us_cpu_millis = 500, us_memory_bytes = 1024,
     us_ephemeral_storage_bytes = None, us_rest = JNull\<rparr>"

definition unit_prepare :: "uuid \<Rightarrow> claim_prepare" where
  "unit_prepare claim_id = sample_prepare\<lparr>pq_binding := unit_binding claim_id\<rparr>"

definition unit_release :: claim_release where
  "unit_release = sample_release\<lparr>rq_binding := unit_binding 40\<rparr>"

definition unit_prepared :: "uuid \<Rightarrow> claim_prepared" where
  "unit_prepared claim_id = sample_prepared\<lparr>pd_claim_id := claim_id,
     pd_slots := map slot_binding_evidence (nb_slots (unit_binding claim_id))\<rparr>"

definition unit_released :: claim_released where
  "unit_released = sample_released\<lparr>rd_slots := map slot_binding_evidence (nb_slots (unit_binding 40))\<rparr>"

definition unit_observation :: observation where
  "unit_observation = sample_observation\<lparr>ob_evidence := Some
     \<lparr>ev_provider_build = ''unknown'', ev_spec_digest = sample_digest, ev_semantics_profile_digest = None,
      ev_identity_attachment_digest = None,
      ev_claims = [(runtime_resource_binding_digest_key, sample_digest),
        (runtime_resource_claim_id_key, ext_uuid_display sample_externals 40)]\<rparr>\<rparr>"

definition unit_entries :: "entry list" where
  "unit_entries =
     [sample_entry (sample_envelope 101 201 1 (ResourceClaimPrepare (unit_prepare 40)))
        (Some (ResourceClaimPrepared (unit_prepared 40))),
      sample_entry (sample_envelope 102 202 2
        (RuntimeApply \<lparr>aq_spec = unit_spec, aq_rest = JNull\<rparr> (Some (unit_binding 40))))
        (Some (RuntimeApplied unit_observation)),
      sample_entry (sample_envelope 103 203 3
        (RuntimeStop \<lparr>ar_request_id = ''r'', ar_unit_id = ''unit'', ar_generation = 1, ar_rest = JNull\<rparr>))
        (Some (RuntimeStopped (InspectionNotFound ''unit'' JNull))),
      sample_entry (sample_envelope 104 204 4 (ResourceClaimRelease unit_release))
        (Some (ResourceClaimReleased unit_released)),
      sample_entry (sample_envelope 105 205 5 (ResourceClaimPrepare (unit_prepare 41)))
        (Some (ResourceClaimPrepared (unit_prepared 41)))]"

definition unit_journal :: journal where
  "unit_journal = sample_journal 5 release_generation (map (\<lambda>x. (ce_command_id (je_envelope x), x)) unit_entries)"

lemma unit_binding_sel [simp]:
  "nb_claim_id (unit_binding k) = k" "nb_runtime_unit_id (unit_binding k) = ''unit''"
  "nb_runtime_generation (unit_binding k) = 1" "unit_binding k = unit_binding l \<longleftrightarrow> k = l"
  by (simp_all add: unit_binding_def sample_node_binding_def)

lemma unit_binding_valid: "k \<noteq> 0 \<Longrightarrow> node_binding_validate (unit_binding k) = Inr ()"
  using contract_accepts_digest [OF sample_digest_valid]
  by (simp add: node_binding_validate_def unit_binding_def sample_node_binding_def validate_uuid_def
      validate_single_line_def validate_slot_bindings_def slot_binding_validate_def sb_key_def slot_eval)

lemma unit_digest: "k \<noteq> 0 \<Longrightarrow> node_binding_digest sample_externals (unit_binding k) = Inr sample_digest"
  by (simp add: node_binding_digest_def canonical_digest_def unit_binding_valid sample_hash ok_or_def)

lemma unit_requests_valid:
  "k \<noteq> 0 \<Longrightarrow> claim_prepare_validate (unit_prepare k) = Inr ()" "claim_release_validate unit_release = Inr ()"
  using sample_requests_valid unit_binding_valid
  by (simp_all add: claim_prepare_validate_def claim_release_validate_def unit_prepare_def unit_release_def
      sample_prepare_def sample_release_def)

lemma unit_slots_valid:
  "k \<noteq> 0 \<Longrightarrow> validate_slot_evidence (map slot_binding_evidence (nb_slots (unit_binding k))) = Inr ()"
  by (rule slot_evidence_of_bindings_valid) (use unit_binding_valid [of k] in \<open>auto simp: node_binding_validate_def split: if_split_asm\<close>)

lemma unit_evidence_valid:
  "k \<noteq> 0 \<Longrightarrow> claim_prepared_validate_for sample_externals (unit_prepared k) (unit_prepare k) = Inr ()"
  "claim_released_validate_for sample_externals unit_released unit_release = Inr ()"
proof -
  show "k \<noteq> 0 \<Longrightarrow> claim_prepared_validate_for sample_externals (unit_prepared k) (unit_prepare k) = Inr ()"
    using unit_digest [of k] unit_slots_valid [of k] unit_requests_valid(1) [of k] sample_requests_valid
    by (simp add: claim_prepared_validate_for_def claim_prepared_validate_def unit_prepared_def
        sample_prepared_def validate_uuid_def timestamp_millis_def) (simp add: unit_prepare_def sample_prepare_def)
  show "claim_released_validate_for sample_externals unit_released unit_release = Inr ()"
    using unit_digest [of 40] unit_slots_valid [of 40] unit_requests_valid(2) sample_requests_valid
    by (simp add: claim_released_validate_for_def claim_released_validate_def unit_released_def
        sample_released_def validate_uuid_def timestamp_millis_def) (simp add: unit_release_def sample_release_def)
qed

lemma unit_apply_valid:
  "rt_validate_spec sample_runtime unit_spec = Inr ()"
  "node_binding_validate_runtime_spec sample_runtime (unit_binding 40) unit_spec = Inr ()"
  "node_binding_validate_observation sample_externals sample_runtime (unit_binding 40) unit_observation = Inr ()"
proof -
  show spec: "rt_validate_spec sample_runtime unit_spec = Inr ()"
    by (simp add: sample_runtime_def unit_spec_def)
  show "node_binding_validate_runtime_spec sample_runtime (unit_binding 40) unit_spec = Inr ()"
    using unit_binding_valid [of 40] spec
    by (simp add: node_binding_validate_runtime_spec_def)
      (simp add: unit_binding_def unit_spec_def required_scalar_def optional_scalar_def)
  show "node_binding_validate_observation sample_externals sample_runtime (unit_binding 40) unit_observation = Inr ()"
  proof -
    have "ok_or EvidenceOmitted (ob_evidence unit_observation) = Inr \<lparr>ev_provider_build = ''unknown'',
        ev_spec_digest = sample_digest, ev_semantics_profile_digest = None, ev_identity_attachment_digest = None,
        ev_claims = [(runtime_resource_binding_digest_key, sample_digest),
          (runtime_resource_claim_id_key, ext_uuid_display sample_externals 40)]\<rparr>"
      by (simp add: unit_observation_def ok_or_def)
    moreover have "ob_unit_id unit_observation = ''unit''" "ob_generation unit_observation = 1"
        "rt_validate_observation sample_runtime unit_observation = Inr ()"
      by (simp_all add: unit_observation_def sample_observation_def sample_runtime_def)
    ultimately show ?thesis
      using unit_binding_valid [of 40] unit_digest [of 40]
      by (simp only: node_binding_validate_observation_def)
        (simp add: btree_get_def runtime_resource_claim_id_key_def runtime_resource_binding_digest_key_def)
  qed
qed

lemma unit_order: "entries_in_order unit_journal = unit_entries"
  by (simp add: entries_in_order_def unit_journal_def sample_journal_def btree_values_def comp_def)
    (simp add: unit_entries_def sample_envelope_def word_le_nat_alt)

lemma unit_sel:
  "pq_binding (unit_prepare k) = unit_binding k" "pq_claim_generation (unit_prepare k) = 1"
  "pq_claim_digest (unit_prepare k) = sample_digest" "rq_binding unit_release = unit_binding 40"
  "rq_claim_generation unit_release = 2" "rq_claim_digest unit_release = released_digest"
  "us_unit_id unit_spec = ''unit''" "us_generation unit_spec = 1" "pr sample_protocol = sample_runtime"
  by (simp_all add: unit_prepare_def unit_release_def sample_prepare_def sample_release_def unit_spec_def
      sample_protocol_def)

lemma unit_projection: "is_ok (resource_claim_projection sample_protocol unit_journal)"
  unfolding resource_claim_projection_def unit_order
  by (simp add: unit_entries_def projection_apply_def succeeded_def register_prepare_def
      register_release_def projected_new_def btree_get_def btree_values_def activate_prepared_def
      candidate_conflict_def validate_release_def validate_runtime_apply_def mark_runtime_fenced_def
      same_runtime_def Let_def sample_requests_sel unit_sel unit_requests_valid unit_evidence_valid
      unit_apply_valid sample_numbers)

theorem exclusive_device_handover_witness:
  "\<exists>r us vs. tl unit_entries = us @ r # vs \<and> released_claim r = Some 40"
proof -
  obtain m where m: "resource_claim_projection sample_protocol unit_journal = Inr m"
    using unit_projection by (auto simp: is_ok_iff)
  define a where "a = unit_entries ! 0"
  define b where "b = unit_entries ! 4"
  define ys where "ys = [unit_entries ! 1, unit_entries ! 2, unit_entries ! 3]"
  have order: "entries_in_order unit_journal = [] @ a # ys @ b # []"
    by (simp add: unit_order a_def b_def ys_def unit_entries_def)
  have c: "prepared_claim a = Some (unit_binding 40)" "prepared_claim b = Some (unit_binding 41)"
    by (simp_all add: a_def b_def unit_entries_def prepared_claim_def succeeded_def sample_requests_sel unit_sel)
  have "\<not> compatible (unit_binding 41) (unit_binding 40)"
    by (simp add: compatible_def)
  then obtain us r vs where r: "ys = us @ r # vs" "released_claim r = Some 40"
    using exclusive_device_handover [OF m order c] by auto
  have "tl unit_entries = ys @ [b]"
    by (simp add: ys_def b_def unit_entries_def)
  with r(1) have "tl unit_entries = us @ r # (vs @ [b])" by simp
  with r(2) show ?thesis by blast
qed

theorem release_is_final_witness:
  "\<not> is_ok (journal_validate_release sample_protocol 7 working_io (Some release_completed)
     (sample_release\<lparr>rq_claim_generation := 3\<rparr>))"
proof -
  let ?x = "sample_entry release_envelope (Some (ResourceClaimReleased sample_released))"
  have x: "btree_get (cj_entries release_completed) 102 = Some ?x"
    by (simp add: release_completed_def sample_journal_def btree_get_def)
  have rel: "released_claim ?x = Some 40"
    by (simp add: released_claim_def succeeded_def sample_requests_sel)
  have "nb_claim_id (rq_binding (sample_release\<lparr>rq_claim_generation := 3\<rparr>)) = 40"
    by (simp add: sample_requests_sel)
  with release_is_final [OF sample_reachable(3) x rel rtranclp.rtrancl_refl] show ?thesis by blast
qed

end
