(* ===== verification/Command_Executor.thy ===== *)
theory Command_Executor
  imports Claim_Projection Claim_Allocation
begin

text \<open>
  The agent's command executor, \<open>node-agent/src/executor.rs\<close> with the admission check of
  \<open>node-agent/src/resource_claim.rs\<close>: journal a command, dispatch it, turn the result or the error
  into an outcome and complete it in the journal. The agent runs one command at a time
  (\<open>synchronize_once\<close>), so nothing else touches the file in between. What the environment answers is
  an argument of a call: clock readings, file system, inventory authority, Runtime client, artifact
  manager, the adapters of the other command kinds, and the text of an error.
\<close>

section \<open>Admission of a claim\<close>

datatype claim_reason =
    CrContract node_claim_error
  | CrAlreadyPrepared
  | CrNoCapacity string
  | CrNotScalar string
  | CrDurableNotScalar
  | CrTotalOverflowed
  | CrInsufficient string
  | CrExclusivePrepared string

datatype inventory_error =
    InventoryInvalid
  | InventoryDetection
  | InventoryStorage
  | InventoryControlPlane bool

datatype claim_execution_error =
    ClaimInvalid claim_reason
  | ClaimConflict claim_reason
  | ClaimInventory inventory_error
  | ClaimJournal journal_error
  | ClaimAuthorityUnavailable

definition inventory_error_retryable :: "inventory_error \<Rightarrow> bool" where
  "inventory_error_retryable e = (case e of InventoryControlPlane retryable \<Rightarrow> retryable | _ \<Rightarrow> False)"

definition claim_error_code :: "claim_execution_error \<Rightarrow> string" where
  "claim_error_code e =
     (case e of
        ClaimInvalid _ \<Rightarrow> ''invalid_resource_claim''
      | ClaimConflict _ \<Rightarrow> ''resource_claim_conflict''
      | ClaimInventory _ \<Rightarrow> ''resource_inventory_unavailable''
      | ClaimJournal _ \<Rightarrow> ''resource_claim_journal''
      | ClaimAuthorityUnavailable \<Rightarrow> ''resource_claim_authority_unavailable'')"

definition claim_error_retryable :: "claim_execution_error \<Rightarrow> bool" where
  "claim_error_retryable e =
     (case e of
        ClaimInventory error \<Rightarrow> inventory_error_retryable error
      | ClaimJournal JournalStorage \<Rightarrow> True
      | _ \<Rightarrow> False)"

definition inventory_capacities :: "inventory \<Rightarrow> (slot_id, resource_allocation) btree_map" where
  "inventory_capacities i =
     fold (\<lambda>slot m. btree_insert (ns_key slot) (ns_allocation slot) m) (inv_slots i) []"

definition add_active_amount :: "u64 \<Rightarrow> slot_binding \<Rightarrow> (claim_execution_error, u64) result" where
  "add_active_amount amount slot =
     and_then (ok_or (ClaimInvalid CrDurableNotScalar) (scalar_amount (sb_allocation slot)))
       (\<lambda>a. ok_or (ClaimInvalid CrTotalOverflowed) (checked_add amount a))"

definition active_amount :: "node_binding list \<Rightarrow> slot_id \<Rightarrow> (claim_execution_error, u64) result" where
  "active_amount active key =
     try_fold add_active_amount 0 (filter (\<lambda>slot. sb_key slot = key) (concat (map nb_slots active)))"

definition admit_slot ::
    "(slot_id, resource_allocation) btree_map \<Rightarrow> node_binding list \<Rightarrow> slot_binding
      \<Rightarrow> (claim_execution_error, unit) result" where
  "admit_slot capacities active requested =
     (let key = sb_key requested; rid = sb_stable_resource_id requested in
      if is_shared_capacity (sb_kind requested) then
        and_then (ok_or (ClaimConflict (CrNoCapacity rid))
          (Option.bind (btree_get capacities key) scalar_amount)) (\<lambda>capacity.
        and_then (ok_or (ClaimInvalid (CrNotScalar rid)) (scalar_amount (sb_allocation requested)))
          (\<lambda>requested_amount.
        and_then (active_amount active key) (\<lambda>amount.
        case checked_add amount requested_amount of
          None \<Rightarrow> Inl (ClaimConflict (CrInsufficient rid))
        | Some required \<Rightarrow>
            if required > capacity then Inl (ClaimConflict (CrInsufficient rid)) else Inr ())))
      else if list_ex (\<lambda>b. list_ex (\<lambda>slot. sb_key slot = key) (nb_slots b)) active
      then Inl (ClaimConflict (CrExclusivePrepared rid))
      else Inr ())"

definition validate_prepare ::
    "externals \<Rightarrow> claim_prepare \<Rightarrow> inventory \<Rightarrow> node_binding list
      \<Rightarrow> (claim_execution_error, unit) result" where
  "validate_prepare X q i active =
     (let b = pq_binding q in
      and_then (map_err (ClaimInvalid \<circ> CrContract) (claim_prepare_validate q)) (\<lambda>_.
      and_then (map_err (ClaimConflict \<circ> CrContract) (node_binding_validate_inventory X b i)) (\<lambda>_.
      if list_ex (\<lambda>candidate. nb_claim_id candidate = nb_claim_id b
           \<or> nb_runtime_unit_id candidate = nb_runtime_unit_id b
             \<and> nb_runtime_generation candidate = nb_runtime_generation b) active
      then Inl (ClaimConflict CrAlreadyPrepared)
      else try_for_each (admit_slot (inventory_capacities i) active) (nb_slots b))))"

section \<open>Errors and outcomes\<close>

datatype runtime_error =
    RtInvalidRequest
  | RtNotFound
  | RtRequestNotFound
  | RtRequestConflict
  | RtStaleGeneration string u64 u64
  | RtGenerationConflict string u64
  | RtDeadlineExceeded
  | RtUnsupportedCapabilities
  | RtProviderUnavailable
  | RtTransport
  | RtLogDiscontinuity
  | RtProtocol

datatype artifact_error =
    ArtifactInvalid
  | ArtifactIntegrity
  | ArtifactStorage
  | ArtifactTransport bool

text \<open>
  \<open>DispatchError\<close>. Its gateway, box build and three harness variants are converted alike from their
  own \<open>code()\<close> and \<open>retryable()\<close>, and are one constructor with these two values.
\<close>

datatype dispatch_error =
    DispatchRuntime runtime_error
  | DispatchArtifact artifact_error
  | DispatchResourceClaim claim_execution_error
  | DispatchAdapter string bool
  | DispatchPluginHost string
  | DispatchPluginHostUnavailable

datatype failure_status = StatusRejected | StatusFailed

text \<open>\<open>str::trim\<close> on UTF-8 bytes, from both ends, and \<open>chars().take(n)\<close>.\<close>

fun trim_start :: "string \<Rightarrow> string" where
  "trim_start [] = []"
| "trim_start [c] = (if ws1 c then [] else [c])"
| "trim_start [c, d] = (if ws1 c then trim_start [d] else if ws2 c d then [] else [c, d])"
| "trim_start (c # d # e # s) =
     (if ws1 c then trim_start (d # e # s)
      else if ws2 c d then trim_start (e # s)
      else if ws3 c d e then trim_start s
      else c # d # e # s)"

fun trim_rev :: "string \<Rightarrow> string" where
  "trim_rev [] = []"
| "trim_rev [c] = (if ws1 c then [] else [c])"
| "trim_rev [c, d] = (if ws1 c then trim_rev [d] else if ws2 d c then [] else [c, d])"
| "trim_rev (c # d # e # s) =
     (if ws1 c then trim_rev (d # e # s)
      else if ws2 d c then trim_rev (e # s)
      else if ws3 e d c then trim_rev s
      else c # d # e # s)"

definition trim :: "string \<Rightarrow> string" where
  "trim s = rev (trim_rev (rev (trim_start s)))"

definition is_continuation :: "char \<Rightarrow> bool" where
  "is_continuation c \<longleftrightarrow> CHR 0x80 \<le> c \<and> c < CHR 0xC0"

fun take_chars :: "nat \<Rightarrow> string \<Rightarrow> string" where
  "take_chars n [] = []"
| "take_chars n (c # s) =
     (if is_continuation c then c # take_chars n s
      else if n = 0 then []
      else c # take_chars (n - 1) s)"

definition sanitize_error :: "string \<Rightarrow> string" where
  "sanitize_error message =
     (let message = map (\<lambda>c. if c \<in> {CHR 0x00, CHR 0x0D, CHR 0x0A} then CHR '' '' else c) message;
          message = trim message
      in if message = [] then ''Runtime operation failed'' else take_chars (16 * 1024) message)"

definition sanitize_plugin_host_error_code :: "string \<Rightarrow> string" where
  "sanitize_plugin_host_error_code code =
     (if code \<noteq> [] \<and> length code \<le> 127 \<and>
         list_all (\<lambda>c. CHR ''a'' \<le> c \<and> c \<le> CHR ''z'' \<or> ascii_digit c \<or> c \<in> set ''._-'') code
      then code else ''plugin_host_operation_failed'')"

definition rejected_outcome :: "string \<Rightarrow> string \<Rightarrow> outcome" where
  "rejected_outcome code message = Rejected \<lparr>cf_code = code, cf_message = message, cf_retryable = False\<rparr>"

fun runtime_failure_status :: "runtime_error \<Rightarrow> failure_status \<times> string \<times> bool" where
  "runtime_failure_status RtInvalidRequest = (StatusRejected, ''invalid_request'', False)"
| "runtime_failure_status RtNotFound = (StatusRejected, ''not_found'', False)"
| "runtime_failure_status RtRequestNotFound = (StatusRejected, ''not_found'', False)"
| "runtime_failure_status RtRequestConflict = (StatusRejected, ''request_conflict'', False)"
| "runtime_failure_status (RtStaleGeneration u r c) = (StatusRejected, ''stale_generation'', False)"
| "runtime_failure_status (RtGenerationConflict u g) = (StatusRejected, ''generation_conflict'', False)"
| "runtime_failure_status RtDeadlineExceeded = (StatusRejected, ''deadline_exceeded'', False)"
| "runtime_failure_status RtUnsupportedCapabilities = (StatusRejected, ''unsupported_capabilities'', False)"
| "runtime_failure_status RtProviderUnavailable = (StatusFailed, ''provider_unavailable'', True)"
| "runtime_failure_status RtTransport = (StatusFailed, ''runtime_transport'', True)"
| "runtime_failure_status RtLogDiscontinuity = (StatusFailed, ''log_discontinuity'', False)"
| "runtime_failure_status RtProtocol = (StatusFailed, ''runtime_protocol'', False)"

fun artifact_failure_status :: "artifact_error \<Rightarrow> failure_status \<times> string \<times> bool" where
  "artifact_failure_status ArtifactInvalid = (StatusRejected, ''invalid_artifact'', False)"
| "artifact_failure_status ArtifactIntegrity = (StatusFailed, ''artifact_integrity'', False)"
| "artifact_failure_status ArtifactStorage = (StatusFailed, ''artifact_storage'', True)"
| "artifact_failure_status (ArtifactTransport retryable) = (StatusFailed, ''artifact_transport'', retryable)"

text \<open>The end of the conversions: the status decides the kind of outcome.\<close>

definition failure_outcome :: "failure_status \<times> string \<times> bool \<Rightarrow> string \<Rightarrow> outcome" where
  "failure_outcome r message =
     (case r of (status, code, retryable) \<Rightarrow>
        let failure = \<lparr>cf_code = code, cf_message = sanitize_error message, cf_retryable = retryable\<rparr>
        in case status of StatusRejected \<Rightarrow> Rejected failure | StatusFailed \<Rightarrow> Failed failure)"

text \<open>The arm shared by the errors that carry their own code: failed if retryable, else rejected.\<close>

definition coded_status :: "string \<Rightarrow> bool \<Rightarrow> failure_status \<times> string \<times> bool" where
  "coded_status code retryable = (if retryable then StatusFailed else StatusRejected, code, retryable)"

definition dispatch_failure :: "string \<Rightarrow> dispatch_error \<Rightarrow> outcome" where
  "dispatch_failure text error =
     (case error of
        DispatchRuntime e \<Rightarrow> failure_outcome (runtime_failure_status e) text
      | DispatchArtifact e \<Rightarrow> failure_outcome (artifact_failure_status e) text
      | DispatchResourceClaim e \<Rightarrow>
          failure_outcome (coded_status (claim_error_code e) (claim_error_retryable e)) text
      | DispatchAdapter code retryable \<Rightarrow> failure_outcome (coded_status code retryable) text
      | DispatchPluginHost code \<Rightarrow>
          failure_outcome (StatusFailed, sanitize_plugin_host_error_code code, False) text
      | DispatchPluginHostUnavailable \<Rightarrow>
          rejected_outcome ''plugin_host_unavailable''
            ''A3S Use Plugin Manager is not configured on this node'')"

section \<open>Dispatch and execution\<close>

record artifact_manager =
  am_prepare :: "envelope \<Rightarrow> (artifact_error, unit) result"
  am_publish :: "envelope \<Rightarrow> observation \<Rightarrow> (artifact_error, observation) result"

record agent_env =
  ae_begin_io :: io
  ae_read_io :: io
  ae_complete_io :: io
  ae_now :: timestamp
  ae_evidence_now :: timestamp
  ae_dispatched_now :: timestamp
  ae_completion_now :: timestamp
  ae_inventory :: "(inventory_error, inventory) result option"
  ae_artifacts :: "artifact_manager option"
  ae_apply :: "apply_request \<Rightarrow> (runtime_error, observation) result"
  ae_inspect :: "string \<Rightarrow> (runtime_error, inspection) result"
  ae_stop :: "action_request \<Rightarrow> (runtime_error, inspection) result"
  ae_remove :: "action_request \<Rightarrow> (runtime_error, removal) result"
  ae_other :: "envelope \<Rightarrow> json \<Rightarrow> (dispatch_error, json) result"
  ae_text :: "dispatch_error \<Rightarrow> string"

abbreviation journal_step ::
    "(journal_error, 'a) result \<Rightarrow> (dispatch_error, 'a) result" where
  "journal_step r \<equiv> map_err (DispatchResourceClaim \<circ> ClaimJournal) r"

abbreviation claim_conflict ::
    "(node_claim_error, 'a) result \<Rightarrow> (dispatch_error, 'a) result" where
  "claim_conflict r \<equiv> map_err (DispatchResourceClaim \<circ> ClaimConflict \<circ> CrContract) r"

definition current_resource_inventory :: "agent_env \<Rightarrow> (dispatch_error, inventory) result" where
  "current_resource_inventory env =
     (case ae_inventory env of
        None \<Rightarrow> Inl (DispatchResourceClaim ClaimAuthorityUnavailable)
      | Some r \<Rightarrow> map_err (DispatchResourceClaim \<circ> ClaimInventory) r)"

definition command_timestamp :: "timestamp \<Rightarrow> envelope \<Rightarrow> timestamp" where
  "command_timestamp now e = max now (ce_issued_at e)"

definition dispatch_prepare ::
    "protocol \<Rightarrow> uuid \<Rightarrow> agent_env \<Rightarrow> journal_file \<Rightarrow> envelope \<Rightarrow> claim_prepare
      \<Rightarrow> (dispatch_error, command_result) result" where
  "dispatch_prepare P node_id env file e q =
     and_then (current_resource_inventory env) (\<lambda>i.
     and_then (journal_step (journal_active_bindings P node_id (ae_read_io env) file)) (\<lambda>active.
     and_then (map_err DispatchResourceClaim (validate_prepare (px P) q i active)) (\<lambda>_.
     and_then (map_err (DispatchResourceClaim \<circ> ClaimInvalid \<circ> CrContract)
       (claim_prepared_new (px P) q (command_timestamp (ae_evidence_now env) e))) (\<lambda>p.
     Inr (ResourceClaimPrepared p)))))"

definition dispatch_apply ::
    "protocol \<Rightarrow> uuid \<Rightarrow> agent_env \<Rightarrow> journal_file \<Rightarrow> envelope \<Rightarrow> apply_request \<Rightarrow> node_binding option
      \<Rightarrow> (dispatch_error, command_result) result" where
  "dispatch_apply P node_id env file e q claim =
     and_then (journal_step
       (journal_validate_runtime_binding P node_id (ae_read_io env) file (aq_spec q) claim)) (\<lambda>_.
     and_then (case claim of
         None \<Rightarrow> Inr ()
       | Some b \<Rightarrow> and_then (current_resource_inventory env) (\<lambda>i.
           claim_conflict (node_binding_validate_inventory (px P) b i))) (\<lambda>_.
     and_then (case ae_artifacts env of
         None \<Rightarrow> Inr () | Some am \<Rightarrow> map_err DispatchArtifact (am_prepare am e)) (\<lambda>_.
     and_then (map_err DispatchRuntime (ae_apply env q)) (\<lambda>ob.
     and_then (case ae_artifacts env of
         None \<Rightarrow> Inr ob | Some am \<Rightarrow> map_err DispatchArtifact (am_publish am e ob)) (\<lambda>ob.
     and_then (case claim of
         None \<Rightarrow> Inr ob
       | Some b \<Rightarrow> claim_conflict (node_binding_bind_observation (px P) (pr P) b ob)) (\<lambda>ob.
     Inr (RuntimeApplied ob)))))))"

definition dispatch_inspect ::
    "protocol \<Rightarrow> uuid \<Rightarrow> agent_env \<Rightarrow> journal_file \<Rightarrow> string \<Rightarrow> u64
      \<Rightarrow> (dispatch_error, command_result) result" where
  "dispatch_inspect P node_id env file unit_id generation =
     and_then (map_err DispatchRuntime (ae_inspect env unit_id)) (\<lambda>i.
     case i of
       InspectionNotFound u d \<Rightarrow> Inr (RuntimeInspected (InspectionNotFound u d))
     | InspectionFound ob d \<Rightarrow>
         if ob_generation ob \<noteq> generation
         then Inl (DispatchRuntime (if ob_generation ob > generation
           then RtStaleGeneration unit_id generation (ob_generation ob)
           else RtGenerationConflict unit_id generation))
         else
         and_then (journal_step (journal_active_bindings P node_id (ae_read_io env) file)) (\<lambda>active.
         case find (\<lambda>b. nb_runtime_unit_id b = unit_id \<and> nb_runtime_generation b = generation) active of
           None \<Rightarrow> Inr (RuntimeInspected (InspectionFound ob d))
         | Some b \<Rightarrow> and_then (claim_conflict (node_binding_bind_observation (px P) (pr P) b ob))
             (\<lambda>ob. Inr (RuntimeInspected (InspectionFound ob d)))))"

definition dispatch_release ::
    "protocol \<Rightarrow> uuid \<Rightarrow> agent_env \<Rightarrow> journal_file \<Rightarrow> envelope \<Rightarrow> claim_release
      \<Rightarrow> (dispatch_error, command_result) result" where
  "dispatch_release P node_id env file e q =
     and_then (journal_step (journal_validate_release P node_id (ae_read_io env) file q)) (\<lambda>_.
     and_then (map_err (DispatchResourceClaim \<circ> ClaimInvalid \<circ> CrContract)
       (claim_released_new (px P) q (command_timestamp (ae_evidence_now env) e))) (\<lambda>r.
     Inr (ResourceClaimReleased r)))"

definition dispatch ::
    "protocol \<Rightarrow> uuid \<Rightarrow> agent_env \<Rightarrow> journal_file \<Rightarrow> envelope
      \<Rightarrow> (dispatch_error, command_result) result" where
  "dispatch P node_id env file e =
     (case ce_payload e of
        ResourceClaimPrepare q \<Rightarrow> dispatch_prepare P node_id env file e q
      | RuntimeApply q claim \<Rightarrow> dispatch_apply P node_id env file e q claim
      | RuntimeInspect unit_id generation \<Rightarrow> dispatch_inspect P node_id env file unit_id generation
      | RuntimeStop q \<Rightarrow> and_then (map_err DispatchRuntime (ae_stop env q)) (\<lambda>i. Inr (RuntimeStopped i))
      | RuntimeRemove q \<Rightarrow> and_then (map_err DispatchRuntime (ae_remove env q)) (\<lambda>r. Inr (RuntimeRemoved r))
      | ResourceClaimRelease q \<Rightarrow> dispatch_release P node_id env file e q
      | OtherCommand d \<Rightarrow> and_then (ae_other env e d) (\<lambda>r. Inr (OtherResult r)))"

definition evidence_time :: "protocol \<Rightarrow> outcome \<Rightarrow> timestamp option" where
  "evidence_time P res =
     (case res of
        Succeeded r \<Rightarrow>
          (case r of
             ResourceClaimPrepared p \<Rightarrow> Some (pd_prepared_at p)
           | ResourceClaimReleased p \<Rightarrow> Some (rd_released_at p)
           | OtherResult d \<Rightarrow> oc_evidence_at (po P) d
           | _ \<Rightarrow> None)
      | _ \<Rightarrow> None)"

definition completion_timestamp :: "protocol \<Rightarrow> agent_env \<Rightarrow> envelope \<Rightarrow> outcome \<Rightarrow> timestamp" where
  "completion_timestamp P env e res =
     (let now = command_timestamp (ae_completion_now env) e in
      case evidence_time P res of None \<Rightarrow> now | Some evidence_at \<Rightarrow> max now evidence_at)"

definition late_outcome :: outcome where
  "late_outcome = Failed \<lparr>cf_code = ''command_completed_after_deadline'',
     cf_message = ''Runtime operation completed after the command deadline'', cf_retryable = True\<rparr>"

definition command_outcome ::
    "protocol \<Rightarrow> uuid \<Rightarrow> agent_env \<Rightarrow> journal_file \<Rightarrow> envelope \<Rightarrow> outcome" where
  "command_outcome P node_id env file e =
     (if envelope_is_expired_at e (ae_now env)
      then rejected_outcome ''command_expired'' ''command expired before Runtime dispatch''
      else
      case dispatch P node_id env file e of
        Inr r \<Rightarrow> if ae_dispatched_now env > ce_not_after e then late_outcome else Succeeded r
      | Inl error \<Rightarrow> dispatch_failure (ae_text env error) error)"

definition execute ::
    "protocol \<Rightarrow> uuid \<Rightarrow> agent_env \<Rightarrow> journal_file \<Rightarrow> envelope \<Rightarrow> command_ack file_call" where
  "execute P node_id env file e =
     (case journal_begin P node_id (ae_begin_io env) file e of
        (file, Inl err) \<Rightarrow> (file, Inl err)
      | (file, Inr (Replay acknowledgement)) \<Rightarrow> (file, Inr acknowledgement)
      | (file, Inr Execute) \<Rightarrow>
          let res = command_outcome P node_id env file e in
          journal_complete P node_id (ae_complete_io env) file (ce_command_id e)
            (completion_timestamp P env e res) res)"

section \<open>Admission\<close>

definition claimed_amount :: "node_binding list \<Rightarrow> slot_id \<Rightarrow> nat" where
  "claimed_amount bs key = sum_list (map (\<lambda>s. case scalar_amount (sb_allocation s) of
     None \<Rightarrow> 0 | Some a \<Rightarrow> unat a) (filter (\<lambda>s. sb_key s = key) (concat (map nb_slots bs))))"

lemma active_amount_exact:
  assumes "active_amount bs key = Inr t"
  shows "unat t = claimed_amount bs key"
proof -
  have "unat t = unat a + sum_list (map (\<lambda>s. case scalar_amount (sb_allocation s) of
      None \<Rightarrow> 0 | Some a \<Rightarrow> unat a) ss)"
    if "try_fold add_active_amount a ss = Inr t" for a ss
    using that
  proof (induction ss arbitrary: a)
    case (Cons s ss)
    then obtain u where u: "add_active_amount a s = Inr u" "try_fold add_active_amount u ss = Inr t"
      by auto
    from u(1) obtain c where "scalar_amount (sb_allocation s) = Some c" "checked_add a c = Some u"
      by (auto simp: add_active_amount_def)
    with Cons.IH [OF u(2)] show ?case
      by (simp add: checked_add_unat)
  qed simp
  from this [of 0] assms show ?thesis
    by (simp add: active_amount_def claimed_amount_def)
qed

lemma inventory_capacities_get:
  assumes "distinct (map ns_key (inv_slots i))"
  shows "btree_get (inventory_capacities i) key = map_option ns_allocation (inventory_find i key)"
proof -
  have "btree_get (fold (\<lambda>slot m. btree_insert (ns_key slot) (ns_allocation slot) m) ss m) key =
      (case find (\<lambda>s. ns_key s = key) ss of None \<Rightarrow> btree_get m key | Some s \<Rightarrow> Some (ns_allocation s))"
    if "distinct (map ns_key ss)" for ss m
    using that
  proof (induction ss arbitrary: m)
    case (Cons s ss)
    have "find (\<lambda>s. ns_key s = key) ss = None" if "ns_key s = key"
      using that Cons.prems by (auto simp: find_None_iff) (metis imageI)
    with Cons show ?case
      by (auto simp: btree_get_insert split: option.split)
  qed simp
  from this [OF assms, of "[]"] show ?thesis
    by (simp add: inventory_capacities_def inventory_find_def split: option.split)
qed

lemma validate_prepare_facts:
  assumes "validate_prepare X q i active = Inr ()"
  shows "claim_prepare_validate q = Inr ()"
    and "\<forall>b\<in>set active. nb_claim_id b \<noteq> nb_claim_id (pq_binding q) \<and> compatible (pq_binding q) b"
    and "\<forall>s\<in>set (nb_slots (pq_binding q)). is_shared_capacity (sb_kind s) \<longrightarrow>
      (\<exists>slot capacity amount. inventory_find i (sb_key s) = Some slot \<and>
         scalar_amount (ns_allocation slot) = Some capacity \<and> scalar_amount (sb_allocation s) = Some amount \<and>
         claimed_amount active (sb_key s) + unat amount \<le> unat capacity)"
proof -
  have admit: "\<forall>s\<in>set (nb_slots (pq_binding q)). admit_slot (inventory_capacities i) active s = Inr ()"
    and none: "\<not> list_ex (\<lambda>c. nb_claim_id c = nb_claim_id (pq_binding q)
        \<or> nb_runtime_unit_id c = nb_runtime_unit_id (pq_binding q)
          \<and> nb_runtime_generation c = nb_runtime_generation (pq_binding q)) active"
    and inv: "inventory_validate X i = Inr ()"
    using assms by (auto simp: validate_prepare_def node_binding_validate_inventory_def Let_def split: if_split_asm)
  show "claim_prepare_validate q = Inr ()"
    using assms by (auto simp: validate_prepare_def Let_def)
  show "\<forall>b\<in>set active. nb_claim_id b \<noteq> nb_claim_id (pq_binding q) \<and> compatible (pq_binding q) b"
    using none admit
    by (fastforce simp: compatible_def admit_slot_def Let_def list_ex_iff split: if_split_asm)
  have dist: "distinct (map ns_key (inv_slots i))"
    using inv by (auto simp: inventory_validate_def validate_inventory_slots_def dest: slot_set_distinct
        split: if_splits)
  show "\<forall>s\<in>set (nb_slots (pq_binding q)). is_shared_capacity (sb_kind s) \<longrightarrow>
      (\<exists>slot capacity amount. inventory_find i (sb_key s) = Some slot \<and>
         scalar_amount (ns_allocation slot) = Some capacity \<and> scalar_amount (sb_allocation s) = Some amount \<and>
         claimed_amount active (sb_key s) + unat amount \<le> unat capacity)"
  proof (intro ballI impI)
    fix s
    assume s: "s \<in> set (nb_slots (pq_binding q))" "is_shared_capacity (sb_kind s)"
    with admit obtain al capacity amount t u where
      c: "btree_get (inventory_capacities i) (sb_key s) = Some al" "scalar_amount al = Some capacity"
        "scalar_amount (sb_allocation s) = Some amount" "active_amount active (sb_key s) = Inr t"
        "checked_add t amount = Some u" "u \<le> capacity"
      by (fastforce simp: admit_slot_def Let_def bind_eq_Some_conv split: if_split_asm option.split_asm)
    from c(1) obtain slot where slot: "inventory_find i (sb_key s) = Some slot" "al = ns_allocation slot"
      by (auto simp: inventory_capacities_get [OF dist])
    have "claimed_amount active (sb_key s) + unat amount \<le> unat capacity"
      using active_amount_exact [OF c(4)] checked_add_unat [OF c(5)] c(6) by (simp add: word_le_nat_alt)
    with slot c(2,3) show "\<exists>slot capacity amount. inventory_find i (sb_key s) = Some slot \<and>
         scalar_amount (ns_allocation slot) = Some capacity \<and> scalar_amount (sb_allocation s) = Some amount \<and>
         claimed_amount active (sb_key s) + unat amount \<le> unat capacity" by blast
  qed
qed

text \<open>What \<open>validate_prepare\<close> admits against the active claims of the journal, the projection can activate.\<close>

lemma admitted_activates:
  assumes "projection_wf m" and "validate_prepare X q i (active_bindings m) = Inr ()"
    and "btree_get m (nb_claim_id (pq_binding q)) = Some p"
  shows "activate_prepared m q =
    Inr (btree_insert (nb_claim_id (pq_binding q)) (p\<lparr>pj_active := True, pj_released := False\<rparr>) m)"
proof -
  let ?b = "pq_binding q"
  have apart: "nb_claim_id (pj_binding c) \<noteq> nb_claim_id ?b \<and> compatible ?b (pj_binding c)"
    if "c \<in> set (btree_values m)" "pj_active c" for c
    using validate_prepare_facts(2) [OF assms(2)] that by (auto simp: active_bindings_def)
  have "candidate_conflict ?b c = Inr ()" if "c \<in> set (btree_values m)" "pj_active c" for c
    using apart [OF that] by (fastforce simp: candidate_conflict_def compatible_def list_ex_iff)
  moreover have "\<not> list_ex (\<lambda>c. pj_active c \<and> nb_claim_id (pj_binding c) \<noteq> nb_claim_id ?b
      \<and> same_runtime c (nb_runtime_unit_id ?b) (nb_runtime_generation ?b)) (btree_values m)"
  proof -
    have "\<not> same_runtime c (nb_runtime_unit_id ?b) (nb_runtime_generation ?b)"
      if "c \<in> set (btree_values m)" "pj_active c" for c
      using apart [OF that] by (auto simp: same_runtime_def compatible_def)
    then show ?thesis by (auto simp: list_ex_iff)
  qed
  ultimately have "try_for_each (candidate_conflict ?b) (filter pj_active (btree_values m)) = Inr ()"
    by simp
  with assms(3) \<open>\<not> list_ex _ _\<close> show ?thesis
    by (simp add: activate_prepared_def Let_def)
qed

section \<open>The last command of a journal\<close>

lemma entries_in_order_last:
  assumes "journal_validate P j = Inr ()" and "btree_wf (cj_entries j)"
    and "btree_get (cj_entries j) i = Some x" and "entry_sequence x = cj_last_received j"
  obtains xs where "entries_in_order j = xs @ [x]"
proof -
  obtain xs ys where split: "entries_in_order j = xs @ x # ys"
    using entries_in_order_set [OF assms(2), of x] assms(3) by (meson split_list)
  have "ys = []"
  proof (rule ccontr)
    assume "ys \<noteq> []"
    then obtain y where y: "y \<in> set ys" by (cases ys) auto
    then obtain k where k: "btree_get (cj_entries j) k = Some y"
      using split entries_in_order_set [OF assms(2), of y] by auto
    from entries_in_order_later [OF assms(1) split y] journal_sequence_le(1) [OF assms(1) k] assms(4)
    show False by simp
  qed
  with split that show ?thesis by simp
qed

lemma entries_in_order_replace:
  assumes "journal_validate P j = Inr ()" and "btree_wf (cj_entries j)"
    and "btree_get (cj_entries j) i = Some x" and "entry_sequence x' = entry_sequence x"
    and "entries_in_order j = xs @ [x]"
  shows "entries_in_order (j\<lparr>cj_entries := btree_insert i x' (cj_entries j)\<rparr>) = xs @ [x']"
proof -
  let ?es = "btree_insert i x' (cj_entries j)"
  have m: "add_mset x (mset (btree_values ?es)) = add_mset x' (mset (btree_values (cj_entries j)))"
    using btree_values_insert_old [OF assms(2)] assms(3) by (simp add: btree_get_def)
  have o: "mset (btree_values (cj_entries j)) = mset xs + {#x#}"
    using arg_cong [OF assms(5), of mset] by (simp add: entries_in_order_def)
  have "add_mset x (mset (btree_values ?es)) = add_mset x (mset xs + {#x'#})"
    unfolding m o by simp
  then have ms: "mset (btree_values ?es) = mset (xs @ [x'])" by simp
  have "map (entry_sequence \<circ> snd) ?es = map (entry_sequence \<circ> snd) (cj_entries j)"
    using btree_replace_map [OF assms(2,3), of "entry_sequence \<circ> snd" x'] assms(4) by simp
  then have "distinct (map entry_sequence (btree_values ?es))"
    using journal_validate_facts(2) [OF assms(1)] by (simp add: journal_sequences_def btree_values_def)
  then have inj: "inj_on entry_sequence (set (btree_values ?es))"
    by (simp add: distinct_map)
  have "sorted (map entry_sequence (entries_in_order j))"
    by (simp add: entries_in_order_def)
  then have srt: "sorted (map entry_sequence (xs @ [x']))"
    using assms(4,5) by simp
  show ?thesis
    using sort_key_inj_key_eq [OF ms inj srt] by (simp add: entries_in_order_def)
qed
lemma acknowledged_replace:
  assumes "btree_wf (cj_entries j)" and "btree_get (cj_entries j) i = Some x"
    and "entry_sequence x' = entry_sequence x" and "je_acknowledged x' = je_acknowledged x"
  shows "acknowledged_by_sequence (j\<lparr>cj_entries := btree_insert i x' (cj_entries j)\<rparr>) =
    acknowledged_by_sequence j"
proof -
  let ?f = "\<lambda>(k, x). (entry_sequence x, je_acknowledged x)"
  have ins: "fold (\<lambda>e m. btree_insert (entry_sequence e) (je_acknowledged e) m) (map snd es) m =
      fold (\<lambda>(s, a) m. btree_insert s a m) (map ?f es) m" for es m
    by (induction es arbitrary: m) (auto simp: case_prod_unfold)
  have "map ?f (btree_insert i x' (cj_entries j)) = map ?f (cj_entries j)"
    by (rule btree_replace_map [OF assms(1,2)]) (simp add: assms(3,4))
  then show ?thesis
    by (simp add: acknowledged_by_sequence_def btree_values_def ins)
qed

text \<open>
  Completing the last command: the journal stays valid when the entry does and the projection
  accepts the result. No projection of agent runs reads the commands on claims and units that fail,
  nor those whose result is not an event of a run.
\<close>

lemma complete_last_valid:
  assumes valid: "journal_validate P j = Inr ()" and wf: "btree_wf (cj_entries j)"
    and x: "btree_get (cj_entries j) i = Some x" "je_completion x = None"
    and order: "entries_in_order j = xs @ [x]"
    and ok: "entry_ok P (cj_node_id j) i (x\<lparr>je_completion := Some c\<rparr>)"
    and m: "try_fold (projection_apply P) [] xs = Inr m"
    and p: "projection_apply P m (x\<lparr>je_completion := Some c\<rparr>) = Inr m'"
    and quiet: "\<And>r. jc_outcome c = Succeeded r \<Longrightarrow> run_event_of (ce_payload (je_envelope x)) r = None"
  shows "journal_validate P (j\<lparr>cj_entries := btree_insert i (x\<lparr>je_completion := Some c\<rparr>) (cj_entries j)\<rparr>) = Inr ()"
    and "resource_claim_projection P (j\<lparr>cj_entries := btree_insert i (x\<lparr>je_completion := Some c\<rparr>) (cj_entries j)\<rparr>) = Inr m'"
proof -
  let ?x = "x\<lparr>je_completion := Some c\<rparr>"
  let ?j = "j\<lparr>cj_entries := btree_insert i ?x (cj_entries j)\<rparr>"
  have order': "entries_in_order ?j = xs @ [?x]"
    by (rule entries_in_order_replace [OF valid wf x(1) _ order]) simp
  then show proj: "resource_claim_projection P ?j = Inr m'"
    using m p by (simp add: resource_claim_projection_def try_fold_append)
  have seqs: "map (entry_sequence \<circ> snd) (cj_entries ?j) = map (entry_sequence \<circ> snd) (cj_entries j)"
    using btree_replace_map [OF wf x(1), of "entry_sequence \<circ> snd" ?x] by simp
  have events: "run_events ?j = run_events j"
  proof -
    have "succeeded x = None" using x(2) by (simp add: succeeded_def)
    moreover have "(case succeeded ?x of None \<Rightarrow> None
        | Some r \<Rightarrow> run_event_of (ce_payload (je_envelope ?x)) r) = None"
      using quiet by (auto simp: succeeded_def split: outcome.split)
    ultimately show ?thesis
      by (simp add: run_events_def order order' map_filter_def)
  qed
  have ack: "acknowledged_by_sequence ?j = acknowledged_by_sequence j"
    by (rule acknowledged_replace [OF wf x(1)]) simp_all
  have v: "validate_entries P (cj_node_id j) [] (cj_entries j) =
      Inr (rev (map (entry_sequence \<circ> snd) (cj_entries j)))"
    using valid by (auto simp: journal_validate_def validate_entries_iff split: if_split_asm)
  have oks: "entry_ok P (cj_node_id j) k y" if "(k, y) \<in> set (btree_insert i ?x (cj_entries j))" for k y
  proof -
    have "btree_get (btree_insert i ?x (cj_entries j)) k = Some y"
      using that btree_get_mem [OF btree_wf_insert [OF wf]] by blast
    then show ?thesis
      using ok journal_entry_ok [OF valid] by (auto simp: btree_get_insert split: if_split_asm)
  qed
  have v': "validate_entries P (cj_node_id j) [] (btree_insert i ?x (cj_entries j)) =
      Inr (rev (map (entry_sequence \<circ> snd) (cj_entries j)))"
    using v oks seqs by (auto simp: validate_entries_iff)
  have ne: "btree_insert i ?x (cj_entries j) \<noteq> []" "cj_entries j \<noteq> []"
    using keys_btree_insert [of i ?x "cj_entries j"] x(1) by auto
  have "cj_schema ?j = cj_schema j" "cj_node_id ?j = cj_node_id j" "cj_last_received ?j = cj_last_received j"
      "cj_last_acknowledged ?j = cj_last_acknowledged j" "cj_entries ?j = btree_insert i ?x (cj_entries j)"
      "cj_aggregate_generations ?j = cj_aggregate_generations j"
      "contiguous_acknowledged_sequence ?j = contiguous_acknowledged_sequence j"
    by (simp_all add: contiguous_acknowledged_sequence_def ack)
  note f = this events proj v' ne
  show "journal_validate P ?j = Inr ()"
    using valid unfolding journal_validate_def f v
    by (simp add: Let_def ne split: if_split_asm)
qed

text \<open>A command that \<open>begin\<close> journals for the first time is the last of the journal, without outcome.\<close>

lemma entries_in_order_append:
  assumes "journal_validate P j' = Inr ()" and "btree_wf (cj_entries j')"
    and "btree_get (cj_entries j) i = None"
    and "cj_entries j' = btree_insert i x (cj_entries j)" and "entry_sequence x = cj_last_received j'"
  shows "entries_in_order j' = entries_in_order j @ [x]"
proof -
  have x: "btree_get (cj_entries j') i = Some x"
    using assms(4) by (simp add: btree_get_insert)
  obtain xs where xs: "entries_in_order j' = xs @ [x]"
    by (rule entries_in_order_last [OF assms(1,2) x assms(5)])
  have "mset (btree_values (cj_entries j')) = add_mset x (mset (btree_values (cj_entries j)))"
    using btree_values_insert_new [of "cj_entries j" i x] assms(3,4) by (simp add: btree_get_def)
  moreover have "mset (btree_values (cj_entries j')) = mset xs + {#x#}"
    using arg_cong [OF xs, of mset] by (simp add: entries_in_order_def)
  ultimately have ms: "mset (btree_values (cj_entries j)) = mset xs" by simp
  have "distinct (map entry_sequence (btree_values (cj_entries j')))"
    using journal_validate_facts(2) [OF assms(1)] by (simp add: journal_sequences_def)
  then have "inj_on entry_sequence (set (btree_values (cj_entries j')))"
    by (simp add: distinct_map)
  moreover have "set (btree_values (cj_entries j)) \<subseteq> set (btree_values (cj_entries j'))"
    using ms xs by (metis UnCI entries_in_order_def mset_eq_setD set_append set_sort subsetI)
  ultimately have inj: "inj_on entry_sequence (set (btree_values (cj_entries j)))"
    by (rule inj_on_subset)
  have "sorted (map entry_sequence (entries_in_order j'))"
    by (simp add: entries_in_order_def)
  then have srt: "sorted (map entry_sequence xs)"
    using xs by (simp add: sorted_append)
  have "entries_in_order j = xs"
    using sort_key_inj_key_eq [OF ms inj srt] by (simp add: entries_in_order_def)
  with xs show ?thesis by simp
qed

lemma begin_fresh:
  assumes "journal_begin P node_id io f e = (f1, Inr Execute)" and "file_sound P node_id f"
    and "btree_get (cj_entries (current_journal node_id f)) (ce_command_id e) = None"
  obtains j where "f1 = Some j" and "cj_node_id j = node_id" and "journal_validate P j = Inr ()"
    and "fence_inv P j"
    and "btree_get (cj_entries j) (ce_command_id e) =
      Some \<lparr>je_envelope = e, je_completion = None, je_acknowledged = False\<rparr>"
    and "entries_in_order j = entries_in_order (current_journal node_id f) @
      [\<lparr>je_envelope = e, je_completion = None, je_acknowledged = False\<rparr>]"
    and "journal_validate P (current_journal node_id f) = Inr ()"
proof -
  from assms(1) obtain j0 where j0: "read_journal P node_id io f = Inr j0"
    by (auto simp: journal_begin_def split: sum.split_asm if_split_asm)
  then have cur: "j0 = current_journal node_id f" "journal_validate P j0 = Inr ()"
    by (auto simp: read_journal_Inr)
  let ?x = "\<lparr>je_envelope = e, je_completion = None, je_acknowledged = False\<rparr> :: entry"
  from assms(1,3) j0 cur obtain generations where
    c: "commit_journal P io f (j0\<lparr>cj_aggregate_generations := generations,
          cj_last_received := ce_sequence e,
          cj_entries := btree_insert (ce_command_id e) ?x (cj_entries j0)\<rparr>) Execute = (f1, Inr Execute)"
    by (auto simp: journal_begin_def split: sum.split_asm if_split_asm option.split_asm)
  define j where "j = j0\<lparr>cj_aggregate_generations := generations, cj_last_received := ce_sequence e,
          cj_entries := btree_insert (ce_command_id e) ?x (cj_entries j0)\<rparr>"
  have f1: "f1 = Some j" "journal_validate P j = Inr ()"
    using c by (auto simp: j_def commit_journal_def write_journal_def split: sum.split_asm write_outcome.split_asm)
  have "file_sound P node_id f1"
    by (rule file_step_sound [OF assms(2)]) (rule file_step.begins [OF assms(1)])
  then have s: "cj_node_id j = node_id" "fence_inv P j"
    using f1 by (simp_all add: file_sound_def)
  have x: "btree_get (cj_entries j) (ce_command_id e) = Some ?x"
    by (simp add: j_def btree_get_insert)
  have "entries_in_order j = entries_in_order j0 @ [?x]"
    by (rule entries_in_order_append [OF f1(2) fence_inv_wf(1) [OF s(2)] assms(3) [folded cur(1)]])
      (simp_all add: j_def)
  then show ?thesis
    using that f1 s x cur by blast
qed
lemma complete_last:
  assumes j: "cj_node_id j = node_id" "journal_validate P j = Inr ()" "btree_wf (cj_entries j)"
    and x: "btree_get (cj_entries j) i = Some x" "je_completion x = None"
    and order: "entries_in_order j = xs @ [x]"
    and ok: "entry_ok P node_id i (x\<lparr>je_completion := Some \<lparr>jc_completed_at = t, jc_outcome = res\<rparr>\<rparr>)"
    and m: "try_fold (projection_apply P) [] xs = Inr m"
    and p: "projection_apply P m (x\<lparr>je_completion := Some \<lparr>jc_completed_at = t, jc_outcome = res\<rparr>\<rparr>) = Inr m'"
    and quiet: "\<And>r. res = Succeeded r \<Longrightarrow> run_event_of (ce_payload (je_envelope x)) r = None"
  obtains j' a where
    "journal_complete P node_id \<lparr>io_open = None, io_write = Written\<rparr> (Some j) i t res = (Some j', Inr a)"
    and "ak_outcome a = res" and "cj_node_id j' = node_id" and "journal_validate P j' = Inr ()"
    and "resource_claim_projection P j' = Inr m'"
proof -
  let ?x = "x\<lparr>je_completion := Some \<lparr>jc_completed_at = t, jc_outcome = res\<rparr>\<rparr>"
  let ?j = "j\<lparr>cj_entries := btree_insert i ?x (cj_entries j)\<rparr>"
  have v: "journal_validate P ?j = Inr ()" "resource_claim_projection P ?j = Inr m'"
    using complete_last_valid [OF j(2,3) x order _ m p] ok j(1) quiet by simp_all
  obtain a where a: "entry_acknowledgement P ?x = Inr (Some a)" "ak_outcome a = res"
    using ok by (auto simp: entry_ok_def is_ok_iff entry_acknowledgement_def Let_def)
  have "journal_complete P node_id \<lparr>io_open = None, io_write = Written\<rparr> (Some j) i t res = (Some ?j, Inr a)"
    using j(1,2) x a(1) v(1)
    by (simp add: journal_complete_def read_journal_def Let_def ok_or_def commit_journal_def write_journal_def)
  then show ?thesis
    by (rule that) (use a(2) j(1) v in simp_all)
qed

lemma entry_ok_failed:
  assumes "entry_ok P node_id i x" and "outcome_validate P res = Inr ()" and "\<And>r. res \<noteq> Succeeded r"
    and "ce_issued_at (je_envelope x) \<le> t"
  shows "entry_ok P node_id i (x\<lparr>je_completion := Some \<lparr>jc_completed_at = t, jc_outcome = res\<rparr>\<rparr>)"
  using assms
  by (cases res) (auto simp: entry_ok_def entry_acknowledgement_def is_ok_iff Let_def ack_validate_against_def
      ack_schema_def)

lemma projection_apply_failed:
  assumes "projection_apply P m x = Inr m1" and "je_completion x = None" and "\<And>r. jc_outcome c \<noteq> Succeeded r"
  shows "\<exists>m'. projection_apply P m (x\<lparr>je_completion := Some c\<rparr>) = Inr m' \<and>
    ((\<forall>q. ce_payload (je_envelope x) \<noteq> ResourceClaimPrepare q) \<longrightarrow> m' = m1)"
proof -
  have s: "succeeded x = None" "succeeded (x\<lparr>je_completion := Some c\<rparr>) = None"
    using assms(2,3) by (auto simp: succeeded_def split: outcome.split)
  have r: "register_entry m (ce_payload (je_envelope x)) False = Inr m1"
    using assms(1,2) s(1) by (auto simp: projection_apply_def)
  have "\<exists>m'. register_entry m (ce_payload (je_envelope x)) True = Inr m' \<and>
      ((\<forall>q. ce_payload (je_envelope x) \<noteq> ResourceClaimPrepare q) \<longrightarrow> m' = m1)"
  proof (cases "ce_payload (je_envelope x)")
    case (ResourceClaimPrepare q)
    with r show ?thesis by (auto simp: Let_def)
  qed (use r in simp_all)
  then show ?thesis
    using s(2) by (auto simp: projection_apply_def)
qed

lemma execute_begun:
  "journal_begin P node_id (ae_begin_io env) f e = (f1, Inr Execute) \<Longrightarrow>
   execute P node_id env f e = (let res = command_outcome P node_id env f1 e in
     journal_complete P node_id (ae_complete_io env) f1 (ce_command_id e) (completion_timestamp P env e res) res)"
  by (simp add: execute_def)

lemma completion_after_issue: "ce_issued_at e \<le> completion_timestamp P env e res"
  by (auto simp: completion_timestamp_def command_timestamp_def Let_def split: option.split)

text \<open>A first execution that ends in a valid failure is journaled and acknowledged as such.\<close>

lemma execute_failed:
  assumes sound: "file_sound P node_id f"
    and fresh: "btree_get (cj_entries (current_journal node_id f)) (ce_command_id e) = None"
    and started: "journal_begin P node_id (ae_begin_io env) f e = (f1, Inr Execute)"
    and io: "ae_complete_io env = \<lparr>io_open = None, io_write = Written\<rparr>"
    and failed: "\<And>r. command_outcome P node_id env f1 e \<noteq> Succeeded r"
    and valid: "outcome_validate P (command_outcome P node_id env f1 e) = Inr ()"
  obtains j j' a where "f1 = Some j" and "execute P node_id env f e = (Some j', Inr a)"
    and "ak_outcome a = command_outcome P node_id env f1 e" and "journal_validate P j' = Inr ()"
    and "cj_node_id j' = node_id" and "journal_validate P j = Inr ()" and "cj_node_id j = node_id"
    and "(\<forall>q. ce_payload e \<noteq> ResourceClaimPrepare q) \<Longrightarrow>
      resource_claim_projection P j' = resource_claim_projection P j"
    and "entries_in_order j = entries_in_order (current_journal node_id f) @
      [\<lparr>je_envelope = e, je_completion = None, je_acknowledged = False\<rparr>]"
    and "journal_validate P (current_journal node_id f) = Inr ()"
proof -
  let ?x = "\<lparr>je_envelope = e, je_completion = None, je_acknowledged = False\<rparr> :: entry"
  let ?res = "command_outcome P node_id env f1 e"
  let ?c = "\<lparr>jc_completed_at = completion_timestamp P env e ?res, jc_outcome = ?res\<rparr>"
  let ?xs = "entries_in_order (current_journal node_id f)"
  obtain j where j: "f1 = Some j" "cj_node_id j = node_id" "journal_validate P j = Inr ()" "fence_inv P j"
      "btree_get (cj_entries j) (ce_command_id e) = Some ?x" "entries_in_order j = ?xs @ [?x]"
      "journal_validate P (current_journal node_id f) = Inr ()"
    by (rule begin_fresh [OF started sound fresh])
  note wf = fence_inv_wf(1) [OF j(4)]
  obtain m1 where m1: "resource_claim_projection P j = Inr m1"
    using journal_validate_facts(5) [OF j(3)] by blast
  then obtain m where m: "try_fold (projection_apply P) [] ?xs = Inr m" "projection_apply P m ?x = Inr m1"
    by (auto simp: resource_claim_projection_def j(6) try_fold_append)
  obtain m' where m': "projection_apply P m (?x\<lparr>je_completion := Some ?c\<rparr>) = Inr m'"
      "(\<forall>q. ce_payload e \<noteq> ResourceClaimPrepare q) \<longrightarrow> m' = m1"
    using projection_apply_failed [OF m(2), of ?c] failed by auto
  have ok: "entry_ok P node_id (ce_command_id e) (?x\<lparr>je_completion := Some ?c\<rparr>)"
    by (rule entry_ok_failed [OF _ valid failed])
      (use journal_entry_ok [OF j(3,5)] j(2) completion_after_issue in simp_all)
  obtain j' a where c: "journal_complete P node_id \<lparr>io_open = None, io_write = Written\<rparr> (Some j)
      (ce_command_id e) (completion_timestamp P env e ?res) ?res = (Some j', Inr a)"
      "ak_outcome a = ?res" "cj_node_id j' = node_id" "journal_validate P j' = Inr ()"
      "resource_claim_projection P j' = Inr m'"
    by (rule complete_last [OF j(2,3) wf j(5) _ j(6) ok m(1) m'(1)]) (use failed in auto)
  show ?thesis
    by (rule that [OF j(1) _ c(2,4,3) j(3,2)])
      (use c(1,5) m1 m'(2) j(6,7) in \<open>simp_all add: execute_begun [OF started] io j(1) Let_def\<close>)
qed
section \<open>Failure texts\<close>

lemma trim_start_clean: "\<not> starts_with_ws (trim_start s)"
  by (induction s rule: trim_start.induct) (auto simp: starts_with_ws_def)

lemma trim_start_set: "set (trim_start s) \<subseteq> set s"
  by (induction s rule: trim_start.induct) auto

lemma trim_rev_suffix: "\<exists>t. s = t @ trim_rev s"
proof (induction s rule: trim_rev.induct)
  case (4 c d e s)
  consider "ws1 c" | "\<not> ws1 c" "ws2 d c" | "\<not> ws1 c" "\<not> ws2 d c" "ws3 e d c"
    | "\<not> ws1 c" "\<not> ws2 d c" "\<not> ws3 e d c" by blast
  then show ?case
  proof cases
    case 1
    with 4(1) obtain t where "d # e # s = t @ trim_rev (d # e # s)" by blast
    with 1 show ?thesis by (intro exI [of _ "c # t"]) simp
  next
    case 2
    with 4(2) obtain t where "e # s = t @ trim_rev (e # s)" by blast
    with 2 show ?thesis by (intro exI [of _ "c # d # t"]) simp
  next
    case 3
    with 4(3) obtain t where "s = t @ trim_rev s" by blast
    with 3 show ?thesis by (intro exI [of _ "c # d # e # t"]) simp
  next
    case 4
    then show ?thesis by simp
  qed
qed auto

lemma trim_prefix: "\<exists>t. trim_start s = trim s @ t"
proof -
  obtain t where "rev (trim_start s) = t @ trim_rev (rev (trim_start s))"
    using trim_rev_suffix by blast
  then have "rev (rev (trim_start s)) = rev (t @ trim_rev (rev (trim_start s)))" by (rule arg_cong)
  then show ?thesis by (auto simp: trim_def)
qed

lemma take_chars_prefix: "\<exists>t. s = take_chars n s @ t"
  by (induction n s rule: take_chars.induct) auto

lemma take_chars_nonempty: "s \<noteq> [] \<Longrightarrow> 0 < n \<Longrightarrow> take_chars n s \<noteq> []"
  by (cases s) auto

lemma take_chars_single: "list_all (\<lambda>c. \<not> is_continuation c) s \<Longrightarrow> length (take_chars n s) \<le> n"
  by (induction n s rule: take_chars.induct) auto

lemma starts_with_ws_append: "starts_with_ws s \<Longrightarrow> starts_with_ws (s @ t)"
  by (auto simp: starts_with_ws_def split: list.split_asm list.split)

lemma is_blank_starts: "is_blank s \<Longrightarrow> s \<noteq> [] \<Longrightarrow> starts_with_ws s"
  by (cases s rule: is_blank.cases) (auto simp: starts_with_ws_def split: if_split_asm)

text \<open>A sanitized text is one line and not blank; only its length in bytes may be too large.\<close>

lemma sanitize_error_line:
  "validate_single_line l (sanitize_error m) (16 * 1024) = Inr () \<longleftrightarrow> length (sanitize_error m) \<le> 16 * 1024"
proof -
  define g where "g = map (\<lambda>c. if c \<in> {CHR 0x00, CHR 0x0D, CHR 0x0A} then CHR '' '' else c) m"
  define s where "s = trim g"
  have "\<not> is_blank (sanitize_error m) \<and> set (sanitize_error m) \<inter> {CHR 0x00, CHR 0x0D, CHR 0x0A} = {}"
  proof (cases "s = []")
    case True
    then have "sanitize_error m = ''Runtime operation failed''"
      by (simp add: sanitize_error_def g_def s_def Let_def)
    then show ?thesis by (simp add: ws1_def ws2_def ws3_def)
  next
    case False
    then have e: "sanitize_error m = take_chars (16 * 1024) s"
      by (simp add: sanitize_error_def g_def s_def Let_def)
    obtain t where t: "s = take_chars (16 * 1024) s @ t" using take_chars_prefix by blast
    obtain u where u: "trim_start g = s @ u" using trim_prefix s_def by blast
    have "\<not> starts_with_ws (take_chars (16 * 1024) s)"
    proof
      assume "starts_with_ws (take_chars (16 * 1024) s)"
      from starts_with_ws_append [OF this, of t] have "starts_with_ws s" using t by simp
      from starts_with_ws_append [OF this, of u] trim_start_clean [of g] u show False by simp
    qed
    then have "\<not> is_blank (take_chars (16 * 1024) s)"
      using is_blank_starts take_chars_nonempty [OF False] by auto
    moreover have "set (take_chars (16 * 1024) s) \<subseteq> set g"
    proof -
      have "set (take_chars (16 * 1024) s) \<subseteq> set s" by (subst (2) t) auto
      also have "\<dots> \<subseteq> set (trim_start g)" using u by auto
      finally show ?thesis using trim_start_set by blast
    qed
    moreover have "set g \<inter> {CHR 0x00, CHR 0x0D, CHR 0x0A} = {}"
      by (auto simp: g_def)
    ultimately show ?thesis unfolding e by blast
  qed
  then show ?thesis
    by (auto simp: validate_single_line_def contains_any_def list_ex_iff)
qed

lemma sanitize_error_single:
  assumes "list_all (\<lambda>c. \<not> is_continuation c) m"
  shows "length (sanitize_error m) \<le> 16 * 1024"
proof -
  define g where "g = map (\<lambda>c. if c \<in> {CHR 0x00, CHR 0x0D, CHR 0x0A} then CHR '' '' else c) m"
  have g: "list_all (\<lambda>c. \<not> is_continuation c) g"
    using assms by (auto simp: g_def list_all_iff is_continuation_def)
  obtain t where "trim_start g = trim g @ t" using trim_prefix by blast
  then have "set (trim g) \<subseteq> set (trim_start g)" by auto
  with g trim_start_set [of g] have "list_all (\<lambda>c. \<not> is_continuation c) (trim g)"
    unfolding list_all_iff by blast
  note le = take_chars_single [OF this, of "16 * 1024"]
  have "sanitize_error m = (if trim g = [] then ''Runtime operation failed'' else take_chars (16 * 1024) (trim g))"
    by (simp only: sanitize_error_def Let_def g_def)
  then show ?thesis
    using le by (cases "trim g = []") (simp_all only: if_True if_False, simp)
qed
section \<open>Totals of the active claims\<close>

definition held_amount :: "slot_id \<Rightarrow> projected \<Rightarrow> nat" where
  "held_amount key p = (if pj_active p then claimed_amount [pj_binding p] key else 0)"

lemma claimed_amount_append: "claimed_amount (bs @ cs) key = claimed_amount bs key + claimed_amount cs key"
  by (simp add: claimed_amount_def)

lemma claimed_amount_active:
  "claimed_amount (active_bindings m) key = sum_list (map (held_amount key) (btree_values m))"
proof -
  have "claimed_amount (map pj_binding (filter pj_active ps)) key = sum_list (map (held_amount key) ps)" for ps
  proof (induction ps)
    case (Cons p ps)
    have "claimed_amount ([pj_binding p] @ map pj_binding (filter pj_active ps)) key =
        claimed_amount [pj_binding p] key + sum_list (map (held_amount key) ps)"
      by (simp only: claimed_amount_append Cons.IH)
    with Cons.IH show ?case
      by (cases "pj_active p") (simp_all add: held_amount_def [of key p])
  qed (simp add: claimed_amount_def)
  then show ?thesis by (simp add: active_bindings_def)
qed

lemma claimed_amount_slot:
  assumes "validate_slot_bindings (nb_slots b) = Inr ()" and "s \<in> set (nb_slots b)"
    and "scalar_amount (sb_allocation s) = Some a"
  shows "claimed_amount [b] (sb_key s) = unat a"
proof -
  have "distinct (map sb_key (nb_slots b))"
    using assms(1) by (auto simp: validate_slot_bindings_def dest: slot_set_distinct)
  from filter_key_unique [OF this assms(2)] assms(3) show ?thesis
    by (simp add: claimed_amount_def)
qed

lemma active_bindings_insert_cong:
  assumes "pj_active v = pj_active w" and "pj_binding v = pj_binding w"
  shows "active_bindings (btree_insert k v m) = active_bindings (btree_insert k w m)"
proof -
  have "map (\<lambda>p. (pj_active p, pj_binding p)) (btree_values (btree_insert k v m)) =
      map (\<lambda>p. (pj_active p, pj_binding p)) (btree_values (btree_insert k w m))"
    using assms by (induction k v m rule: btree_insert.induct) (auto simp: btree_values_def)
  moreover have "active_bindings m' = map snd (filter fst (map (\<lambda>p. (pj_active p, pj_binding p)) (btree_values m')))"
    for m'
    by (simp add: active_bindings_def filter_map comp_def)
  ultimately show ?thesis by simp
qed

text \<open>A prepare command registered as completed has the same active claims, and then its own.\<close>

lemma register_prepare_completed:
  assumes "register_entry m (ResourceClaimPrepare q) False = Inr m1" and "projection_wf m"
  obtains m2 p where "register_entry m (ResourceClaimPrepare q) True = Inr m2" and "projection_wf m2"
    and "active_bindings m2 = active_bindings m1" and "btree_get m2 (nb_claim_id (pq_binding q)) = Some p"
    and "pj_binding p = pq_binding q"
proof -
  define p where "p = (case btree_get m (nb_claim_id (pq_binding q)) of Some p \<Rightarrow> p | None \<Rightarrow> projected_new q)"
  let ?p = "p\<lparr>pj_prepare_terminal := True\<rparr>"
  have r: "register_prepare p q = Inr ()" "m1 = btree_insert (nb_claim_id (pq_binding q)) p m"
    using assms(1) by (auto simp: p_def Let_def)
  then have reg: "register_entry m (ResourceClaimPrepare q) True =
      Inr (btree_insert (nb_claim_id (pq_binding q)) ?p m)"
    by (simp add: p_def Let_def)
  show ?thesis
  proof (rule that [OF reg register_entry_wf [OF reg assms(2)]])
    show "active_bindings (btree_insert (nb_claim_id (pq_binding q)) ?p m) = active_bindings m1"
      unfolding r(2) by (rule active_bindings_insert_cong) simp_all
    show "btree_get (btree_insert (nb_claim_id (pq_binding q)) ?p m) (nb_claim_id (pq_binding q)) = Some ?p"
      by (simp add: btree_get_insert)
    show "pj_binding ?p = pq_binding q"
      using r(1) by (auto simp: register_prepare_def split: if_split_asm)
  qed
qed

lemma admitted_projection:
  assumes "projection_wf m2" and "validate_prepare X q i (active_bindings m2) = Inr ()"
    and "btree_get m2 (nb_claim_id (pq_binding q)) = Some p" and "pj_binding p = pq_binding q"
  obtains m' where "activate_prepared m2 q = Inr m'"
    and "set (active_bindings m') = insert (pq_binding q) (set (active_bindings m2))"
    and "claimed_amount (active_bindings m') key =
      claimed_amount [pq_binding q] key + claimed_amount (active_bindings m2) key"
proof -
  let ?k = "nb_claim_id (pq_binding q)"
  let ?p = "p\<lparr>pj_active := True, pj_released := False\<rparr>"
  have wf: "btree_wf m2" using assms(1) by (simp add: projection_wf_def)
  have off: "\<not> pj_active p"
  proof
    assume "pj_active p"
    then have "pq_binding q \<in> set (active_bindings m2)"
      using assms(3,4) btree_values_iff [OF wf, of p] by (force simp: active_bindings_def)
    with validate_prepare_facts(2) [OF assms(2)] show False by blast
  qed
  have act: "activate_prepared m2 q = Inr (btree_insert ?k ?p m2)"
    by (rule admitted_activates [OF assms(1-3)])
  have "held_amount key p + sum_list (map (held_amount key) (btree_values (btree_insert ?k ?p m2))) =
      held_amount key ?p + sum_list (map (held_amount key) (btree_values m2))"
    by (rule btree.total_put_old [OF wf assms(3)])
  then have total: "claimed_amount (active_bindings (btree_insert ?k ?p m2)) key =
      claimed_amount [pq_binding q] key + claimed_amount (active_bindings m2) key"
    using off assms(4) by (simp add: claimed_amount_active held_amount_def)
  have mem: "b \<in> set (active_bindings m) \<longleftrightarrow> (\<exists>k c. btree_get m k = Some c \<and> pj_active c \<and> pj_binding c = b)"
    if "btree_wf m" for b m
    using btree_values_iff [OF that] by (force simp: active_bindings_def)
  have new: "b \<in> set (active_bindings (btree_insert ?k ?p m2)) \<longleftrightarrow> (\<exists>k c.
      (if k = ?k then Some ?p else btree_get m2 k) = Some c \<and> pj_active c \<and> pj_binding c = b)" for b
    using mem [OF btree_wf_insert [OF wf], of b ?k ?p] by (simp add: btree_get_insert)
  have "b \<in> insert (pq_binding q) (set (active_bindings m2))"
    if b: "b \<in> set (active_bindings (btree_insert ?k ?p m2))" for b
  proof -
    obtain k c where "(if k = ?k then Some ?p else btree_get m2 k) = Some c" "pj_active c" "pj_binding c = b"
      using b new by blast
    then show ?thesis
      using assms(4) mem [OF wf, of b] by (cases "k = ?k") auto
  qed
  moreover have "b \<in> set (active_bindings (btree_insert ?k ?p m2))" if b: "b \<in> set (active_bindings m2)" for b
  proof -
    obtain k c where c: "btree_get m2 k = Some c" "pj_active c" "pj_binding c = b"
      using b mem [OF wf, of b] by blast
    then have "k \<noteq> ?k" using assms(3) off by auto
    with c show ?thesis unfolding new by (intro exI [of _ k] exI [of _ c]) simp
  qed
  moreover have "pq_binding q \<in> set (active_bindings (btree_insert ?k ?p m2))"
    unfolding new using assms(4) by (intro exI [of _ ?k] exI [of _ ?p]) simp
  ultimately have "set (active_bindings (btree_insert ?k ?p m2)) = insert (pq_binding q) (set (active_bindings m2))"
    by blast
  with act total that show ?thesis by blast
qed

lemma entry_ok_prepared:
  assumes "entry_ok P node_id i x" and "ce_payload (je_envelope x) = ResourceClaimPrepare q"
    and "claim_prepared_new (px P) q at = Inr p" and "ce_issued_at (je_envelope x) \<le> at" and "at \<le> t"
  shows "entry_ok P node_id i (x\<lparr>je_completion := Some
    \<lparr>jc_completed_at = t, jc_outcome = Succeeded (ResourceClaimPrepared p)\<rparr>\<rparr>)"
proof -
  have p: "claim_prepared_validate_for (px P) p q = Inr ()" "pd_prepared_at p = at"
    using assms(3) by (auto simp: claim_prepared_new_def Let_def)
  then have "claim_prepared_validate p = Inr ()"
    by (auto simp: claim_prepared_validate_for_def)
  with assms p show ?thesis
    by (auto simp: entry_ok_def entry_acknowledgement_def is_ok_iff Let_def ack_validate_against_def
        ack_validate_success_def result_validate_against_def evidence_time_within_def)
qed
section \<open>Properties of the executor\<close>

lemma dispatch_prepare_Inr:
  assumes "dispatch P node_id env (Some j) e = Inr r" and "ce_payload e = ResourceClaimPrepare q"
  obtains i m p where "ae_inventory env = Some (Inr i)" and "resource_claim_projection P j = Inr m"
    and "validate_prepare (px P) q i (active_bindings m) = Inr ()"
    and "claim_prepared_new (px P) q (command_timestamp (ae_evidence_now env) e) = Inr p"
    and "r = ResourceClaimPrepared p"
  using assms
  by (auto simp: dispatch_def dispatch_prepare_def current_resource_inventory_def
      journal_active_bindings_def read_journal_Inr current_journal_def map_err_Inr_iff
      split: option.split_asm)

text \<open>The projection accepts the result of a prepare command that was admitted against it.\<close>

lemma prepare_projected:
  assumes wf: "projection_wf m" and x: "projection_apply P m x = Inr m1" "je_completion x = None"
    and payload: "ce_payload (je_envelope x) = ResourceClaimPrepare q"
    and admitted: "validate_prepare (px P) q i (active_bindings m1) = Inr ()"
    and ev: "claim_prepared_validate_for (px P) p q = Inr ()"
    and c: "jc_outcome c = Succeeded (ResourceClaimPrepared p)"
  obtains m' where "projection_apply P m (x\<lparr>je_completion := Some c\<rparr>) = Inr m'"
    and "set (active_bindings m') = insert (pq_binding q) (set (active_bindings m1))"
    and "\<forall>key. claimed_amount (active_bindings m') key =
      claimed_amount [pq_binding q] key + claimed_amount (active_bindings m1) key"
proof -
  have "register_entry m (ResourceClaimPrepare q) False = Inr m1"
    using x payload by (auto simp: projection_apply_def succeeded_def)
  then obtain m2 b where m2: "register_entry m (ResourceClaimPrepare q) True = Inr m2" "projection_wf m2"
      "active_bindings m2 = active_bindings m1" "btree_get m2 (nb_claim_id (pq_binding q)) = Some b"
      "pj_binding b = pq_binding q"
    by (rule register_prepare_completed [OF _ wf])
  note admitted' = admitted [folded m2(3)]
  obtain m' where m': "activate_prepared m2 q = Inr m'"
      "set (active_bindings m') = insert (pq_binding q) (set (active_bindings m2))"
    by (rule admitted_projection [OF m2(2) admitted' m2(4,5)])
  have total: "claimed_amount (active_bindings m') key =
      claimed_amount [pq_binding q] key + claimed_amount (active_bindings m2) key" for key
    by (rule admitted_projection [OF m2(2) admitted' m2(4,5), of key]) (simp add: m'(1))
  have "projection_apply P m (x\<lparr>je_completion := Some c\<rparr>) = Inr m'"
    using m2(1) m'(1) ev payload c by (simp add: projection_apply_def succeeded_def)
  with m'(2) total m2(3) that show ?thesis by simp
qed

lemma prepare_recorded:
  assumes sound: "file_sound P node_id f"
    and fresh: "btree_get (cj_entries (current_journal node_id f)) (ce_command_id e) = None"
    and started: "journal_begin P node_id (ae_begin_io env) f e = (f1, Inr Execute)"
    and payload: "ce_payload e = ResourceClaimPrepare q"
    and time: "\<not> envelope_is_expired_at e (ae_now env)" "ae_dispatched_now env \<le> ce_not_after e"
    and dispatched: "dispatch P node_id env f1 e = Inr r"
    and io: "ae_complete_io env = \<lparr>io_open = None, io_write = Written\<rparr>"
  obtains j' a i m1 m' where "execute P node_id env f e = (Some j', Inr a)" and "ak_outcome a = Succeeded r"
    and "ae_inventory env = Some (Inr i)" and "cj_node_id j' = node_id" and "journal_validate P j' = Inr ()"
    and "resource_claim_projection P j' = Inr m'"
    and "validate_prepare (px P) q i (active_bindings m1) = Inr ()"
    and "set (active_bindings m') = insert (pq_binding q) (set (active_bindings m1))"
    and "\<forall>key. claimed_amount (active_bindings m') key =
      claimed_amount [pq_binding q] key + claimed_amount (active_bindings m1) key"
proof -
  let ?x = "\<lparr>je_envelope = e, je_completion = None, je_acknowledged = False\<rparr> :: entry"
  let ?xs = "entries_in_order (current_journal node_id f)"
  obtain j where j: "f1 = Some j" "cj_node_id j = node_id" "journal_validate P j = Inr ()" "fence_inv P j"
      "btree_get (cj_entries j) (ce_command_id e) = Some ?x" "entries_in_order j = ?xs @ [?x]"
    by (rule begin_fresh [OF started sound fresh])
  obtain i m1 p where d: "ae_inventory env = Some (Inr i)" "resource_claim_projection P j = Inr m1"
      "validate_prepare (px P) q i (active_bindings m1) = Inr ()"
      "claim_prepared_new (px P) q (command_timestamp (ae_evidence_now env) e) = Inr p"
      "r = ResourceClaimPrepared p"
    by (rule dispatch_prepare_Inr [OF dispatched [unfolded j(1)] payload])
  obtain m where m: "try_fold (projection_apply P) [] ?xs = Inr m" "projection_apply P m ?x = Inr m1"
    using d(2) by (auto simp: resource_claim_projection_def j(6) try_fold_append)
  have wf: "projection_wf m" by (rule projection_wf_fold [OF m(1) projection_wf_Nil])
  have at: "pd_prepared_at p = command_timestamp (ae_evidence_now env) e"
    and ev: "claim_prepared_validate_for (px P) p q = Inr ()"
    using d(4) by (auto simp: claim_prepared_new_def Let_def)
  let ?res = "Succeeded (ResourceClaimPrepared p)"
  let ?t = "completion_timestamp P env e ?res"
  have res: "command_outcome P node_id env f1 e = ?res"
    using time dispatched d(5) by (simp add: command_outcome_def)
  have ok: "entry_ok P node_id (ce_command_id e) (?x\<lparr>je_completion := Some \<lparr>jc_completed_at = ?t, jc_outcome = ?res\<rparr>\<rparr>)"
    by (rule entry_ok_prepared [OF _ _ d(4)])
      (use journal_entry_ok [OF j(3,5)] j(2) payload at in
        \<open>simp_all add: command_timestamp_def completion_timestamp_def evidence_time_def\<close>)
  obtain m' where m': "projection_apply P m (?x\<lparr>je_completion := Some \<lparr>jc_completed_at = ?t, jc_outcome = ?res\<rparr>\<rparr>) = Inr m'"
      "set (active_bindings m') = insert (pq_binding q) (set (active_bindings m1))"
      "\<forall>key. claimed_amount (active_bindings m') key =
        claimed_amount [pq_binding q] key + claimed_amount (active_bindings m1) key"
    by (rule prepare_projected [OF wf m(2) _ _ d(3) ev, where c = "\<lparr>jc_completed_at = ?t, jc_outcome = ?res\<rparr>"])
      (simp_all add: payload)
  obtain j' a where c: "journal_complete P node_id \<lparr>io_open = None, io_write = Written\<rparr> (Some j)
      (ce_command_id e) ?t ?res = (Some j', Inr a)"
      "ak_outcome a = ?res" "cj_node_id j' = node_id" "journal_validate P j' = Inr ()"
      "resource_claim_projection P j' = Inr m'"
    by (rule complete_last [OF j(2,3) fence_inv_wf(1) [OF j(4)] j(5) _ j(6) ok m(1) m'(1)])
      (use payload in auto)
  have "execute P node_id env f e = (Some j', Inr a)"
    using c(1) by (simp add: execute_begun [OF started] io j(1) Let_def res [unfolded j(1)])
  with c(2-5) d(1,3,5) m'(2,3) that show ?thesis by simp
qed

text \<open>
  C5. The agent prepares what it can hold. When a prepare command is journaled for the first time
  and dispatched within its deadline, then with a working file system its result is always recorded
  and acknowledged; in the journal after it the claim is active, no other active claim conflicts with
  it, and of every shared slot it asks for the active claims together hold no more than the capacity
  in the inventory that was read.
\<close>

theorem agent_prepares_within_capacity:
  assumes reach: "(file_step P node_id)\<^sup>*\<^sup>* None f"
    and fresh: "btree_get (cj_entries (current_journal node_id f)) (ce_command_id e) = None"
    and started: "journal_begin P node_id (ae_begin_io env) f e = (f1, Inr Execute)"
    and payload: "ce_payload e = ResourceClaimPrepare q"
    and time: "\<not> envelope_is_expired_at e (ae_now env)" "ae_dispatched_now env \<le> ce_not_after e"
    and dispatched: "dispatch P node_id env f1 e = Inr r"
    and io: "ae_complete_io env = \<lparr>io_open = None, io_write = Written\<rparr>"
  shows "\<exists>f2 a i bs. execute P node_id env f e = (f2, Inr a) \<and> ak_outcome a = Succeeded r \<and>
    ae_inventory env = Some (Inr i) \<and>
    journal_active_bindings P node_id \<lparr>io_open = None, io_write = Written\<rparr> f2 = Inr bs \<and>
    pq_binding q \<in> set bs \<and>
    (\<forall>b\<in>set bs. b \<noteq> pq_binding q \<longrightarrow>
       nb_claim_id b \<noteq> nb_claim_id (pq_binding q) \<and> compatible (pq_binding q) b) \<and>
    (\<forall>s\<in>set (nb_slots (pq_binding q)). is_shared_capacity (sb_kind s) \<longrightarrow>
       (\<exists>slot capacity. inventory_find i (sb_key s) = Some slot \<and>
          scalar_amount (ns_allocation slot) = Some capacity \<and>
          claimed_amount bs (sb_key s) \<le> unat capacity))"
proof -
  have "file_sound P node_id f"
    by (rule journal_file.run_sound [OF reach]) (simp add: file_sound_def)
  then obtain j' a i m1 m' where c: "execute P node_id env f e = (Some j', Inr a)" "ak_outcome a = Succeeded r"
      "ae_inventory env = Some (Inr i)" "cj_node_id j' = node_id" "journal_validate P j' = Inr ()"
      "resource_claim_projection P j' = Inr m'"
      "validate_prepare (px P) q i (active_bindings m1) = Inr ()"
      "set (active_bindings m') = insert (pq_binding q) (set (active_bindings m1))"
      "\<forall>key. claimed_amount (active_bindings m') key =
        claimed_amount [pq_binding q] key + claimed_amount (active_bindings m1) key"
    by (rule prepare_recorded [OF _ fresh started payload time dispatched io])
  have bs: "journal_active_bindings P node_id \<lparr>io_open = None, io_write = Written\<rparr> (Some j') =
      Inr (active_bindings m')"
    using c(4-6) by (simp add: journal_active_bindings_def read_journal_def)
  have slots: "validate_slot_bindings (nb_slots (pq_binding q)) = Inr ()"
    using validate_prepare_facts(1) [OF c(7)]
    by (auto simp: claim_prepare_validate_def intro: node_binding_slots_valid split: if_split_asm)
  have cap: "\<exists>slot capacity. inventory_find i (sb_key s) = Some slot \<and>
      scalar_amount (ns_allocation slot) = Some capacity \<and>
      claimed_amount (active_bindings m') (sb_key s) \<le> unat capacity"
    if s: "s \<in> set (nb_slots (pq_binding q))" "is_shared_capacity (sb_kind s)" for s
  proof -
    obtain slot capacity amount where k: "inventory_find i (sb_key s) = Some slot"
        "scalar_amount (ns_allocation slot) = Some capacity" "scalar_amount (sb_allocation s) = Some amount"
        "claimed_amount (active_bindings m1) (sb_key s) + unat amount \<le> unat capacity"
      using validate_prepare_facts(3) [OF c(7)] s by blast
    have "claimed_amount (active_bindings m') (sb_key s) \<le> unat capacity"
      using k(4) claimed_amount_slot [OF slots s(1) k(3)] c(9) [rule_format, of "sb_key s"] by (simp add: add.commute)
    with k(1,2) show ?thesis by blast
  qed
  show ?thesis
    by (rule exI [of _ "Some j'"], rule exI [of _ a], rule exI [of _ i], rule exI [of _ "active_bindings m'"])
      (use c(1-3,8) bs validate_prepare_facts(2) [OF c(7)] cap in auto)
qed
text \<open>The failures of the command kinds modelled here have valid codes.\<close>

lemmas code_line_defs = validate_single_line_def contains_any_def ws1_def ws2_def ws3_def

lemma runtime_code_line: "validate_single_line l (fst (snd (runtime_failure_status e))) 127 = Inr ()"
  by (cases e) (simp_all add: code_line_defs)

lemma artifact_code_line: "validate_single_line l (fst (snd (artifact_failure_status e))) 127 = Inr ()"
  by (cases e) (simp_all add: code_line_defs)

lemma claim_code_line: "validate_single_line l (claim_error_code e) 127 = Inr ()"
  by (cases e) (simp_all add: claim_error_code_def code_line_defs)

lemma plain_line:
  assumes "s \<noteq> []" and "length s \<le> n" and "\<And>c. c \<in> set s \<Longrightarrow> 45 \<le> (of_char c :: nat) \<and> (of_char c :: nat) \<le> 122"
  shows "validate_single_line l s n = Inr ()"
proof -
  have plain: "\<not> ws1 c \<and> \<not> ws2 c d \<and> \<not> ws3 c d e \<and> c \<notin> {CHR 0x00, CHR 0x0D, CHR 0x0A}"
    if "c \<in> set s" for c d e
    using assms(3) [OF that] by (auto simp: ws1_def ws2_def ws3_def less_eq_char_def)
  obtain c t where s: "s = c # t" using assms(1) by (cases s) auto
  then have "\<not> starts_with_ws s"
    using plain [of c] by (auto simp: starts_with_ws_def split: list.split)
  then have "\<not> is_blank s"
    using is_blank_starts assms(1) by blast
  moreover have "CHR 0x00 \<notin> set s" "CHR 0x0D \<notin> set s" "CHR 0x0A \<notin> set s"
    using plain by blast+
  ultimately show ?thesis
    using assms(2) by (auto simp: validate_single_line_def contains_any_def list_ex_iff)
qed

lemma plugin_code_line:
  "validate_single_line l (sanitize_plugin_host_error_code code) 127 = Inr ()"
proof (cases "code \<noteq> [] \<and> length code \<le> 127 \<and>
    list_all (\<lambda>c. CHR ''a'' \<le> c \<and> c \<le> CHR ''z'' \<or> ascii_digit c \<or> c \<in> set ''._-'') code")
  case True
  have e: "sanitize_plugin_host_error_code code = code"
    unfolding sanitize_plugin_host_error_code_def by (rule if_P [OF True])
  have r: "45 \<le> (of_char c :: nat) \<and> (of_char c :: nat) \<le> 122"
    if "CHR ''a'' \<le> c \<and> c \<le> CHR ''z'' \<or> ascii_digit c \<or> c \<in> set ''._-''" for c
    using that
  proof (elim disjE)
    assume "ascii_digit c"
    then show ?thesis by (simp add: ascii_digit_def less_eq_char_def)
  next
    assume "c \<in> set ''._-''"
    then show ?thesis by auto
  qed (simp add: less_eq_char_def)
  from True have "\<forall>c\<in>set code. CHR ''a'' \<le> c \<and> c \<le> CHR ''z'' \<or> ascii_digit c \<or> c \<in> set ''._-''"
    unfolding list_all_iff by blast
  then show ?thesis
    unfolding e using True by (intro plain_line r) blast+
next
  case False
  have "sanitize_plugin_host_error_code code = ''plugin_host_operation_failed''"
    unfolding sanitize_plugin_host_error_code_def by (rule if_not_P [OF False])
  then show ?thesis by (simp add: code_line_defs)
qed

abbreviation long_message :: command_error where
  "long_message \<equiv> CommandClaim (NodeSingleLine ''command failure message'')"

lemma failure_outcome_validate:
  assumes "validate_single_line ''command failure code'' (fst (snd r)) 127 = Inr ()"
  shows "outcome_validate P (failure_outcome r text) =
    (if length (sanitize_error text) \<le> 16 * 1024 then Inr () else Inl long_message)"
proof -
  have l: "validate_single_line ''command failure message'' (sanitize_error text) (16 * 1024) =
      (if length (sanitize_error text) \<le> 16 * 1024 then Inr ()
       else Inl (NodeSingleLine ''command failure message''))"
  proof (cases "length (sanitize_error text) \<le> 16 * 1024")
    case True
    with sanitize_error_line show ?thesis by auto
  next
    case False
    then show ?thesis by (simp add: validate_single_line_def)
  qed
  obtain status code retryable where r: "r = (status, code, retryable)" by (cases r)
  show ?thesis
    using assms l by (cases status) (simp_all add: r failure_outcome_def Let_def failure_validate_def)
qed

lemma dispatch_failure_validate:
  assumes "err \<in> range DispatchRuntime \<union> range DispatchArtifact \<union> range DispatchResourceClaim \<union> range DispatchPluginHost"
  shows "outcome_validate P (dispatch_failure text err) =
    (if length (sanitize_error text) \<le> 16 * 1024 then Inr () else Inl long_message)"
    and "dispatch_failure text err \<noteq> Succeeded r"
proof -
  obtain s where s: "dispatch_failure text err = failure_outcome s text"
      "validate_single_line ''command failure code'' (fst (snd s)) 127 = Inr ()"
  proof -
    from assms consider e where "err = DispatchRuntime e" | e where "err = DispatchArtifact e"
      | e where "err = DispatchResourceClaim e" | code where "err = DispatchPluginHost code" by blast
    then show thesis
      using that runtime_code_line artifact_code_line claim_code_line plugin_code_line
      by cases (simp_all add: dispatch_failure_def coded_status_def)
  qed
  show "outcome_validate P (dispatch_failure text err) =
      (if length (sanitize_error text) \<le> 16 * 1024 then Inr () else Inl long_message)"
    unfolding s(1) by (rule failure_outcome_validate [OF s(2)])
  show "dispatch_failure text err \<noteq> Succeeded r"
    unfolding s(1) by (auto simp: failure_outcome_def Let_def split: prod.split failure_status.split)
qed

lemma complete_invalid:
  assumes j: "cj_node_id j = node_id" "journal_validate P j = Inr ()"
    and x: "btree_get (cj_entries j) i = Some x" "je_completion x = None"
    and t: "ce_issued_at (je_envelope x) \<le> t"
    and err: "outcome_validate P res = Inl err"
  shows "journal_complete P node_id \<lparr>io_open = None, io_write = Written\<rparr> (Some j) i t res =
    (Some j, Inl (JournalInvalid (JrCommand err)))"
proof -
  have "entry_ok P node_id i x" using journal_entry_ok [OF j(2) x(1)] j(1) by simp
  then have "envelope_validate P (je_envelope x) = Inr ()"
    by (auto simp: entry_ok_def)
  then show ?thesis
    using assms
    by (simp add: journal_complete_def read_journal_def Let_def entry_acknowledgement_def
        ack_validate_against_def ack_schema_def)
qed


text \<open>What the projection answers depends on the entries alone.\<close>

lemma uncompleted_projection:
  assumes "entries_in_order j = entries_in_order j0 @ [\<lparr>je_envelope = e, je_completion = None, je_acknowledged = False\<rparr>]"
    and "ce_payload e = RuntimeApply q claim"
  shows "resource_claim_projection P j = resource_claim_projection P j0"
proof -
  let ?x = "\<lparr>je_envelope = e, je_completion = None, je_acknowledged = False\<rparr> :: entry"
  have "projection_apply P m ?x = Inr m" for m
    using assms(2) by (simp add: projection_apply_def succeeded_def)
  then show ?thesis
    unfolding resource_claim_projection_def assms(1) try_fold_append
    by (cases "try_fold (projection_apply P) [] (entries_in_order j0)") simp_all
qed

text \<open>
  C40. An application that ends late is forgotten. When the Runtime applies a unit but the command
  has passed its deadline by then, the agent acknowledges a retryable failure, and what the journal
  knows of the claims is what it knew before the command. So a claim that was not bound is still not
  bound, and its release is not held back until the unit is stopped, although the unit may be running.
\<close>

theorem late_apply_is_forgotten:
  assumes reach: "(file_step P node_id)\<^sup>*\<^sup>* None f"
    and fresh: "btree_get (cj_entries (current_journal node_id f)) (ce_command_id e) = None"
    and started: "journal_begin P node_id (ae_begin_io env) f e = (f1, Inr Execute)"
    and payload: "ce_payload e = RuntimeApply q claim"
    and time: "\<not> envelope_is_expired_at e (ae_now env)" "ce_not_after e < ae_dispatched_now env"
    and dispatched: "dispatch P node_id env f1 e = Inr r"
    and io: "ae_complete_io env = \<lparr>io_open = None, io_write = Written\<rparr>"
  shows "\<exists>j' a ob. ae_apply env q = Inr ob \<and> execute P node_id env f e = (Some j', Inr a) \<and>
    ak_outcome a = late_outcome \<and>
    resource_claim_projection P j' = resource_claim_projection P (current_journal node_id f)"
proof -
  have sound: "file_sound P node_id f"
    by (rule journal_file.run_sound [OF reach]) (simp add: file_sound_def)
  have res: "command_outcome P node_id env f1 e = late_outcome"
    using time dispatched by (simp add: command_outcome_def)
  have ok: "outcome_validate P (command_outcome P node_id env f1 e) = Inr ()"
    unfolding res late_outcome_def
    by (simp add: failure_validate_def validate_single_line_def contains_any_def ws1_def ws2_def ws3_def)
  obtain j j' a where c: "execute P node_id env f e = (Some j', Inr a)"
      "ak_outcome a = command_outcome P node_id env f1 e" "journal_validate P j' = Inr ()" "cj_node_id j' = node_id"
      "(\<forall>q. ce_payload e \<noteq> ResourceClaimPrepare q) \<Longrightarrow>
        resource_claim_projection P j' = resource_claim_projection P j"
      "entries_in_order j = entries_in_order (current_journal node_id f) @
        [\<lparr>je_envelope = e, je_completion = None, je_acknowledged = False\<rparr>]"
      "journal_validate P (current_journal node_id f) = Inr ()"
    by (rule execute_failed [OF sound fresh started io _ ok]) (use res in \<open>auto simp: late_outcome_def\<close>)
  have same: "resource_claim_projection P j' = resource_claim_projection P (current_journal node_id f)"
    using c(5) uncompleted_projection [OF c(6) payload] payload by simp
  obtain ob where "ae_apply env q = Inr ob"
    using dispatched payload by (auto simp: dispatch_def dispatch_apply_def)
  with c(1,2) res same show ?thesis by auto
qed
section \<open>Witnesses of the executor\<close>

text \<open>The agent prepares a claim and then applies the Runtime unit, with a working file system.\<close>

abbreviation unit_prepare_envelope :: envelope where
  "unit_prepare_envelope \<equiv> sample_envelope 101 201 1 (ResourceClaimPrepare (unit_prepare 40))"

abbreviation unit_apply_envelope :: envelope where
  "unit_apply_envelope \<equiv> sample_envelope 102 202 2
     (RuntimeApply \<lparr>aq_spec = unit_spec, aq_rest = JNull\<rparr> (Some (unit_binding 40)))"

definition unit_begun :: journal where
  "unit_begun = sample_journal 1 prepare_generation [(101, sample_entry unit_prepare_envelope None)]"

definition unit_ready :: journal where
  "unit_ready = sample_journal 1 prepare_generation
     [(101, sample_entry unit_prepare_envelope (Some (ResourceClaimPrepared (unit_prepared 40))))]"

definition unit_applying :: journal where
  "unit_applying = sample_journal 2 prepare_generation
     [(101, sample_entry unit_prepare_envelope (Some (ResourceClaimPrepared (unit_prepared 40)))),
      (102, sample_entry unit_apply_envelope None)]"

definition unit_inventory :: inventory where
  "unit_inventory = sample_inventory\<lparr>inv_slots :=
     [\<lparr>ns_kind = Cpu, ns_stable_resource_id = ''cpu'', ns_allocation = Scalar 2000 MilliCpu\<rparr>,
      \<lparr>ns_kind = Memory, ns_stable_resource_id = ''mem'', ns_allocation = Scalar 4096 Byte\<rparr>]\<rparr>"

definition unit_env :: agent_env where
  "unit_env = \<lparr>ae_begin_io = working_io, ae_read_io = working_io, ae_complete_io = working_io,
     ae_now = 1500000000, ae_evidence_now = 2000000000, ae_dispatched_now = 2500000000,
     ae_completion_now = 3000000000, ae_inventory = Some (Inr unit_inventory), ae_artifacts = None,
     ae_apply = (\<lambda>q. Inr sample_observation), ae_inspect = (\<lambda>u. Inr (InspectionNotFound u JNull)),
     ae_stop = (\<lambda>q. Inr (InspectionNotFound (ar_unit_id q) JNull)), ae_remove = (\<lambda>q. Inl RtTransport),
     ae_other = (\<lambda>e d. Inl DispatchPluginHostUnavailable), ae_text = (\<lambda>err. ''unavailable'')\<rparr>"

lemma unit_envelopes_valid:
  "envelope_validate sample_protocol unit_prepare_envelope = Inr ()"
  "envelope_validate sample_protocol unit_apply_envelope = Inr ()"
proof -
  have n: "nb_node_id (unit_binding 40) = 7"
    by (simp add: unit_binding_def sample_node_binding_def)
  show "envelope_validate sample_protocol unit_prepare_envelope = Inr ()"
    by (rule sample_envelope_valid) (simp_all add: unit_requests_valid sample_requests_sel unit_sel n)
  show "envelope_validate sample_protocol unit_apply_envelope = Inr ()"
    by (rule sample_envelope_valid)
      (simp_all add: unit_apply_valid sample_requests_sel unit_sel n, simp add: sample_runtime_def)
qed

lemma unit_entry_sel:
  "ce_command_id (sample_envelope i l s p) = i" "ce_node_id (sample_envelope i l s p) = 7"
  "ce_payload (sample_envelope i l s p) = p" "ce_issued_at (sample_envelope i l s p) = 1000000000"
  by (simp_all add: sample_envelope_def)

lemma unit_entries_ok:
  "entry_ok sample_protocol 7 101 (sample_entry unit_prepare_envelope None)"
  "entry_ok sample_protocol 7 102 (sample_entry unit_apply_envelope None)"
  by (simp_all add: entry_ok_def entry_acknowledgement_def unit_entry_sel unit_envelopes_valid)

lemma unit_prepared_ok:
  "entry_ok sample_protocol 7 101
     (sample_entry unit_prepare_envelope (Some (ResourceClaimPrepared (unit_prepared 40))))"
proof -
  have t: "pd_prepared_at (unit_prepared 40) = 2000000000" "px sample_protocol = sample_externals"
    by (simp_all add: unit_prepared_def sample_prepared_def sample_protocol_def)
  have v: "claim_prepared_validate (unit_prepared 40) = Inr ()"
    "claim_prepared_validate_for sample_externals (unit_prepared 40) (unit_prepare 40) = Inr ()"
    using unit_evidence_valid(1) [of 40] by (simp_all add: claim_prepared_validate_for_def)
  show ?thesis
    by (simp add: entry_ok_def entry_acknowledgement_def is_ok_iff ack_validate_against_def Let_def
        ack_validate_success_def result_validate_against_def evidence_time_within_def
        unit_entry_sel t v unit_envelopes_valid)
qed

lemma unit_projections:
  "resource_claim_projection sample_protocol unit_begun = Inr [(40, projected_new (unit_prepare 40))]"
  "\<exists>p. resource_claim_projection sample_protocol unit_ready = Inr [(40, p)] \<and> pj_active p \<and> \<not> pj_bound p \<and>
     pj_binding p = unit_binding 40"
  "\<exists>p. resource_claim_projection sample_protocol unit_applying = Inr [(40, p)] \<and> pj_active p \<and>
     pj_binding p = unit_binding 40"
  by (simp_all add: unit_begun_def unit_ready_def unit_applying_def sample_journal_def sample_projection_defs
      sample_requests_sel unit_sel unit_requests_valid unit_evidence_valid sample_numbers)

lemma unit_journals_valid:
  "journal_validate sample_protocol unit_begun = Inr ()"
  "journal_validate sample_protocol unit_ready = Inr ()"
  "journal_validate sample_protocol unit_applying = Inr ()"
proof -
  have d: "journal_is_sha256 sample_digest"
    by (simp add: journal_is_sha256_def sample_digest_def strip_prefix_def ascii_hexdigit_def lower_hex_def
        list_all_iff)
  have projections: "is_ok (resource_claim_projection sample_protocol unit_begun)"
      "is_ok (resource_claim_projection sample_protocol unit_ready)"
      "is_ok (resource_claim_projection sample_protocol unit_applying)"
    using unit_projections by (auto simp: is_ok_iff)
  note projections = projections [unfolded unit_begun_def unit_ready_def unit_applying_def]
  show "journal_validate sample_protocol unit_begun = Inr ()"
    unfolding unit_begun_def
    by (rule sample_journal_valid [OF _ refl])
      (use unit_entries_ok unit_prepared_ok projections in \<open>simp_all add: sample_requests_sel sample_numbers d\<close>)
  show "journal_validate sample_protocol unit_ready = Inr ()"
    unfolding unit_ready_def
    by (rule sample_journal_valid [OF _ refl])
      (use unit_entries_ok unit_prepared_ok projections in \<open>simp_all add: sample_requests_sel sample_numbers d\<close>)
  show "journal_validate sample_protocol unit_applying = Inr ()"
    unfolding unit_applying_def
    by (rule sample_journal_valid [OF _ refl])
      (use unit_entries_ok unit_prepared_ok projections in \<open>simp_all add: sample_requests_sel sample_numbers d\<close>)
qed

lemma unit_reads:
  "read_journal sample_protocol 7 working_io (Some unit_begun) = Inr unit_begun"
  "read_journal sample_protocol 7 working_io (Some unit_ready) = Inr unit_ready"
  "read_journal sample_protocol 7 working_io (Some unit_applying) = Inr unit_applying"
  by (rule sample_read [OF unit_journals_valid(1)], simp add: unit_begun_def sample_journal_def)
    (rule sample_read [OF unit_journals_valid(2)], simp add: unit_ready_def sample_journal_def,
     rule sample_read [OF unit_journals_valid(3)], simp add: unit_applying_def sample_journal_def)

lemma unit_run:
  "journal_begin sample_protocol 7 working_io None unit_prepare_envelope = (Some unit_begun, Inr Execute)"
  "\<exists>a. journal_complete sample_protocol 7 working_io (Some unit_begun) 101 3000000000
     (Succeeded (ResourceClaimPrepared (unit_prepared 40))) = (Some unit_ready, Inr a)"
  "journal_begin sample_protocol 7 working_io (Some unit_ready) unit_apply_envelope =
     (Some unit_applying, Inr Execute)"
proof -
  have r: "read_journal sample_protocol 7 working_io None = Inr (journal_empty 7)"
    using sample_empty_valid by (simp add: read_journal_def journal_empty_def)
  show "journal_begin sample_protocol 7 working_io None unit_prepare_envelope = (Some unit_begun, Inr Execute)"
    using unit_journals_valid(1)
    by (simp add: journal_begin_def unit_envelopes_valid r sample_requests_sel)
      (simp add: journal_empty_def checked_add_def sample_requests_sel unit_sel unit_requests_valid Let_def
        fence_generation_def commit_journal_def write_journal_def unit_begun_def sample_journal_def btree_get_def)
  show "\<exists>a. journal_complete sample_protocol 7 working_io (Some unit_begun) 101 3000000000
      (Succeeded (ResourceClaimPrepared (unit_prepared 40))) = (Some unit_ready, Inr a)"
    using unit_journals_valid(2) unit_prepared_ok unit_reads(1)
    by (auto simp: journal_complete_def entry_ok_def is_ok_iff unit_begun_def unit_ready_def
        sample_journal_def btree_get_def entry_acknowledgement_def ok_or_def Let_def commit_journal_def
        write_journal_def)
  have s: "payload_digest sample_protocol (ce_payload unit_apply_envelope) = Inr sample_digest"
    by (rule sample_payload_digest) (use unit_envelopes_valid(2) in \<open>auto simp: envelope_validate_def split: if_split_asm\<close>)
  note s = s [unfolded unit_entry_sel]
  show "journal_begin sample_protocol 7 working_io (Some unit_ready) unit_apply_envelope =
      (Some unit_applying, Inr Execute)"
    using unit_journals_valid(3)
    by (simp add: journal_begin_def unit_envelopes_valid unit_reads sample_requests_sel)
      (simp add: unit_ready_def checked_add_def sample_requests_sel unit_sel s Let_def
        fence_generation_def commit_journal_def write_journal_def unit_applying_def sample_journal_def
        btree_get_def sample_numbers)
qed

lemma unit_reachable: "(file_step sample_protocol 7)\<^sup>*\<^sup>* None (Some unit_ready)"
proof -
  have "file_step sample_protocol 7 None (Some unit_begun)"
    by (rule file_step.begins [OF unit_run(1)])
  moreover have "file_step sample_protocol 7 (Some unit_begun) (Some unit_ready)"
    using unit_run(2) by (blast intro: file_step.completes)
  ultimately show ?thesis
    by (rule rtranclp_trans [OF r_into_rtranclp r_into_rtranclp])
qed

lemma unit_inventory_valid:
  "node_binding_validate_inventory sample_externals (unit_binding 40) unit_inventory = Inr ()"
proof -
  have i: "inventory_validate sample_externals unit_inventory = Inr ()"
    using contract_accepts_digest [OF sample_digest_valid]
    by (simp add: inventory_validate_def unit_inventory_def sample_inventory_def validate_uuid_def
        timestamp_millis_def validate_inventory_slots_def node_slot_validate_def ns_key_def
        inventory_calculate_digest_def sample_hash ok_or_def slot_eval)
  show ?thesis
    using unit_binding_valid [of 40] i
    by (simp add: node_binding_validate_inventory_def)
      (simp add: unit_binding_def sample_node_binding_def unit_inventory_def sample_inventory_def
        binding_slot_within_def inventory_find_def ns_key_def sb_key_def ok_or_def word_le_nat_alt)
qed

lemma unit_env_sel [simp]:
  "ae_begin_io unit_env = working_io" "ae_read_io unit_env = working_io" "ae_complete_io unit_env = working_io"
  "ae_now unit_env = 1500000000" "ae_dispatched_now unit_env = 2500000000"
  "ae_inventory unit_env = Some (Inr unit_inventory)" "ae_artifacts unit_env = None"
  "ae_apply unit_env q = Inr sample_observation" "ae_text unit_env err = ''unavailable''"
  by (simp_all add: unit_env_def)

lemma unit_times:
  "ce_not_after (sample_envelope i l s p) = 9000000000"
  by (simp add: sample_envelope_def)

lemma unit_fresh:
  "btree_get (cj_entries (current_journal 7 None)) (ce_command_id unit_prepare_envelope) = None"
  "btree_get (cj_entries (current_journal 7 (Some unit_ready))) (ce_command_id unit_apply_envelope) = None"
  by (simp_all add: current_journal_def journal_empty_def unit_ready_def sample_journal_def unit_entry_sel btree_get_def)

lemma unit_prepare_dispatched:
  "\<exists>r. dispatch sample_protocol 7 unit_env (Some unit_begun) unit_prepare_envelope = Inr r"
proof -
  have e: "ce_payload unit_prepare_envelope = ResourceClaimPrepare (unit_prepare 40)"
    by (simp add: unit_entry_sel)
  have a: "journal_active_bindings sample_protocol 7 working_io (Some unit_begun) = Inr []"
    by (simp add: journal_active_bindings_def unit_reads unit_projections active_bindings_def btree_values_def
        projected_new_def)
  have v: "validate_prepare sample_externals (unit_prepare 40) unit_inventory [] = Inr ()"
    using unit_requests_valid(1) [of 40] unit_inventory_valid
    by (simp add: validate_prepare_def unit_sel)
      (simp add: unit_binding_def unit_inventory_def admit_slot_def inventory_capacities_def active_amount_def
        Let_def ns_key_def sb_key_def btree_get_def ok_or_def checked_add_def word_less_nat_alt
        less_resource_kind_def)
  have "claim_prepared_new sample_externals (unit_prepare 40) (command_timestamp (ae_evidence_now unit_env) unit_prepare_envelope) = Inr (unit_prepared 40)"
    using claim_prepared_exact [of sample_externals "unit_prepared 40" "unit_prepare 40"] unit_evidence_valid(1) [of 40]
    by (simp add: command_timestamp_def unit_entry_sel unit_env_def unit_prepared_def sample_prepared_def)
  then show ?thesis
    using a v by (simp add: dispatch_def e dispatch_prepare_def current_resource_inventory_def sample_requests_sel)
qed

theorem agent_prepares_within_capacity_witness:
  "\<exists>f2 a. execute sample_protocol 7 unit_env None unit_prepare_envelope = (f2, Inr a) \<and>
    (\<exists>bs. journal_active_bindings sample_protocol 7 working_io f2 = Inr bs \<and> unit_binding 40 \<in> set bs \<and>
      claimed_amount bs (Memory, ''mem'') \<le> 4096)"
proof -
  obtain r where r: "dispatch sample_protocol 7 unit_env (Some unit_begun) unit_prepare_envelope = Inr r"
    using unit_prepare_dispatched by blast
  have s: "\<exists>s\<in>set (nb_slots (unit_binding 40)). sb_key s = (Memory, ''mem'') \<and> is_shared_capacity (sb_kind s)"
    by (simp add: unit_binding_def sb_key_def is_shared_capacity_def)
  have i: "inventory_find unit_inventory (Memory, ''mem'') = Some slot \<Longrightarrow>
      scalar_amount (ns_allocation slot) = Some capacity \<Longrightarrow> unat capacity = 4096" for slot capacity
    by (auto simp: unit_inventory_def inventory_find_def ns_key_def)
  have "\<not> envelope_is_expired_at unit_prepare_envelope (ae_now unit_env)"
    "ae_dispatched_now unit_env \<le> ce_not_after unit_prepare_envelope"
    by (simp_all add: envelope_is_expired_at_def unit_times)
  from agent_prepares_within_capacity [where q = "unit_prepare 40", OF _ unit_fresh(1) _ _ this r] unit_run(1) obtain f2 a bs where
    w: "execute sample_protocol 7 unit_env None unit_prepare_envelope = (f2, Inr a)"
      "journal_active_bindings sample_protocol 7 working_io f2 = Inr bs" "unit_binding 40 \<in> set bs"
      "\<forall>s\<in>set (nb_slots (unit_binding 40)). is_shared_capacity (sb_kind s) \<longrightarrow>
       (\<exists>slot capacity. inventory_find unit_inventory (sb_key s) = Some slot \<and>
          scalar_amount (ns_allocation slot) = Some capacity \<and> claimed_amount bs (sb_key s) \<le> unat capacity)"
    by (auto simp: unit_entry_sel unit_sel)
  from w(4) s obtain slot capacity where "inventory_find unit_inventory (Memory, ''mem'') = Some slot"
      "scalar_amount (ns_allocation slot) = Some capacity" "claimed_amount bs (Memory, ''mem'') \<le> unat capacity"
    by metis
  with i have "claimed_amount bs (Memory, ''mem'') \<le> 4096" by fastforce
  with w(1-3) show ?thesis by blast
qed

lemma unit_apply_dispatched:
  assumes "ae_read_io env = working_io" and "ae_inventory env = Some (Inr unit_inventory)"
    and "ae_artifacts env = None" and "\<And>q. ae_apply env q = Inr sample_observation"
  shows "\<exists>r. dispatch sample_protocol 7 env (Some unit_applying) unit_apply_envelope = Inr r"
proof -
  obtain p where p: "resource_claim_projection sample_protocol unit_applying = Inr [(40, p)]" "pj_active p"
      "pj_binding p = unit_binding 40"
    using unit_projections(3) by blast
  have v: "journal_validate_runtime_binding sample_protocol 7 working_io (Some unit_applying) unit_spec
      (Some (unit_binding 40)) = Inr ()"
    by (simp add: journal_validate_runtime_binding_def unit_reads p validate_runtime_apply_def unit_apply_valid
        unit_sel same_runtime_def btree_values_def)
  have "\<exists>ob. node_binding_bind_observation sample_externals sample_runtime (unit_binding 40) sample_observation = Inr ob"
    using unit_binding_valid [of 40] unit_digest [of 40]
    by (simp add: node_binding_bind_observation_def insert_exact_claim_def Let_def)
      (simp add: sample_runtime_def sample_observation_def
        runtime_resource_claim_id_key_def runtime_resource_binding_digest_key_def btree_get_def)
  then show ?thesis
    using v unit_inventory_valid assms
    by (auto simp: dispatch_def dispatch_apply_def current_resource_inventory_def unit_entry_sel sample_requests_sel
        unit_sel)
qed

theorem late_apply_is_forgotten_witness:
  "\<exists>j' a m p. execute sample_protocol 7 (unit_env\<lparr>ae_dispatched_now := 9500000000\<rparr>) (Some unit_ready)
      unit_apply_envelope = (Some j', Inr a) \<and> ak_outcome a = late_outcome \<and>
    resource_claim_projection sample_protocol j' = Inr m \<and> btree_get m 40 = Some p \<and>
    pj_active p \<and> \<not> pj_bound p"
proof -
  let ?env = "unit_env\<lparr>ae_dispatched_now := 9500000000\<rparr>"
  obtain r where r: "dispatch sample_protocol 7 ?env (Some unit_applying) unit_apply_envelope = Inr r"
    using unit_apply_dispatched [of ?env] by auto
  have "\<not> envelope_is_expired_at unit_apply_envelope (ae_now ?env)"
    "ce_not_after unit_apply_envelope < ae_dispatched_now ?env"
    by (simp_all add: envelope_is_expired_at_def unit_times)
  from late_apply_is_forgotten [OF unit_reachable unit_fresh(2) _ _ this r] unit_run(3) obtain j' a where
    w: "execute sample_protocol 7 ?env (Some unit_ready) unit_apply_envelope = (Some j', Inr a)"
      "ak_outcome a = late_outcome"
      "resource_claim_projection sample_protocol j' = resource_claim_projection sample_protocol unit_ready"
    by (auto simp: unit_entry_sel current_journal_def)
  with unit_projections(2) show ?thesis by (auto simp: btree_get_def)
qed

text \<open>A text of 8193 two-byte characters is kept whole: 16386 bytes.\<close>

definition long_text :: string where
  "long_text = concat (replicate 8193 [CHR 0xC3, CHR 0xA9])"

lemma trim_start_id: "\<not> starts_with_ws s \<Longrightarrow> trim_start s = s"
  by (cases s rule: trim_start.cases) (auto simp: starts_with_ws_def)

lemma take_chars_pairs: "k \<le> n \<Longrightarrow>
    take_chars n (concat (replicate k [CHR 0xC3, CHR 0xA9])) = concat (replicate k [CHR 0xC3, CHR 0xA9])"
proof (induction k arbitrary: n)
  case (Suc k)
  then obtain n' where "n = Suc n'" "k \<le> n'" by (cases n) auto
  with Suc.IH show ?case by (simp add: is_continuation_def less_eq_char_def less_char_def)
qed simp

lemma trim_pairs:
  "trim (concat (replicate (Suc k) [CHR 0xC3, CHR 0xA9])) = concat (replicate (Suc k) [CHR 0xC3, CHR 0xA9])"
proof -
  let ?s = "concat (replicate (Suc k) [CHR 0xC3, CHR 0xA9])"
  have ws: "\<not> ws1 (CHR 0xC3)" "\<not> ws2 (CHR 0xC3) c" "\<not> ws3 (CHR 0xC3) c d" "\<not> ws1 (CHR 0xA9)"
      "\<not> ws2 (CHR 0xC3) (CHR 0xA9)" "\<not> ws3 c (CHR 0xC3) (CHR 0xA9)" for c d
    by (simp_all add: ws1_def ws2_def ws3_def less_eq_char_def)
  have a: "trim_start ?s = ?s"
    by (rule trim_start_id) (simp add: starts_with_ws_def ws split: list.split)
  have b: "?s = concat (replicate k [CHR 0xC3, CHR 0xA9]) @ [CHR 0xC3, CHR 0xA9]"
    by (simp flip: replicate_append_same)
  have "trim_rev (CHR 0xA9 # CHR 0xC3 # s) = CHR 0xA9 # CHR 0xC3 # s" for s
    by (cases s) (simp_all add: ws)
  then have "trim_rev (rev ?s) = rev ?s"
    unfolding b by simp
  with a show ?thesis by (simp add: trim_def del: concat.simps replicate_Suc)
qed

lemma long_text_sanitized: "length (sanitize_error long_text) = 16386"
proof -
  have l: "long_text = concat (replicate (Suc 8192) [CHR 0xC3, CHR 0xA9])"
    by (simp only: long_text_def) (rule arg_cong [of _ _ "\<lambda>n. concat (replicate n [CHR 0xC3, CHR 0xA9])"], simp)
  have m: "map (\<lambda>c. if c \<in> {CHR 0x00, CHR 0x0D, CHR 0x0A} then CHR '' '' else c) long_text = long_text"
    by (rule map_idI) (auto simp: long_text_def)
  have t: "trim long_text = long_text" unfolding l by (rule trim_pairs)
  have c: "take_chars (16 * 1024) long_text = long_text"
    unfolding long_text_def by (rule take_chars_pairs) simp
  have n: "length long_text = 16386"
    by (simp add: long_text_def length_concat sum_list_replicate)
  then have "long_text \<noteq> []" by auto
  then have "sanitize_error long_text = long_text"
    unfolding sanitize_error_def Let_def m t c by simp
  with n show ?thesis by simp
qed

lemma unavailable_sanitized: "sanitize_error ''unavailable'' = ''unavailable''"
  by code_simp

lemma unavailable_reported:
  "dispatch_failure ''unavailable'' (DispatchResourceClaim ClaimAuthorityUnavailable) =
     Rejected \<lparr>cf_code = ''resource_claim_authority_unavailable'', cf_message = ''unavailable'', cf_retryable = False\<rparr>"
  by (simp add: dispatch_failure_def failure_outcome_def coded_status_def claim_error_code_def
      claim_error_retryable_def unavailable_sanitized)


end
