(* ===== verification/Spec2Isabelle.thy ===== *)
theory Spec2Isabelle
  imports Ordered_Map Resource Workload Deployment Workload_Replica Replica_Binding Resource_Claim
    Claim_Repository Claim_Allocation Workload_Control Replica_Set Command_Executor
begin

text \<open>
  Verification of the workload placement core of A3S Cloud.

  \<^bold>\<open>The program.\<close> The control plane (\<open>crates/control-plane\<close>) turns a workload into deployments,
  places the replicas of a deployment on nodes, and claims hard resources (CPU, memory, storage,
  ports, accelerators, volumes) of a node for each member of a replica. A claim is reserved in the
  control plane's database, prepared on the node's agent, bound to a Runtime unit and finally
  released; the agent (\<open>crates/node-agent\<close>) receives commands over the protocol of
  \<open>crates/contracts\<close>, journals them on disk and answers each with an acknowledgement. The
  development follows that path from the aggregates of the control plane to the command executor of the agent.

  \<^bold>\<open>Conventions.\<close> \<open>Result<T, E>\<close> is a sum with the error on the left, and every early return of
  the source is a branch; a method on \<open>&mut self\<close> returns the object after the call with its result,
  so that what it wrote before an error is visible. \<open>u64\<close> and \<open>u32\<close> are words, checked additions are
  the standard library's, and unchecked ones wrap. A UUID is a 128-bit word, a timestamp the number
  of nanoseconds, a string its UTF-8 bytes, a \<open>BTreeMap\<close> the list of its entries in key order.
  Error texts are constructors of error types. \<open>serde_json\<close>, \<open>sha2\<close> and \<open>uuid\<close> are the fields of the
  record \<open>externals\<close> (theory \<open>Externals\<close>) with what the code relies on as \<open>hash_laws\<close> and
  \<open>uuid_laws\<close>; the Runtime crate is the record \<open>runtime_contract\<close> (theory \<open>Node_Claim\<close>).

  \<^bold>\<open>Theories and sources.\<close>
  \<^item> \<open>Prelude\<close>, \<open>Ordered_Map\<close>, \<open>Aggregate\<close>, \<open>Externals\<close>: results, loops, machine integers and strings;
    the map interface (locale \<open>ordered_map\<close>, interpreted on sorted association lists); the contract
    of a versioned aggregate (locales \<open>aggregate\<close>, \<open>versioned_aggregate\<close>, \<open>optimistic_aggregate\<close>,
    interpreted by each aggregate below); the third-party parameters.
  \<^item> \<open>Resource\<close>: resource kinds, allocations, slots and node inventories, \<open>contracts/src/resource.rs\<close>
    and \<open>contracts/src/node/inventory.rs\<close>. The slot validators accept exactly the canonical sets, and
    \<open>NodeResourceInventory::new\<close> succeeds exactly on the inventories that validate.
  \<^item> \<open>Workload\<close>, \<open>Deployment\<close>: \<open>workloads/domain/entities/workload.rs\<close> and \<open>deployment.rs\<close>, every method
    as a state transformer; the edges of the two state machines, versions and times along runs,
    terminal states, error behaviour, and that a failed deployment can always settle.
  \<^item> \<open>Workload_Replica\<close>, \<open>Replica_Binding\<close>: \<open>workload_replica.rs\<close>: replicas, members and the binding of
    a deployment to a member; validity, generation fencing, and that a binding that is no longer
    current never becomes current again.
  \<^item> \<open>Workload_Control\<close>, \<open>Replica_Set\<close>: \<open>workload_control.rs\<close> and the planner of
    \<open>domain/services/replica_set_reconfiguration.rs\<close>: constructors and digests of placement policies,
    authority over a workload, restoring from stored fields, and the correctness of a plan, which
    composes with the next one.
  \<^item> \<open>Resource_Claim\<close>: \<open>resource_claim.rs\<close>: reservations, evidence, digests and every method of the
    claim; its life cycle, replay of calls, errors without effect, and that no claim is stuck.
  \<^item> \<open>Claim_Repository\<close>, \<open>Claim_Allocation\<close>: the in-memory repository
    \<open>persistence/in_memory_resource_claims.rs\<close> with its slot leases: exclusive slots have one holder
    and fence old ones, shared capacity is never exceeded, reservations are atomic and replayable,
    no update is lost, and the repository refines a table of locks.
  \<^item> \<open>Node_Claim\<close>: the claim messages \<open>contracts/src/node/resource_claim.rs\<close>, \<open>node_binding\<close> of the
    claim, and the requests and evidence built by \<open>deployment_flow/steps/resource_claims.rs\<close>: the
    exchange between both sides completes, evidence is exact, observations bind and validate.
  \<^item> \<open>Node_Command\<close>, \<open>Command_Journal\<close>: envelopes and acknowledgements of
    \<open>contracts/src/node/command.rs\<close>, and the agent's durable journal \<open>node-agent/src/journal.rs\<close>: the
    document, its validation, its projection of resource claims and the operations on the file,
    where every call may fail before or after the write.
  \<^item> \<open>History\<close>, \<open>Journal_Safety\<close>: the contract of a durable record (locale \<open>history\<close>, interpreted on
    the journal file) and what it gives: every file that calls and failures can leave is readable and
    free of gaps, a command has one outcome, generations of an aggregate only grow, redelivery is
    answered, and the acknowledgement loop ends.
  \<^item> \<open>Claim_Projection\<close>: histories of resource claims on a node: conflicting claims follow each other
    only after a release, a claim whose Runtime unit was applied is released only after the unit was
    stopped or removed, and a release is final.
  \<^item> \<open>Command_Executor\<close>: \<open>node-agent/src/executor.rs\<close> and the admission of claims in
    \<open>node-agent/src/resource_claim.rs\<close>, with clocks, files, inventory, Runtime client and artifact
    manager as the record \<open>agent_env\<close>: a prepared claim is recorded and fits the node, a failed
    dispatch is reported exactly if its text fits, an application that ends late leaves no trace in
    the journal's view of the claims.

  \<^bold>\<open>Loops and bounds.\<close> Loops over collections are structural recursion; the acknowledgement loop
  of the journal is proved to terminate by a measure on the sequence number; no fuel is used.

  \<^bold>\<open>Not modelled.\<close> Database adapters are I/O: of the Postgres repository only the guard that a
  property is about is modelled. Flow steps are asynchronous orchestration over repositories; the
  values they build for the protocol are modelled. Node commands other than those on claims and
  Runtime units go through the functions of the record \<open>other_commands\<close> and the adapter \<open>ae_other\<close> of
  the executor. The product modules of the
  control plane outside workload placement, HTTP presentation, drivers and transports of the agent
  are not modelled; the manifest lists each with its reason.
\<close>

end
